(* ===== verification/Prelude.thy ===== *)
theory Prelude imports Main begin

text \<open>
  Shared vocabulary of the development: the exceptions the daemon's Python code can raise and the
  result type of fallible code, the collections of facts that the component proofs extend, and the
  interfaces that the components interpret: a deterministic machine with an invariant or a monotone
  quantity, and a relation between the states before and after that actions keep.
\<close>

section \<open>Results of code that may raise\<close>

text \<open>
  A Python exception is the left summand of a result; an ordinary return is the right one. Only the
  exception classes the modelled code raises or catches are told apart.
\<close>

datatype pyexc =
    TypeError
  | ValueError
  | AttributeError
  | KeyError
  | ZeroDivisionError
  | OverflowError
  | LeaseConflict
  | OSError
  | OtherException string

type_synonym 'a res = "pyexc + 'a"

definition rbind :: "'a res \<Rightarrow> ('a \<Rightarrow> 'b res) \<Rightarrow> 'b res" where
  "rbind m f = (case m of Inl e \<Rightarrow> Inl e | Inr x \<Rightarrow> f x)"

definition rmap :: "('a \<Rightarrow> 'b) \<Rightarrow> 'a res \<Rightarrow> 'b res" where
  "rmap f m = rbind m (\<lambda>x. Inr (f x))"

definition is_ok :: "'a res \<Rightarrow> bool" where
  "is_ok m = (case m of Inl _ \<Rightarrow> False | Inr _ \<Rightarrow> True)"

named_theorems pysem \<open>evaluation of the Python primitives the models call\<close>
named_theorems fsm_simps \<open>unfolding of the state machines' operations\<close>

lemma rbind_simps [simp, pysem]:
  "rbind (Inl e) f = Inl e"
  "rbind (Inr x) f = f x"
  by (simp_all add: rbind_def)

lemma rmap_simps [simp, pysem]:
  "rmap f (Inl e) = Inl e"
  "rmap f (Inr x) = Inr (f x)"
  by (simp_all add: rmap_def)

lemma is_ok_simps [simp, pysem]:
  "is_ok (Inl e) = False"
  "is_ok (Inr x) = True"
  by (simp_all add: is_ok_def)

lemma rbind_assoc: "rbind (rbind m f) g = rbind m (\<lambda>x. rbind (f x) g)"
  by (cases m) simp_all

lemma rbind_Inr_iff: "rbind m f = Inr y \<longleftrightarrow> (\<exists>x. m = Inr x \<and> f x = Inr y)"
  by (cases m) simp_all

lemma rmap_Inr_iff: "rmap f m = Inr y \<longleftrightarrow> (\<exists>x. m = Inr x \<and> y = f x)"
  by (cases m) auto

lemma is_ok_iff: "is_ok m \<longleftrightarrow> (\<exists>x. m = Inr x)"
  by (cases m) simp_all

lemma is_ok_rbind: "is_ok m \<Longrightarrow> (\<And>x. is_ok (f x)) \<Longrightarrow> is_ok (rbind m f)"
  by (cases m) simp_all

section \<open>Code that changes state and may raise\<close>

text \<open>
  A method of a mutable object takes the state to a new one and a result. An exception keeps what was
  changed before it, as in Python.
\<close>

type_synonym ('s, 'a) act = "'s \<Rightarrow> 's \<times> 'a res"

definition act_return :: "'a \<Rightarrow> ('s, 'a) act" where
  "act_return x s = (s, Inr x)"

definition act_lift :: "'a res \<Rightarrow> ('s, 'a) act" where
  "act_lift r s = (s, r)"

definition act_get :: "('s \<Rightarrow> 'a) \<Rightarrow> ('s, 'a) act" where
  "act_get f s = (s, Inr (f s))"

definition act_modify :: "('s \<Rightarrow> 's) \<Rightarrow> ('s, unit) act" where
  "act_modify f s = (f s, Inr ())"

definition act_bind :: "('s, 'a) act \<Rightarrow> ('a \<Rightarrow> ('s, 'b) act) \<Rightarrow> ('s, 'b) act" where
  "act_bind m f s = (let (s', r) = m s in case r of Inl e \<Rightarrow> (s', Inl e) | Inr x \<Rightarrow> f x s')"

definition act_seq :: "('s, 'a) act \<Rightarrow> ('s, 'b) act \<Rightarrow> ('s, 'b) act" where
  "act_seq m k = act_bind m (\<lambda>_. k)"

definition act_when :: "bool \<Rightarrow> ('s, unit) act \<Rightarrow> ('s, unit) act" where
  "act_when b m = (if b then m else act_return ())"

text \<open>\<open>try: m except <classes>: h\<close>, the classes given by a test.\<close>

definition act_catch :: "(pyexc \<Rightarrow> bool) \<Rightarrow> ('s, 'a) act \<Rightarrow> ('s, 'a) act \<Rightarrow> ('s, 'a) act" where
  "act_catch p m h s =
     (let (s', r) = m s in case r of Inl e \<Rightarrow> if p e then h s' else (s', Inl e) | Inr x \<Rightarrow> (s', Inr x))"

lemma act_simps [simp, pysem]:
  "act_return x s = (s, Inr x)" "act_lift r s = (s, r)" "act_get g s = (s, Inr (g s))"
  "act_modify h s = (h s, Inr ())"
  by (simp_all add: act_return_def act_lift_def act_get_def act_modify_def)

lemma act_bind_cases:
  "m s = (s', Inl e) \<Longrightarrow> act_bind m f s = (s', Inl e)"
  "m s = (s', Inr x) \<Longrightarrow> act_bind m f s = f x s'"
  by (simp_all add: act_bind_def)

lemma act_bind_simps [simp, pysem]:
  "act_bind (act_return x) f s = f x s" "act_bind (act_get g) f' s = f' (g s) s"
  "act_bind (act_modify h) k s = k () (h s)"
  "act_bind (act_lift (Inl e)) f s = (s, Inl e)" "act_bind (act_lift (Inr x)) f s = f x s"
  by (simp_all add: act_bind_def)

lemma act_seq_simps [simp, pysem]:
  "act_seq (act_return x) k s = k s" "act_seq (act_modify h) k s = k (h s)"
  by (simp_all add: act_seq_def act_bind_def)

lemma act_when_simps [simp, pysem]:
  "act_when True m = m" "act_when False m = act_return ()"
  by (simp_all add: act_when_def)

text \<open>A relation between the states before and after that every part of an action keeps, it keeps.\<close>

definition act_keeps :: "('s \<Rightarrow> 's \<Rightarrow> bool) \<Rightarrow> ('s, 'a) act \<Rightarrow> bool" where
  "act_keeps R m \<longleftrightarrow> (\<forall>s. R s (fst (m s)))"

lemma act_keepsD: "act_keeps R m \<Longrightarrow> R s (fst (m s))"
  by (simp add: act_keeps_def)

lemma act_keeps_weaken: "act_keeps R m \<Longrightarrow> (\<And>a b. R a b \<Longrightarrow> Q a b) \<Longrightarrow> act_keeps Q m"
  by (simp add: act_keeps_def)

lemma act_keeps_modify: "(\<And>s. R s (f s)) \<Longrightarrow> act_keeps R (act_modify f)"
  by (simp add: act_keeps_def)

lemma act_keeps_bind:
  assumes "transp R" and "act_keeps R m" and "\<And>x. act_keeps R (f x)"
  shows "act_keeps R (act_bind m f)"
  unfolding act_keeps_def
proof
  fix s
  obtain s' r where m: "m s = (s', r)" by fastforce
  with assms(2) have "R s s'" unfolding act_keeps_def by (metis fst_conv)
  moreover have "R s' (fst (f x s'))" for x using assms(3) by (simp add: act_keeps_def)
  ultimately show "R s (fst (act_bind m f s))"
    using assms(1) by (cases r) (auto simp: act_bind_def m elim: transpE)
qed

lemma act_keeps_catch:
  assumes "transp R" and "act_keeps R m" and "act_keeps R h"
  shows "act_keeps R (act_catch p m h)"
  unfolding act_keeps_def
proof
  fix s
  obtain s' r where m: "m s = (s', r)" by fastforce
  with assms(2) have "R s s'" unfolding act_keeps_def by (metis fst_conv)
  moreover have "R s' (fst (h s'))" using assms(3) by (simp add: act_keeps_def)
  ultimately show "R s (fst (act_catch p m h s))"
    using assms(1) by (cases r) (auto simp: act_catch_def m elim: transpE)
qed

section \<open>Machines with an invariant\<close>

text \<open>
  Several parts of the daemon are deterministic machines driven by a sequence of calls. The contract
  of such a machine is an invariant that every call keeps; what follows for whole runs is proved
  once here and used through the interpretations in the components' theories.
\<close>

definition run_events :: "('s \<Rightarrow> 'e \<Rightarrow> 's) \<Rightarrow> 's \<Rightarrow> 'e list \<Rightarrow> 's" where
  "run_events step s es = foldl step s es"

lemma run_events_simps [simp]:
  "run_events step s [] = s"
  "run_events step s (e # es) = run_events step (step s e) es"
  by (simp_all add: run_events_def)

lemma run_events_append:
  "run_events step s (es @ fs) = run_events step (run_events step s es) fs"
  by (simp add: run_events_def)

locale invariant_machine =
  fixes step :: "'s \<Rightarrow> 'e \<Rightarrow> 's"
    and inv :: "'s \<Rightarrow> bool"
  assumes inv_step: "inv s \<Longrightarrow> inv (step s e)"
begin

lemma inv_run: "inv s \<Longrightarrow> inv (run_events step s es)"
  by (induction es arbitrary: s) (auto intro: inv_step)

lemma inv_prefix: "inv s \<Longrightarrow> inv (run_events step (run_events step s es) fs)"
  by (intro inv_run)

end

text \<open>A quantity that no call of the machine lowers.\<close>

locale monotone_machine =
  fixes step :: "'s \<Rightarrow> 'e \<Rightarrow> 's"
    and level :: "'s \<Rightarrow> 'n::preorder"
  assumes level_step: "level s \<le> level (step s e)"
begin

lemma level_run: "level s \<le> level (run_events step s es)"
proof (induction es arbitrary: s)
  case Nil
  show ?case by simp
next
  case (Cons e es)
  have "level s \<le> level (step s e)" by (rule level_step)
  also have "\<dots> \<le> level (run_events step (step s e) es)" by (rule Cons.IH)
  finally show ?case by simp
qed

end

section \<open>Relations that actions keep\<close>

text \<open>
  A preorder on states that every part of an action keeps, the action keeps. The components state what
  they may change as such relations and interpret this locale for each of them.
\<close>

locale keeps_order =
  fixes R :: "'s \<Rightarrow> 's \<Rightarrow> bool"
  assumes R_refl [simp, intro]: "R s s"
    and R_trans: "R s t \<Longrightarrow> R t u \<Longrightarrow> R s u"
begin

lemma keeps_bind:
  "act_keeps R m \<Longrightarrow> (\<And>x. act_keeps R (f x)) \<Longrightarrow> act_keeps R (act_bind m f)"
  by (rule act_keeps_bind) (auto intro: transpI R_trans)

lemma keeps_seq: "act_keeps R m \<Longrightarrow> act_keeps R k \<Longrightarrow> act_keeps R (act_seq m k)"
  by (simp add: act_seq_def keeps_bind)

lemma keeps_pure: "act_keeps R (act_return x)" "act_keeps R (act_lift r)" "act_keeps R (act_get g)"
  by (simp_all add: act_keeps_def)

lemma keeps_peek: "act_keeps R (\<lambda>s. (s, f s))"
  by (simp add: act_keeps_def)

lemma keeps_when: "act_keeps R m \<Longrightarrow> act_keeps R (act_when b m)"
  by (cases b) (simp_all add: keeps_pure)

lemma keeps_catch: "act_keeps R m \<Longrightarrow> act_keeps R h \<Longrightarrow> act_keeps R (act_catch p m h)"
  by (rule act_keeps_catch) (auto intro: transpI R_trans)

lemmas rules = keeps_bind keeps_seq keeps_pure keeps_peek keeps_when keeps_catch

lemma keeps_then: "R s t \<Longrightarrow> act_keeps R m \<Longrightarrow> R s (fst (m t))"
  by (rule R_trans) (auto dest: act_keepsD)

lemma keeps_run: "(\<And>e. act_keeps R (f e)) \<Longrightarrow> R s (run_events (\<lambda>s e. fst (f e s)) s es)"
proof (induction es arbitrary: s)
  case Nil
  show ?case by simp
next
  case (Cons e es)
  have "R s (fst (f e s))" using Cons.prems by (rule act_keepsD)
  with Cons.IH [of "fst (f e s)"] Cons.prems show ?case by (auto intro: R_trans)
qed

end

section \<open>Lists and options\<close>

text \<open>Python's \<open>x or y\<close> on an optional value whose falsy values are given by a test.\<close>

definition or_else :: "('a \<Rightarrow> bool) \<Rightarrow> 'a option \<Rightarrow> 'a option \<Rightarrow> 'a option" where
  "or_else truthy x y = (case x of None \<Rightarrow> y | Some v \<Rightarrow> if truthy v then Some v else y)"

lemma or_else_simps [simp]:
  "or_else t None y = y"
  "t v \<Longrightarrow> or_else t (Some v) y = Some v"
  "\<not> t v \<Longrightarrow> or_else t (Some v) y = y"
  by (simp_all add: or_else_def)

end
