(* ===== verification/StateEnums.thy ===== *)
theory StateEnums imports Prelude begin

text \<open>
  The enumerations of \<open>core/state/enums.py\<close> and \<open>fsm/events.py\<close>, each with the text value its members
  carry in Python (they are \<open>str\<close> enums, and the values are what is logged and written to Redis).
  A prefix tells members of different enumerations with one Python name apart.
\<close>

section \<open>The six dimensions of the composite state\<close>

datatype option_position_state = O_NONE | O_LONG_GAMMA | O_SHORT_GAMMA

datatype delta_deviation_state = D_IN_BAND | D_MINOR | D_HEDGE_NEEDED | D_FORCE_HEDGE | D_INVALID

datatype market_regime_state = M_QUIET | M_NORMAL | M_TREND | M_CHOPPY_HIGHVOL | M_GAP | M_STALE

datatype liquidity_state = L_NORMAL | L_WIDE | L_EXTREME_WIDE | L_NO_QUOTE

datatype execution_state = E_IDLE | E_ORDER_WORKING | E_PARTIAL_FILL | E_DISCONNECTED | E_BROKER_ERROR

datatype system_health_state = S_OK | S_GREEKS_BAD | S_DATA_LAG | S_RISK_HALT

fun option_position_value :: "option_position_state \<Rightarrow> string" where
  "option_position_value O_NONE = ''O0''"
| "option_position_value O_LONG_GAMMA = ''O1''"
| "option_position_value O_SHORT_GAMMA = ''O2''"

fun delta_deviation_value :: "delta_deviation_state \<Rightarrow> string" where
  "delta_deviation_value D_IN_BAND = ''D0''"
| "delta_deviation_value D_MINOR = ''D1''"
| "delta_deviation_value D_HEDGE_NEEDED = ''D2''"
| "delta_deviation_value D_FORCE_HEDGE = ''D3''"
| "delta_deviation_value D_INVALID = ''D4''"

fun market_regime_value :: "market_regime_state \<Rightarrow> string" where
  "market_regime_value M_QUIET = ''M0''"
| "market_regime_value M_NORMAL = ''M1''"
| "market_regime_value M_TREND = ''M2''"
| "market_regime_value M_CHOPPY_HIGHVOL = ''M3''"
| "market_regime_value M_GAP = ''M4''"
| "market_regime_value M_STALE = ''M5''"

fun liquidity_value :: "liquidity_state \<Rightarrow> string" where
  "liquidity_value L_NORMAL = ''L0''"
| "liquidity_value L_WIDE = ''L1''"
| "liquidity_value L_EXTREME_WIDE = ''L2''"
| "liquidity_value L_NO_QUOTE = ''L3''"

fun execution_value :: "execution_state \<Rightarrow> string" where
  "execution_value E_IDLE = ''E0''"
| "execution_value E_ORDER_WORKING = ''E1''"
| "execution_value E_PARTIAL_FILL = ''E2''"
| "execution_value E_DISCONNECTED = ''E3''"
| "execution_value E_BROKER_ERROR = ''E4''"

fun system_health_value :: "system_health_state \<Rightarrow> string" where
  "system_health_value S_OK = ''S0''"
| "system_health_value S_GREEKS_BAD = ''S1''"
| "system_health_value S_DATA_LAG = ''S2''"
| "system_health_value S_RISK_HALT = ''S3''"

section \<open>States and events of the three machines\<close>

datatype trading_state =
    T_BOOT | T_SYNC | T_IDLE | T_ARMED | T_MONITOR | T_NO_TRADE
  | T_PAUSE_COST | T_PAUSE_LIQ | T_NEED_HEDGE | T_HEDGING | T_SAFE

datatype hedge_state =
    H_EXEC_IDLE | H_PLAN | H_SEND | H_WAIT_ACK | H_WORKING | H_PARTIAL
  | H_REPRICE | H_CANCEL | H_RECOVER | H_FILLED | H_FAIL

datatype trading_event =
    START | SYNCED | TICK | QUOTE | GREEKS_UPDATE | TARGET_EMITTED | HEDGE_DONE | HEDGE_FAILED
  | DATA_STALE | GREEKS_BAD | BROKER_DOWN | BROKER_UP | MANUAL_RESUME | SHUTDOWN

datatype hedge_event =
    RECV_TARGET | PLAN_SKIP | PLAN_SEND | PLACE_ORDER | ACK_OK | ACK_REJECT | TIMEOUT_ACK
  | PARTIAL_FILL | FULL_FILL | TIMEOUT_WORKING | RISK_TRIP | MANUAL_CANCEL | H_BROKER_DOWN
  | CANCEL_SENT | POSITIONS_RESYNCED | CANNOT_RECOVER | TRY_RESYNC

fun trading_state_value :: "trading_state \<Rightarrow> string" where
  "trading_state_value T_BOOT = ''BOOT''"
| "trading_state_value T_SYNC = ''SYNC''"
| "trading_state_value T_IDLE = ''IDLE''"
| "trading_state_value T_ARMED = ''ARMED''"
| "trading_state_value T_MONITOR = ''MONITOR''"
| "trading_state_value T_NO_TRADE = ''NO_TRADE''"
| "trading_state_value T_PAUSE_COST = ''PAUSE_COST''"
| "trading_state_value T_PAUSE_LIQ = ''PAUSE_LIQ''"
| "trading_state_value T_NEED_HEDGE = ''NEED_HEDGE''"
| "trading_state_value T_HEDGING = ''HEDGING''"
| "trading_state_value T_SAFE = ''SAFE''"

text \<open>Distinct members have distinct values, so a logged or stored value names one member.\<close>

lemma option_position_value_inject [simp]: "option_position_value x = option_position_value y \<longleftrightarrow> x = y"
  by (cases x; cases y) simp_all

lemma delta_deviation_value_inject [simp]: "delta_deviation_value x = delta_deviation_value y \<longleftrightarrow> x = y"
  by (cases x; cases y) simp_all

lemma liquidity_value_inject [simp]: "liquidity_value x = liquidity_value y \<longleftrightarrow> x = y"
  by (cases x; cases y) simp_all

lemma trading_state_value_inject [simp]: "trading_state_value x = trading_state_value y \<longleftrightarrow> x = y"
  by (cases x; cases y) simp_all

section \<open>Machines driven by a transition table\<close>

text \<open>
  The daemon's lifecycle machine and the hedge machine share a contract: a request is looked up in a
  table under the current state; a hit moves the machine there and reports success, a miss leaves the
  whole machine unchanged and reports failure.
\<close>

definition table_edge :: "('s \<Rightarrow> 'e \<Rightarrow> 's option) \<Rightarrow> 's \<Rightarrow> 's \<Rightarrow> bool" where
  "table_edge tab s s' \<longleftrightarrow> (\<exists>e. tab s e = Some s')"

locale table_machine =
  fixes cur :: "'m \<Rightarrow> 's"
    and request :: "'m \<Rightarrow> 'e \<Rightarrow> bool \<times> 'm"
    and tab :: "'s \<Rightarrow> 'e \<Rightarrow> 's option"
  assumes request_hit: "tab (cur m) e = Some s \<Longrightarrow> fst (request m e) \<and> cur (snd (request m e)) = s"
    and request_miss: "tab (cur m) e = None \<Longrightarrow> request m e = (False, m)"
begin

lemma request_ok_iff: "fst (request m e) \<longleftrightarrow> tab (cur m) e \<noteq> None"
  using request_hit [of m e] request_miss [of m e] by (cases "tab (cur m) e") auto

lemma request_edge: "fst (request m e) \<Longrightarrow> table_edge tab (cur m) (cur (snd (request m e)))"
  using request_hit [of m e] request_miss [of m e] by (cases "tab (cur m) e") (auto simp: table_edge_def)

lemma run_reachable:
  "(table_edge tab)\<^sup>*\<^sup>* (cur m) (cur (run_events (\<lambda>m e. snd (request m e)) m es))"
proof (induction es arbitrary: m)
  case Nil
  show ?case by simp
next
  case (Cons e es)
  have "(table_edge tab)\<^sup>*\<^sup>* (cur m) (cur (snd (request m e)))"
    using request_edge [of m e] request_miss [of m e] request_ok_iff [of m e]
    by (cases "fst (request m e)") auto
  then show ?case using Cons.IH [of "snd (request m e)"] by simp
qed

lemma run_closed:
  assumes "\<And>s e s'. P s \<Longrightarrow> tab s e = Some s' \<Longrightarrow> P s'"
  shows "P (cur m) \<Longrightarrow> P (cur (run_events (\<lambda>m e. snd (request m e)) m es))"
proof -
  assume P: "P (cur m)"
  have "P s \<Longrightarrow> P s'" if "(table_edge tab)\<^sup>*\<^sup>* s s'" for s s'
    using that by (induction rule: rtranclp_induct) (auto simp: table_edge_def intro: assms)
  with P run_reachable show ?thesis by blast
qed

end

end
