(* ===== verification/PyFloat.thy ===== *)
theory PyFloat imports Complex_Main Prelude begin

text \<open>
  Python's \<open>float\<close>: IEEE 754 binary64 with round-half-even. A finite value is a rational, an
  operation rounds the exact rational result, and infinities and NaN follow the standard. The sign
  of zero is not kept: in Python it shows only in \<open>copysign\<close>, \<open>atan2\<close> and the text form of a float,
  none of which the modelled code depends on (a division by a zero of either sign raises).
\<close>

section \<open>Rounding to binary64\<close>

datatype fl = Fin rat | PInf | NInf | NaN

function ilog2 :: "int \<Rightarrow> nat" where
  "ilog2 n = (if n < 2 then 0 else Suc (ilog2 (n div 2)))"
  by pat_completeness auto
termination
  by (relation "measure nat") auto

declare ilog2.simps [simp del]

definition expo :: "rat \<Rightarrow> int" where
  "expo x = (let (n, d) = quotient_of x; k = int (ilog2 n) - int (ilog2 d)
             in if 2 powi k \<le> x then k else k - 1)"

definition round_half_even :: "rat \<Rightarrow> int" where
  "round_half_even x =
     (let f = \<lfloor>x\<rfloor>; r = x - of_int f
      in if r < 1 / 2 then f else if 1 / 2 < r then f + 1 else if even f then f else f + 1)"

definition ulp_expo :: "rat \<Rightarrow> int" where
  "ulp_expo x = max (expo x - 52) (- 1074)"

definition rnd_pos :: "rat \<Rightarrow> rat" where
  "rnd_pos x = of_int (round_half_even (x / 2 powi ulp_expo x)) * 2 powi ulp_expo x"

definition rnd :: "rat \<Rightarrow> fl" where
  "rnd x =
     (if x = 0 then Fin 0
      else if 0 < x then (if rnd_pos x < 2 ^ 1024 then Fin (rnd_pos x) else PInf)
      else (if rnd_pos (- x) < 2 ^ 1024 then Fin (- rnd_pos (- x)) else NInf))"

lemma ilog2_bounds: "0 < n \<Longrightarrow> 2 ^ ilog2 n \<le> n \<and> n < 2 ^ Suc (ilog2 n)"
proof (induction n rule: ilog2.induct)
  case (1 n)
  show ?case
  proof (cases "n < 2")
    case True
    with 1 show ?thesis by (simp add: ilog2.simps [of n])
  next
    case False
    with 1 have "2 ^ ilog2 (n div 2) \<le> n div 2 \<and> n div 2 < 2 ^ Suc (ilog2 (n div 2))"
      by simp
    then have "2 ^ Suc (ilog2 (n div 2)) \<le> n \<and> n < 2 ^ Suc (Suc (ilog2 (n div 2)))"
      by (simp only: power_Suc) arith
    with False show ?thesis by (simp add: ilog2.simps [of n])
  qed
qed

lemma two_powi_pos [simp]: "0 < (2::rat) powi e"
  by (simp add: zero_less_power_int)

lemma two_powi_mono: "a \<le> b \<Longrightarrow> (2::rat) powi a \<le> 2 powi b"
  by (rule power_int_increasing) auto

lemma two_powi_less_imp: "(2::rat) powi a < 2 powi b \<Longrightarrow> a < b"
  by (metis linorder_not_le two_powi_mono)

lemma two_powi_add: "(2::rat) powi (a + b) = 2 powi a * 2 powi b"
  by (simp add: power_int_add)

lemma two_powi_diff: "(2::rat) powi (a - b) = 2 powi a / 2 powi b"
  by (simp add: power_int_diff)

lemma two_powi_split: "u \<le> e \<Longrightarrow> (2::rat) powi e = of_int (2 ^ nat (e - u)) * 2 powi u"
proof -
  assume "u \<le> e"
  then have "(2::rat) powi (e - u) = of_int (2 ^ nat (e - u))" by (simp add: power_int_def)
  moreover have "(2::rat) powi e = 2 powi (e - u) * 2 powi u" by (simp flip: two_powi_add)
  ultimately show ?thesis by simp
qed

lemma two_powi_quotient:
  "u \<le> e \<Longrightarrow> (2::rat) powi e / 2 powi u = of_int (2 ^ nat (e - u))"
  using two_powi_split [of u e] two_powi_pos [of u] by (simp add: field_simps)

lemma expo_bounds:
  assumes "0 < x"
  shows "2 powi expo x \<le> x \<and> x < 2 powi (expo x + 1)"
proof -
  obtain n d where nd: "quotient_of x = (n, d)" by fastforce
  have d: "0 < d" using quotient_of_denom_pos [OF nd] .
  have x: "x = of_int n / of_int d" using quotient_of_div [OF nd] .
  have n: "0 < n" using assms x d by (simp add: zero_less_divide_iff)
  define a b where "a = ilog2 n" and "b = ilog2 d"
  have A: "2 ^ a \<le> n" "n < 2 ^ Suc a"
    using ilog2_bounds [OF n] by (simp_all add: a_def)
  have B: "2 ^ b \<le> d" "d < 2 ^ Suc b"
    using ilog2_bounds [OF d] by (simp_all add: b_def)
  have "of_int (2 ^ a) / (of_int (2 ^ Suc b) :: rat) < of_int n / of_int d"
  proof (rule frac_less2)
    show "(of_int (2 ^ a) :: rat) \<le> of_int n" using A(1) by (simp only: of_int_le_iff)
    show "(of_int d :: rat) < of_int (2 ^ Suc b)" using B(2) by (simp only: of_int_less_iff)
  qed (use d n in simp_all)
  then have lo: "2 powi (int a - int b - 1) < x"
    by (simp add: x power_int_diff power_int_add field_simps)
  have "of_int n / of_int d < (of_int (2 ^ Suc a) / of_int (2 ^ b) :: rat)"
  proof (rule frac_less)
    show "(of_int n :: rat) < of_int (2 ^ Suc a)" using A(2) by (simp only: of_int_less_iff)
    show "(of_int (2 ^ b) :: rat) \<le> of_int d" using B(1) by (simp only: of_int_le_iff)
  qed (use d n in simp_all)
  then have hi: "x < 2 powi (int a - int b + 1)"
    by (simp add: x power_int_diff power_int_add field_simps)
  show ?thesis
    using lo hi by (auto simp: expo_def nd Let_def a_def [symmetric] b_def [symmetric])
qed

lemma expo_unique:
  assumes "2 powi e \<le> x" and "x < 2 powi (e + 1)"
  shows "expo x = e"
proof -
  have "0 < x" using assms(1) two_powi_pos [of e] by linarith
  from expo_bounds [OF this] assms have "e < expo x + 1" and "expo x < e + 1"
    by (meson le_less_trans two_powi_less_imp)+
  then show ?thesis by simp
qed

lemma expo_mono: "0 < x \<Longrightarrow> x \<le> y \<Longrightarrow> expo x \<le> expo y"
  using expo_bounds [of x] expo_bounds [of y] two_powi_less_imp [of "expo x" "expo y + 1"]
  by fastforce

lemma expo_less: "0 < x \<Longrightarrow> x < 2 powi e \<Longrightarrow> expo x < e"
  using expo_bounds [of x] two_powi_less_imp [of "expo x" e] by fastforce

subsection \<open>Rounding a quotient to an integer\<close>

lemma round_half_even_of_int [simp]: "round_half_even (of_int i) = i"
  by (simp add: round_half_even_def)

lemma round_half_even_numeral [simp]:
  "round_half_even (numeral n) = numeral n" "round_half_even (- numeral n) = - numeral n"
  "round_half_even 0 = 0" "round_half_even 1 = 1"
  using round_half_even_of_int [of "numeral n"] round_half_even_of_int [of "- numeral n"]
    round_half_even_of_int [of 0] round_half_even_of_int [of 1]
  by simp_all

lemma round_half_even_floor: "\<lfloor>x\<rfloor> \<le> round_half_even x \<and> round_half_even x \<le> \<lfloor>x\<rfloor> + 1"
  by (simp add: round_half_even_def Let_def)

lemma round_half_even_mono: "x \<le> y \<Longrightarrow> round_half_even x \<le> round_half_even y"
proof -
  assume xy: "x \<le> y"
  then have f: "\<lfloor>x\<rfloor> \<le> \<lfloor>y\<rfloor>" by (rule floor_mono)
  show ?thesis
  proof (cases "\<lfloor>x\<rfloor> = \<lfloor>y\<rfloor>")
    case True
    with xy show ?thesis by (auto simp: round_half_even_def Let_def)
  next
    case False
    with f have "\<lfloor>x\<rfloor> + 1 \<le> \<lfloor>y\<rfloor>" by simp
    then show ?thesis using round_half_even_floor [of x] round_half_even_floor [of y] by linarith
  qed
qed

lemma round_half_even_ge: "of_int i \<le> x \<Longrightarrow> i \<le> round_half_even x"
  using round_half_even_mono [of "of_int i" x] by simp

lemma round_half_even_le: "x \<le> of_int i \<Longrightarrow> round_half_even x \<le> i"
  using round_half_even_mono [of x "of_int i"] by simp

lemma round_half_even_near: "\<bar>of_int (round_half_even x) - x\<bar> \<le> 1 / 2"
  by (auto simp: round_half_even_def Let_def abs_if) linarith+

subsection \<open>Rounding is exact on representable values and monotone\<close>

lemma rnd_pos_multiple:
  assumes "x = of_int k * 2 powi ulp_expo x"
  shows "rnd_pos x = x"
proof -
  have "x / 2 powi ulp_expo x = of_int k"
    by (subst assms) simp
  with assms show ?thesis by (simp add: rnd_pos_def)
qed

lemma rnd_pos_exact_lt:
  assumes x: "x = of_int m * 2 powi e" and m: "0 < m" "m < 2 ^ 53" and e: "- 1074 \<le> e"
  shows "rnd_pos x = x"
proof -
  have pos: "0 < x" using x m by simp
  have "(of_int m :: rat) < of_int (2 ^ 53)" using m(2) by (simp only: of_int_less_iff)
  then have "x < 2 powi (e + 53)" by (simp add: x two_powi_add)
  then have "expo x < e + 53" by (rule expo_less [OF pos])
  with e have le: "ulp_expo x \<le> e" by (simp add: ulp_expo_def)
  have "x = of_int (m * 2 ^ nat (e - ulp_expo x)) * 2 powi ulp_expo x"
    using two_powi_split [OF le] by (subst x) simp
  then show ?thesis by (rule rnd_pos_multiple)
qed

lemma rnd_pos_exact:
  assumes x: "x = of_int m * 2 powi e" and m: "0 < m" "m \<le> 2 ^ 53" and e: "- 1074 \<le> e"
  shows "rnd_pos x = x"
proof (cases "m = 2 ^ 53")
  case True
  have "x = of_int (2 ^ 52) * 2 powi (e + 1)" by (simp add: x True power_int_add)
  then show ?thesis by (rule rnd_pos_exact_lt) (use e in simp_all)
next
  case False
  with m have "m < 2 ^ 53" by simp
  with x m(1) e show ?thesis by (intro rnd_pos_exact_lt)
qed

lemma rnd_pos_form:
  assumes "0 < x"
  shows "\<exists>m. rnd_pos x = of_int m * 2 powi ulp_expo x \<and> 0 \<le> m \<and> m \<le> 2 ^ 53"
proof (intro exI conjI)
  show "rnd_pos x = of_int (round_half_even (x / 2 powi ulp_expo x)) * 2 powi ulp_expo x"
    by (simp add: rnd_pos_def)
  show "0 \<le> round_half_even (x / 2 powi ulp_expo x)"
    using assms by (intro round_half_even_ge) simp
  have "x < 2 powi (expo x + 1)" using expo_bounds [OF assms] by simp
  also have "\<dots> \<le> 2 powi (53 + ulp_expo x)" by (rule two_powi_mono) (simp add: ulp_expo_def)
  finally have "x / 2 powi ulp_expo x \<le> of_int (2 ^ 53)"
    by (simp add: two_powi_add divide_le_eq)
  then show "round_half_even (x / 2 powi ulp_expo x) \<le> 2 ^ 53" by (rule round_half_even_le)
qed

lemma rnd_pos_nonneg: "0 < x \<Longrightarrow> 0 \<le> rnd_pos x"
  using rnd_pos_form [of x] by auto

lemma ulp_expo_ge: "- 1074 \<le> ulp_expo x"
  by (simp add: ulp_expo_def)

lemma rnd_pos_idem:
  assumes "0 < x" and "0 < rnd_pos x"
  shows "rnd_pos (rnd_pos x) = rnd_pos x"
proof -
  obtain m where "rnd_pos x = of_int m * 2 powi ulp_expo x" "0 \<le> m" "m \<le> 2 ^ 53"
    using rnd_pos_form [OF assms(1)] by blast
  moreover from this assms(2) have "0 < m" by (cases "m = 0") simp_all
  ultimately show ?thesis by (intro rnd_pos_exact [of _ m "ulp_expo x"]) (simp_all add: ulp_expo_ge)
qed

lemma rnd_pos_le_powi:
  assumes "0 < x" and "x \<le> 2 powi e" and "ulp_expo x \<le> e"
  shows "rnd_pos x \<le> 2 powi e"
proof -
  have eq: "2 powi e / 2 powi ulp_expo x = (of_int (2 ^ nat (e - ulp_expo x)) :: rat)"
    using assms(3) by (rule two_powi_quotient)
  have "x / 2 powi ulp_expo x \<le> 2 powi e / 2 powi ulp_expo x"
    using assms(2) by (intro divide_right_mono) simp_all
  then have "round_half_even (x / 2 powi ulp_expo x) \<le> 2 ^ nat (e - ulp_expo x)"
    unfolding eq by (rule round_half_even_le)
  then have "rnd_pos x \<le> of_int (2 ^ nat (e - ulp_expo x)) * 2 powi ulp_expo x"
    unfolding rnd_pos_def by (intro mult_right_mono) (simp_all only: of_int_le_iff, simp)
  also have "\<dots> = 2 powi e" by (rule two_powi_split [OF assms(3), symmetric])
  finally show ?thesis .
qed

lemma rnd_pos_ge_powi:
  assumes "0 < x" and "- 1074 \<le> expo x"
  shows "2 powi expo x \<le> rnd_pos x"
proof -
  have le: "ulp_expo x \<le> expo x" using assms(2) by (simp add: ulp_expo_def)
  have eq: "2 powi expo x / 2 powi ulp_expo x = (of_int (2 ^ nat (expo x - ulp_expo x)) :: rat)"
    using le by (rule two_powi_quotient)
  have "2 powi expo x / 2 powi ulp_expo x \<le> x / 2 powi ulp_expo x"
    using expo_bounds [OF assms(1)] by (intro divide_right_mono) simp_all
  then have "2 ^ nat (expo x - ulp_expo x) \<le> round_half_even (x / 2 powi ulp_expo x)"
    unfolding eq by (rule round_half_even_ge)
  then have "of_int (2 ^ nat (expo x - ulp_expo x)) * 2 powi ulp_expo x \<le> rnd_pos x"
    unfolding rnd_pos_def by (intro mult_right_mono) (simp_all only: of_int_le_iff, simp)
  then show ?thesis by (simp only: two_powi_split [OF le, symmetric])
qed

lemma rnd_pos_mono:
  assumes "0 < x" and "x \<le> y"
  shows "rnd_pos x \<le> rnd_pos y"
proof (cases "ulp_expo x = ulp_expo y")
  case True
  have "x / 2 powi ulp_expo y \<le> y / 2 powi ulp_expo y"
    using assms(2) by (intro divide_right_mono) simp_all
  then show ?thesis unfolding rnd_pos_def True
    by (intro mult_right_mono) (simp_all add: round_half_even_mono)
next
  case False
  have "expo x \<le> expo y" using assms by (rule expo_mono)
  with False have less: "expo x < expo y" and uy: "ulp_expo y = expo y - 52"
    by (auto simp: ulp_expo_def)
  have ux: "ulp_expo x < ulp_expo y" using False \<open>expo x \<le> expo y\<close> by (auto simp: ulp_expo_def)
  have "x < 2 powi (expo x + 1)" using expo_bounds [OF assms(1)] by simp
  also have "\<dots> \<le> 2 powi expo y" using less by (intro two_powi_mono) simp
  finally have "rnd_pos x \<le> 2 powi expo y"
    using ux uy by (intro rnd_pos_le_powi assms(1)) simp_all
  also have "\<dots> \<le> rnd_pos y"
    using assms uy ulp_expo_ge [of y] by (intro rnd_pos_ge_powi) simp_all
  finally show ?thesis .
qed

section \<open>Comparisons\<close>

text \<open>
  Python's \<open><\<close> and \<open><=\<close> on floats: false as soon as an operand is NaN. The order classes of HOL are
  not instantiated beyond the syntactic one, because \<open><=\<close> is not reflexive at NaN.
\<close>

instantiation fl :: ord
begin

definition less_fl :: "fl \<Rightarrow> fl \<Rightarrow> bool" where
  "less_fl x y =
     (case x of
        Fin a \<Rightarrow> (case y of Fin b \<Rightarrow> a < b | PInf \<Rightarrow> True | NInf \<Rightarrow> False | NaN \<Rightarrow> False)
      | PInf \<Rightarrow> False
      | NInf \<Rightarrow> (case y of Fin b \<Rightarrow> True | PInf \<Rightarrow> True | NInf \<Rightarrow> False | NaN \<Rightarrow> False)
      | NaN \<Rightarrow> False)"

definition less_eq_fl :: "fl \<Rightarrow> fl \<Rightarrow> bool" where
  "less_eq_fl x y =
     (case x of
        Fin a \<Rightarrow> (case y of Fin b \<Rightarrow> a \<le> b | PInf \<Rightarrow> True | NInf \<Rightarrow> False | NaN \<Rightarrow> False)
      | PInf \<Rightarrow> (case y of Fin b \<Rightarrow> False | PInf \<Rightarrow> True | NInf \<Rightarrow> False | NaN \<Rightarrow> False)
      | NInf \<Rightarrow> (case y of Fin b \<Rightarrow> True | PInf \<Rightarrow> True | NInf \<Rightarrow> True | NaN \<Rightarrow> False)
      | NaN \<Rightarrow> False)"

instance ..

end

definition fl_eq :: "fl \<Rightarrow> fl \<Rightarrow> bool" where
  "fl_eq x y = (x = y \<and> x \<noteq> NaN)"

definition isfinite :: "fl \<Rightarrow> bool" where
  "isfinite x = (case x of Fin _ \<Rightarrow> True | PInf \<Rightarrow> False | NInf \<Rightarrow> False | NaN \<Rightarrow> False)"

lemma fl_less_simps [simp]:
  "Fin a < Fin b \<longleftrightarrow> a < b" "Fin a < PInf" "\<not> Fin a < NInf" "\<not> x < NaN"
  "\<not> PInf < x" "NInf < Fin b" "NInf < PInf" "\<not> x < NInf" "\<not> NaN < x"
  by (simp_all add: less_fl_def split: fl.splits)

lemma fl_le_simps [simp]:
  "Fin a \<le> Fin b \<longleftrightarrow> a \<le> b" "Fin a \<le> PInf" "\<not> Fin a \<le> NInf" "\<not> x \<le> NaN"
  "\<not> PInf \<le> Fin b" "PInf \<le> PInf" "\<not> PInf \<le> NInf"
  "NInf \<le> Fin b" "NInf \<le> PInf" "NInf \<le> NInf" "\<not> NaN \<le> x"
  by (simp_all add: less_eq_fl_def split: fl.splits)

lemma isfinite_simps [simp]:
  "isfinite (Fin a)" "\<not> isfinite PInf" "\<not> isfinite NInf" "\<not> isfinite NaN"
  by (simp_all add: isfinite_def)

lemma isfinite_iff: "isfinite x \<longleftrightarrow> (\<exists>a. x = Fin a)"
  by (cases x) simp_all

lemma fl_le_trans: "(x::fl) \<le> y \<Longrightarrow> y \<le> z \<Longrightarrow> x \<le> z"
  by (cases x; cases y; cases z) simp_all

lemma fl_less_le_trans: "(x::fl) < y \<Longrightarrow> y \<le> z \<Longrightarrow> x < z"
  by (cases x; cases y; cases z) simp_all

lemma fl_le_less_trans: "(x::fl) \<le> y \<Longrightarrow> y < z \<Longrightarrow> x < z"
  by (cases x; cases y; cases z) simp_all

lemma fl_less_imp_le: "(x::fl) < y \<Longrightarrow> x \<le> y"
  by (cases x; cases y) simp_all

lemma fl_not_less: "x \<noteq> NaN \<Longrightarrow> y \<noteq> NaN \<Longrightarrow> \<not> (x::fl) < y \<longleftrightarrow> y \<le> x"
  by (cases x; cases y) auto

lemma fl_not_le: "x \<noteq> NaN \<Longrightarrow> y \<noteq> NaN \<Longrightarrow> \<not> (x::fl) \<le> y \<longleftrightarrow> y < x"
  by (cases x; cases y) auto

lemma fl_less_asym: "(x::fl) < y \<Longrightarrow> \<not> y < x"
  by (cases x; cases y) auto

lemma fl_less_not_le: "(x::fl) < y \<Longrightarrow> \<not> y \<le> x"
  by (cases x; cases y) auto

lemma fl_le_refl: "x \<noteq> NaN \<Longrightarrow> (x::fl) \<le> x"
  by (cases x) simp_all

section \<open>The rounding function on its own\<close>

lemma rnd_mono: "x \<le> y \<Longrightarrow> rnd x \<le> rnd y"
proof -
  assume xy: "x \<le> y"
  consider "0 < x" | "x = 0" | "x < 0" "0 \<le> y" | "y < 0" using xy by linarith
  then show ?thesis
  proof cases
    case 1
    with xy have "rnd_pos x \<le> rnd_pos y" by (intro rnd_pos_mono)
    with 1 xy show ?thesis by (auto simp: rnd_def)
  next
    case 2
    with xy show ?thesis by (auto simp: rnd_def rnd_pos_nonneg)
  next
    case 3
    then have "0 \<le> rnd_pos (- x)" by (intro rnd_pos_nonneg) simp
    moreover have "0 < y \<Longrightarrow> 0 \<le> rnd_pos y" by (rule rnd_pos_nonneg)
    ultimately show ?thesis using 3 by (auto simp: rnd_def intro: order_trans [of _ 0])
  next
    case 4
    with xy have "rnd_pos (- y) \<le> rnd_pos (- x)" by (intro rnd_pos_mono) simp_all
    with 4 xy show ?thesis by (auto simp: rnd_def)
  qed
qed

lemma rnd_not_NaN [simp]: "rnd x \<noteq> NaN"
  by (simp add: rnd_def)

lemma rnd_zero [simp]: "rnd 0 = Fin 0"
  by (simp add: rnd_def)

lemma rnd_exact:
  assumes "x = of_int m * 2 powi e" and "\<bar>m\<bar> \<le> 2 ^ 53" and "- 1074 \<le> e" and "\<bar>x\<bar> < 2 ^ 1024"
  shows "rnd x = Fin x"
proof -
  consider "m = 0" | "0 < m" | "m < 0" by linarith
  then show ?thesis
  proof cases
    case 1
    with assms(1) show ?thesis by simp
  next
    case 2
    then have pos: "0 < x" using assms(1) by simp
    have "rnd_pos x = x" using assms 2 by (intro rnd_pos_exact [of x m e]) simp_all
    with pos assms(4) show ?thesis by (simp add: rnd_def)
  next
    case 3
    then have neg: "x < 0" using assms(1) by (simp add: mult_neg_pos)
    have "rnd_pos (- x) = - x"
      using assms 3 by (intro rnd_pos_exact [of "- x" "- m" e]) simp_all
    with neg assms(4) show ?thesis by (simp add: rnd_def)
  qed
qed

lemma rnd_of_int: "\<bar>i\<bar> \<le> 2 ^ 53 \<Longrightarrow> rnd (of_int i) = Fin (of_int i)"
proof (rule rnd_exact [of _ i 0])
  assume i: "\<bar>i\<bar> \<le> 2 ^ 53"
  then have "of_int \<bar>i\<bar> \<le> (of_int (2 ^ 53) :: rat)" by (simp only: of_int_le_iff)
  then show "\<bar>of_int i :: rat\<bar> < 2 ^ 1024" by simp
qed simp_all

lemma rnd_numeral [simp]:
  "numeral n \<le> (2 ^ 53 :: int) \<Longrightarrow> rnd (numeral n) = Fin (numeral n)"
  "numeral n \<le> (2 ^ 53 :: int) \<Longrightarrow> rnd (- numeral n) = Fin (- numeral n)"
  using rnd_of_int [of "numeral n"] rnd_of_int [of "- numeral n"] by simp_all

lemma rnd_one [simp]: "rnd 1 = Fin 1" "rnd (- 1) = Fin (- 1)"
  using rnd_of_int [of 1] rnd_of_int [of "- 1"] by simp_all

text \<open>The values an operation can return: rounding leaves them alone.\<close>

definition is_double :: "fl \<Rightarrow> bool" where
  "is_double x = (case x of Fin a \<Rightarrow> rnd a = Fin a | PInf \<Rightarrow> True | NInf \<Rightarrow> True | NaN \<Rightarrow> True)"

lemma is_double_rnd [simp]: "is_double (rnd x)"
proof -
  have pos: "rnd (rnd_pos y) = Fin (rnd_pos y) \<and> rnd (- rnd_pos y) = Fin (- rnd_pos y)"
    if y: "0 < y" and lt: "rnd_pos y < 2 ^ 1024" for y
  proof -
    obtain m where m: "rnd_pos y = of_int m * 2 powi ulp_expo y" "0 \<le> m" "m \<le> 2 ^ 53"
      using rnd_pos_form [OF y] by blast
    have abs_m: "\<bar>m\<bar> \<le> 2 ^ 53" "\<bar>- m\<bar> \<le> 2 ^ 53" using m by simp_all
    have abs_y: "\<bar>rnd_pos y\<bar> < 2 ^ 1024" "\<bar>- rnd_pos y\<bar> < 2 ^ 1024"
      using lt rnd_pos_nonneg [OF y] by simp_all
    have "rnd (rnd_pos y) = Fin (rnd_pos y)"
      by (rule rnd_exact [OF m(1) abs_m(1) ulp_expo_ge abs_y(1)])
    moreover have "- rnd_pos y = of_int (- m) * 2 powi ulp_expo y" using m(1) by simp
    then have "rnd (- rnd_pos y) = Fin (- rnd_pos y)"
      by (rule rnd_exact [OF _ abs_m(2) ulp_expo_ge abs_y(2)])
    ultimately show ?thesis by simp
  qed
  show ?thesis using pos [of x] pos [of "- x"] by (auto simp: is_double_def rnd_def)
qed

lemma is_double_FinD: "is_double (Fin a) \<Longrightarrow> rnd a = Fin a"
  by (simp add: is_double_def)

section \<open>Arithmetic\<close>

definition fl_abs :: "fl \<Rightarrow> fl" where
  "fl_abs x = (case x of Fin a \<Rightarrow> Fin \<bar>a\<bar> | PInf \<Rightarrow> PInf | NInf \<Rightarrow> PInf | NaN \<Rightarrow> NaN)"

fun fl_add :: "fl \<Rightarrow> fl \<Rightarrow> fl" where
  "fl_add (Fin a) (Fin b) = rnd (a + b)"
| "fl_add NaN y = NaN"
| "fl_add x NaN = NaN"
| "fl_add PInf NInf = NaN"
| "fl_add NInf PInf = NaN"
| "fl_add PInf y = PInf"
| "fl_add NInf y = NInf"
| "fl_add x PInf = PInf"
| "fl_add x NInf = NInf"

definition inf_signed :: "bool \<Rightarrow> fl" where
  "inf_signed pos = (if pos then PInf else NInf)"

fun fl_sign :: "fl \<Rightarrow> int" where
  "fl_sign (Fin a) = (if 0 < a then 1 else if a < 0 then - 1 else 0)"
| "fl_sign PInf = 1"
| "fl_sign NInf = - 1"
| "fl_sign NaN = 0"

fun fl_mul :: "fl \<Rightarrow> fl \<Rightarrow> fl" where
  "fl_mul (Fin a) (Fin b) = rnd (a * b)"
| "fl_mul x y =
     (if fl_sign x * fl_sign y = 0 then NaN else inf_signed (0 < fl_sign x * fl_sign y))"

instantiation fl :: "{plus, minus, uminus, times, zero}"
begin

definition uminus_fl :: "fl \<Rightarrow> fl" where
  "uminus_fl x = (case x of Fin a \<Rightarrow> Fin (- a) | PInf \<Rightarrow> NInf | NInf \<Rightarrow> PInf | NaN \<Rightarrow> NaN)"

definition plus_fl :: "fl \<Rightarrow> fl \<Rightarrow> fl" where
  "plus_fl x y = fl_add x y"

definition minus_fl :: "fl \<Rightarrow> fl \<Rightarrow> fl" where
  "minus_fl x y = fl_add x (- y)"

definition times_fl :: "fl \<Rightarrow> fl \<Rightarrow> fl" where
  "times_fl x y = fl_mul x y"

definition zero_fl :: fl where
  "zero_fl = Fin 0"

instance ..

end

text \<open>Division raises on a zero divisor, whatever the dividend is.\<close>

fun fl_div :: "fl \<Rightarrow> fl \<Rightarrow> fl res" where
  "fl_div x (Fin b) =
     (if b = 0 then Inl ZeroDivisionError
      else case x of
        Fin a \<Rightarrow> Inr (rnd (a / b))
      | PInf \<Rightarrow> Inr (inf_signed (0 < b))
      | NInf \<Rightarrow> Inr (inf_signed (b < 0))
      | NaN \<Rightarrow> Inr NaN)"
| "fl_div x NaN = Inr NaN"
| "fl_div (Fin a) y = Inr (Fin 0)"
| "fl_div x y = Inr NaN"

text \<open>
  Conversions: \<open>float(i)\<close> raises when the integer rounds out of range, \<open>int(round(x))\<close> raises on an
  infinity or NaN and rounds halves to even, \<open>int(x)\<close> truncates.
\<close>

definition fl_of_int :: "int \<Rightarrow> fl res" where
  "fl_of_int i = (if isfinite (rnd (of_int i)) then Inr (rnd (of_int i)) else Inl OverflowError)"

definition int_round :: "fl \<Rightarrow> int res" where
  "int_round x =
     (case x of Fin a \<Rightarrow> Inr (round_half_even a) | PInf \<Rightarrow> Inl OverflowError
      | NInf \<Rightarrow> Inl OverflowError | NaN \<Rightarrow> Inl ValueError)"

definition rat_trunc :: "rat \<Rightarrow> int" where
  "rat_trunc a = (if 0 \<le> a then \<lfloor>a\<rfloor> else \<lceil>a\<rceil>)"

definition int_trunc :: "fl \<Rightarrow> int res" where
  "int_trunc x =
     (case x of Fin a \<Rightarrow> Inr (rat_trunc a) | PInf \<Rightarrow> Inl OverflowError
      | NInf \<Rightarrow> Inl OverflowError | NaN \<Rightarrow> Inl ValueError)"

text \<open>Python's two-argument \<open>max\<close> and \<open>min\<close> keep the first operand unless the second beats it.\<close>

definition py_max :: "fl \<Rightarrow> fl \<Rightarrow> fl" where
  "py_max x y = (if x < y then y else x)"

definition py_min :: "fl \<Rightarrow> fl \<Rightarrow> fl" where
  "py_min x y = (if y < x then y else x)"

definition fl_truthy :: "fl \<Rightarrow> bool" where
  "fl_truthy x = (x \<noteq> Fin 0)"

lemma fl_abs_simps [simp]:
  "fl_abs (Fin a) = Fin \<bar>a\<bar>" "fl_abs PInf = PInf" "fl_abs NInf = PInf" "fl_abs NaN = NaN"
  by (simp_all add: fl_abs_def)

lemma fl_uminus_simps [simp]:
  "- Fin a = Fin (- a)" "- PInf = NInf" "- NInf = PInf" "- NaN = NaN"
  by (simp_all add: uminus_fl_def)

lemma fl_arith_Fin [simp]:
  "Fin a + Fin b = rnd (a + b)" "Fin a - Fin b = rnd (a - b)" "Fin a * Fin b = rnd (a * b)"
  by (simp_all add: plus_fl_def minus_fl_def times_fl_def)

lemma fl_NaN_absorbs [simp]:
  "NaN + x = NaN" "x + NaN = NaN" "NaN - x = NaN" "x - NaN = NaN" "NaN * x = NaN" "x * NaN = NaN"
  by (cases x; simp add: plus_fl_def minus_fl_def times_fl_def)+

lemma fl_conv_simps [simp]:
  "int_round (Fin a) = Inr (round_half_even a)" "int_round PInf = Inl OverflowError"
  "int_round NInf = Inl OverflowError" "int_round NaN = Inl ValueError"
  "int_trunc (Fin a) = Inr (rat_trunc a)" "int_trunc PInf = Inl OverflowError"
  "int_trunc NInf = Inl OverflowError" "int_trunc NaN = Inl ValueError"
  by (simp_all add: int_round_def int_trunc_def)

lemma fl_of_int_small: "\<bar>i\<bar> \<le> 2 ^ 53 \<Longrightarrow> fl_of_int i = Inr (Fin (of_int i))"
  by (simp add: fl_of_int_def rnd_of_int)

section \<open>Order facts about rounded differences\<close>

lemma rnd_extremes [simp]: "NInf \<le> rnd x" "rnd x \<le> PInf"
  by (auto simp: rnd_def)

lemma fl_inf_arith [simp]:
  "PInf + Fin a = PInf" "NInf + Fin a = NInf" "Fin a + PInf = PInf" "Fin a + NInf = NInf"
  "PInf - Fin a = PInf" "NInf - Fin a = NInf" "Fin a - PInf = NInf" "Fin a - NInf = PInf"
  by (simp_all add: plus_fl_def minus_fl_def)

lemma fl_diff_mono: "(x::fl) \<le> y \<Longrightarrow> isfinite z \<Longrightarrow> x - z \<le> y - z"
  by (cases x; cases y; cases z) (simp_all add: rnd_mono)

lemma fl_diff_antimono: "(x::fl) \<le> y \<Longrightarrow> isfinite z \<Longrightarrow> z - y \<le> z - x"
  by (cases x; cases y; cases z) (simp_all add: rnd_mono)

text \<open>
  A rounded difference above a representable bound is above it exactly: the comparisons of ages with
  limits in the daemon are not upset by rounding.
\<close>

lemma rnd_gt_imp: "is_double (Fin t) \<Longrightarrow> Fin t < rnd x \<Longrightarrow> t < x"
proof (rule ccontr)
  assume t: "is_double (Fin t)" and lt: "Fin t < rnd x" and "\<not> t < x"
  then have "rnd x \<le> rnd t" by (intro rnd_mono) simp
  with is_double_FinD [OF t] lt show False using fl_less_not_le by fastforce
qed

lemma rnd_lt_imp: "is_double (Fin t) \<Longrightarrow> rnd x < Fin t \<Longrightarrow> x < t"
proof (rule ccontr)
  assume t: "is_double (Fin t)" and lt: "rnd x < Fin t" and "\<not> x < t"
  then have "rnd t \<le> rnd x" by (intro rnd_mono) simp
  with is_double_FinD [OF t] lt show False using fl_less_not_le by fastforce
qed

lemma rnd_ge: "is_double (Fin t) \<Longrightarrow> t \<le> x \<Longrightarrow> Fin t \<le> rnd x"
  using rnd_mono [of t x] by (simp add: is_double_FinD)

lemma rnd_le: "is_double (Fin t) \<Longrightarrow> x \<le> t \<Longrightarrow> rnd x \<le> Fin t"
  using rnd_mono [of x t] by (simp add: is_double_FinD)

lemma is_double_of_int: "\<bar>i\<bar> \<le> 2 ^ 53 \<Longrightarrow> is_double (Fin (of_int i))"
  by (simp add: is_double_def rnd_of_int)

lemma is_double_zero [simp]: "is_double (Fin 0)"
  using is_double_of_int [of 0] by simp

lemma is_double_numeral [simp]: "numeral n \<le> (2 ^ 53 :: int) \<Longrightarrow> is_double (Fin (numeral n))"
  using is_double_of_int [of "numeral n"] by simp

lemma rnd_nonneg: "0 \<le> x \<Longrightarrow> Fin 0 \<le> rnd x"
  by (rule rnd_ge) simp_all

lemma is_double_powi: "- 1074 \<le> e \<Longrightarrow> e \<le> 1023 \<Longrightarrow> is_double (Fin (2 powi e))"
proof -
  assume e: "- 1074 \<le> e" "e \<le> 1023"
  have "(2::rat) powi e < 2 powi 1024" using e(2) by (intro power_int_strict_increasing) auto
  also have "\<dots> = 2 ^ 1024" by (simp only: power_int_numeral)
  finally have "rnd (2 powi e) = Fin (2 powi e)"
    using e(1) by (intro rnd_exact [of _ 1 e]) (simp_all add: zero_less_power_int less_imp_le)
  then show ?thesis by (simp add: is_double_def)
qed

lemma is_double_power: "n \<le> 1023 \<Longrightarrow> is_double (Fin (2 ^ n))"
  using is_double_powi [of "int n"] by simp

lemma rnd_between:
  assumes "is_double (Fin l)" "is_double (Fin u)" "l \<le> x" "x \<le> u"
  shows "\<exists>y. rnd x = Fin y \<and> l \<le> y \<and> y \<le> u"
  using rnd_ge [OF assms(1,3)] rnd_le [OF assms(2,4)] by (cases "rnd x") simp_all

end
