(* ===== verification/PyValue.thy ===== *)
theory PyValue imports PyFloat "HOL-Library.AList" begin

text \<open>
  Python objects of no fixed type: what a YAML configuration, a JSON snapshot or a database row
  holds. A dictionary is an association list in insertion order; integers are unbounded and compare
  exactly with floats.
\<close>

section \<open>Values\<close>

datatype pyval =
    VNone
  | VBool bool
  | VInt int
  | VFloat fl
  | VStr string
  | VList "pyval list"
  | VDict "(string \<times> pyval) list"

type_synonym pydict = "(string \<times> pyval) list"

fun truthy :: "pyval \<Rightarrow> bool" where
  "truthy VNone = False"
| "truthy (VBool b) = b"
| "truthy (VInt i) = (i \<noteq> 0)"
| "truthy (VFloat x) = fl_truthy x"
| "truthy (VStr s) = (s \<noteq> [])"
| "truthy (VList xs) = (xs \<noteq> [])"
| "truthy (VDict d) = (d \<noteq> [])"

definition py_or :: "pyval \<Rightarrow> pyval \<Rightarrow> pyval" where
  "py_or a b = (if truthy a then a else b)"

definition is_dict :: "pyval \<Rightarrow> bool" where
  "is_dict v = (case v of VDict _ \<Rightarrow> True | _ \<Rightarrow> False)"

text \<open>\<open>d.get(k, default)\<close> on a dictionary, and on an object that may not be one.\<close>

definition dget :: "pydict \<Rightarrow> string \<Rightarrow> pyval \<Rightarrow> pyval" where
  "dget d k dflt = (case map_of d k of None \<Rightarrow> dflt | Some v \<Rightarrow> v)"

definition vget :: "pyval \<Rightarrow> string \<Rightarrow> pyval \<Rightarrow> pyval res" where
  "vget v k dflt = (case v of VDict d \<Rightarrow> Inr (dget d k dflt) | _ \<Rightarrow> Inl AttributeError)"

text \<open>\<open>{**d, k: v}\<close>.\<close>

definition dput :: "pydict \<Rightarrow> string \<Rightarrow> pyval \<Rightarrow> pydict" where
  "dput d k v = AList.update k v d"

section \<open>Numbers\<close>

text \<open>The exact value of a number, for comparisons; \<open>True\<close> and \<open>False\<close> are 1 and 0.\<close>

definition num_of :: "pyval \<Rightarrow> fl option" where
  "num_of v =
     (case v of
        VBool b \<Rightarrow> Some (Fin (if b then 1 else 0))
      | VInt i \<Rightarrow> Some (Fin (of_int i))
      | VFloat x \<Rightarrow> Some x
      | _ \<Rightarrow> None)"

text \<open>Ordering a number against a value: \<open>TypeError\<close> unless the value is a number too.\<close>

definition num_cmp :: "(fl \<Rightarrow> fl \<Rightarrow> bool) \<Rightarrow> fl \<Rightarrow> pyval \<Rightarrow> bool res" where
  "num_cmp R x v = (case num_of v of None \<Rightarrow> Inl TypeError | Some y \<Rightarrow> Inr (R x y))"

definition num_lt :: "fl \<Rightarrow> pyval \<Rightarrow> bool res" where "num_lt = num_cmp (<)"
definition num_le :: "fl \<Rightarrow> pyval \<Rightarrow> bool res" where "num_le = num_cmp (\<le>)"
definition num_gt :: "fl \<Rightarrow> pyval \<Rightarrow> bool res" where "num_gt = num_cmp (\<lambda>x y. y < x)"
definition num_ge :: "fl \<Rightarrow> pyval \<Rightarrow> bool res" where "num_ge = num_cmp (\<lambda>x y. y \<le> x)"

lemmas num_cmp_defs = num_lt_def num_le_def num_gt_def num_ge_def num_cmp_def

lemma num_cmp_Some:
  assumes "num_of v = Some y"
  shows "num_lt x v = Inr (x < y)" "num_le x v = Inr (x \<le> y)" "num_gt x v = Inr (y < x)"
    "num_ge x v = Inr (y \<le> x)"
  using assms by (simp_all add: num_cmp_defs)

lemma num_of_simps [simp]:
  "num_of (VInt i) = Some (Fin (of_int i))" "num_of (VFloat x) = Some x"
  "num_of (VBool b) = Some (Fin (if b then 1 else 0))" "num_of VNone = None"
  "num_of (VStr s) = None" "num_of (VList xs) = None" "num_of (VDict d) = None"
  by (simp_all add: num_of_def)

lemma dget_simps [simp]:
  "dget [] k dflt = dflt"
  "dget ((k', v) # d) k dflt = (if k = k' then v else dget d k dflt)"
  by (simp_all add: dget_def)

lemma dget_dput [simp]: "dget (dput d k v) k' dflt = (if k' = k then v else dget d k' dflt)"
  by (simp add: dget_def dput_def update_conv')

lemma vget_simps [simp]:
  "vget (VDict d) k dflt = Inr (dget d k dflt)" "vget VNone k dflt = Inl AttributeError"
  "vget (VBool b) k dflt = Inl AttributeError" "vget (VInt i) k dflt = Inl AttributeError"
  "vget (VFloat x) k dflt = Inl AttributeError" "vget (VStr s) k dflt = Inl AttributeError"
  "vget (VList xs) k dflt = Inl AttributeError"
  by (simp_all add: vget_def)

lemma is_dict_simps [simp]:
  "is_dict (VDict d)" "\<not> is_dict VNone" "\<not> is_dict (VBool b)" "\<not> is_dict (VInt i)"
  "\<not> is_dict (VFloat x)" "\<not> is_dict (VStr s)" "\<not> is_dict (VList xs)"
  by (simp_all add: is_dict_def)

lemma vget_ok_iff: "is_ok (vget v k dflt) \<longleftrightarrow> is_dict v"
  by (cases v) simp_all

section \<open>Text\<close>

text \<open>Strings are ASCII; \<open>strip\<close> and \<open>lower\<close> are Python's methods on such strings.\<close>

definition is_space :: "char \<Rightarrow> bool" where
  "is_space c = (let n = (of_char c :: nat) in n = 32 \<or> (9 \<le> n \<and> n \<le> 13) \<or> (28 \<le> n \<and> n \<le> 31))"

definition strip :: "string \<Rightarrow> string" where
  "strip s = rev (dropWhile is_space (rev (dropWhile is_space s)))"

definition lower_char :: "char \<Rightarrow> char" where
  "lower_char c =
     (let n = (of_char c :: nat) in if 65 \<le> n \<and> n \<le> 90 then char_of (n + 32) else c)"

definition lower :: "string \<Rightarrow> string" where
  "lower s = map lower_char s"

definition upper_char :: "char \<Rightarrow> char" where
  "upper_char c =
     (let n = (of_char c :: nat) in if 97 \<le> n \<and> n \<le> 122 then char_of (n - 32) else c)"

definition upper :: "string \<Rightarrow> string" where
  "upper s = map upper_char s"

subsection \<open>Number literals\<close>

definition digit_of :: "char \<Rightarrow> nat option" where
  "digit_of c = (let n = (of_char c :: nat) in if 48 \<le> n \<and> n \<le> 57 then Some (n - 48) else None)"

text \<open>Digits with single underscores between them; the flag says that a digit came just before.\<close>

fun digit_run :: "bool \<Rightarrow> string \<Rightarrow> nat list option" where
  "digit_run prev [] = (if prev then Some [] else None)"
| "digit_run prev (c # cs) =
     (case digit_of c of
        Some d \<Rightarrow> map_option (Cons d) (digit_run True cs)
      | None \<Rightarrow> if c = CHR ''_'' \<and> prev then digit_run False cs else None)"

definition digits_value :: "nat list \<Rightarrow> int" where
  "digits_value ds = foldl (\<lambda>n d. 10 * n + int d) 0 ds"

definition signed_part :: "string \<Rightarrow> int \<times> string" where
  "signed_part s =
     (case s of
        [] \<Rightarrow> (1, [])
      | c # cs \<Rightarrow> if c = CHR ''-'' then (- 1, cs) else if c = CHR ''+'' then (1, cs) else (1, s))"

definition parse_int :: "string \<Rightarrow> int option" where
  "parse_int s =
     (let (sgn, body) = signed_part (strip s)
      in map_option (\<lambda>ds. sgn * digits_value ds) (digit_run False body))"

definition split_at :: "(char \<Rightarrow> bool) \<Rightarrow> string \<Rightarrow> string \<times> string option" where
  "split_at p s =
     (let a = takeWhile (\<lambda>c. \<not> p c) s; b = dropWhile (\<lambda>c. \<not> p c) s
      in (a, case b of [] \<Rightarrow> None | _ # r \<Rightarrow> Some r))"

definition opt_digits :: "string \<Rightarrow> nat list option" where
  "opt_digits s = (if s = [] then Some [] else digit_run False s)"

definition parse_decimal :: "string \<Rightarrow> rat option" where
  "parse_decimal s =
     (let (mant, ex) = split_at (\<lambda>c. c = CHR ''e'' \<or> c = CHR ''E'') s;
          (ip, fp) = split_at (\<lambda>c. c = CHR ''.'') mant;
          frac = (case fp of None \<Rightarrow> [] | Some f \<Rightarrow> f)
      in if ip = [] \<and> frac = [] then None
         else case (opt_digits ip, opt_digits frac,
                    case ex of None \<Rightarrow> Some 0
                    | Some e \<Rightarrow> (let (sg, eb) = signed_part e
                                in map_option (\<lambda>ds. sg * digits_value ds) (digit_run False eb))) of
           (Some a, Some b, Some n) \<Rightarrow>
             Some (of_int (digits_value (a @ b)) * 10 powi (n - int (length b)))
         | _ \<Rightarrow> None)"

definition parse_float :: "string \<Rightarrow> fl option" where
  "parse_float s =
     (let (sgn, body) = signed_part (strip s); low = lower body
      in if low = ''inf'' \<or> low = ''infinity'' then Some (inf_signed (0 < sgn))
         else if low = ''nan'' then Some NaN
         else map_option (\<lambda>q. rnd (of_int sgn * q)) (parse_decimal body))"

subsection \<open>Conversions\<close>

text \<open>\<open>float(v)\<close>, \<open>int(v)\<close> and \<open>bool(v)\<close>.\<close>

fun py_float :: "pyval \<Rightarrow> fl res" where
  "py_float (VBool b) = Inr (Fin (if b then 1 else 0))"
| "py_float (VInt i) = fl_of_int i"
| "py_float (VFloat x) = Inr x"
| "py_float (VStr s) = (case parse_float s of None \<Rightarrow> Inl ValueError | Some x \<Rightarrow> Inr x)"
| "py_float _ = Inl TypeError"

fun py_int :: "pyval \<Rightarrow> int res" where
  "py_int (VBool b) = Inr (if b then 1 else 0)"
| "py_int (VInt i) = Inr i"
| "py_int (VFloat x) = int_trunc x"
| "py_int (VStr s) = (case parse_int s of None \<Rightarrow> Inl ValueError | Some i \<Rightarrow> Inr i)"
| "py_int _ = Inl TypeError"

text \<open>
  \<open>str(v)\<close>. The text of a float, list or dictionary is Python's \<open>repr\<close>, which the model takes as a
  parameter: nothing the daemon decides depends on its shape beyond being non-empty.
\<close>

definition digit_char :: "nat \<Rightarrow> char" where
  "digit_char d = char_of (48 + d)"

fun show_nat :: "nat \<Rightarrow> string" where
  "show_nat n = (if n < 10 then [digit_char n] else show_nat (n div 10) @ [digit_char (n mod 10)])"

declare show_nat.simps [simp del]

definition show_int :: "int \<Rightarrow> string" where
  "show_int i = (if i < 0 then CHR ''-'' # show_nat (nat (- i)) else show_nat (nat i))"

fun py_str :: "(pyval \<Rightarrow> string) \<Rightarrow> pyval \<Rightarrow> string" where
  "py_str rep (VStr s) = s"
| "py_str rep VNone = ''None''"
| "py_str rep (VBool b) = (if b then ''True'' else ''False'')"
| "py_str rep (VInt i) = show_int i"
| "py_str rep v = rep v"

lemma show_nat_nonempty [simp]: "show_nat n \<noteq> []"
  by (subst show_nat.simps) simp

text \<open>The text of a number names it.\<close>

definition read_nat :: "string \<Rightarrow> nat" where
  "read_nat s = foldl (\<lambda>n c. 10 * n + the (digit_of c)) 0 s"

lemma digit_of_char: "d < 10 \<Longrightarrow> digit_of (digit_char d) = Some d"
  by (simp add: digit_of_def digit_char_def)

lemma read_show_nat: "read_nat (show_nat n) = n"
proof (induction n rule: show_nat.induct)
  case (1 n)
  show ?case
  proof (cases "n < 10")
    case True
    then show ?thesis by (subst show_nat.simps) (simp add: read_nat_def digit_of_char)
  next
    case False
    have "read_nat (show_nat n) = 10 * read_nat (show_nat (n div 10)) + the (digit_of (digit_char (n mod 10)))"
      using False by (subst show_nat.simps) (simp add: read_nat_def)
    then show ?thesis using 1 False by (simp add: digit_of_char)
  qed
qed

lemma show_int_inject:
  assumes "0 \<le> i" and "0 \<le> j"
  shows "show_int i = show_int j \<longleftrightarrow> i = j"
proof
  assume "show_int i = show_int j"
  then have "show_nat (nat i) = show_nat (nat j)" using assms by (simp add: show_int_def)
  then have "read_nat (show_nat (nat i)) = read_nat (show_nat (nat j))" by (rule arg_cong)
  then show "i = j" using assms by (simp add: read_show_nat)
qed simp

end
