(* ===== verification/Composite.thy ===== *)
theory Composite imports StateEnums PyValue begin

text \<open>
  Portfolio Greeks (\<open>pricing/greeks.py\<close>) and the composite state (\<open>core/state/composite.py\<close>): the six
  discrete dimensions with the numbers they came from, and the pure update by an event.
\<close>

section \<open>Greeks\<close>

text \<open>
  The option legs and the portfolio pricing functions belong to the core library: the legs are a type
  parameter, the pricing functions are arguments that may raise; rate and volatility come from the
  configuration and are passed through as they are.
\<close>

record 'leg greeks =
  gk_legs :: "'leg list"
  gk_stock_shares :: int
  gk_spot :: fl
  gk_r :: pyval
  gk_vol :: pyval
  gk_delta :: fl
  gk_gamma :: fl
  gk_valid :: bool

type_synonym 'leg delta_fn = "'leg list \<Rightarrow> int \<Rightarrow> fl \<Rightarrow> pyval \<Rightarrow> pyval \<Rightarrow> fl res"
type_synonym 'leg gamma_fn = "'leg list \<Rightarrow> fl \<Rightarrow> pyval \<Rightarrow> pyval \<Rightarrow> fl res"

definition greeks_recompute :: "'leg delta_fn \<Rightarrow> 'leg gamma_fn \<Rightarrow> 'leg greeks \<Rightarrow> 'leg greeks" where
  "greeks_recompute portfolio_delta portfolio_gamma g =
     (if gk_spot g \<le> Fin 0 then g\<lparr>gk_valid := False, gk_delta := Fin 0, gk_gamma := Fin 0\<rparr>
      else case portfolio_delta (gk_legs g) (gk_stock_shares g) (gk_spot g) (gk_r g) (gk_vol g) of
        Inl _ \<Rightarrow> g\<lparr>gk_valid := False, gk_delta := Fin 0, gk_gamma := Fin 0\<rparr>
      | Inr d \<Rightarrow>
          (case portfolio_gamma (gk_legs g) (gk_spot g) (gk_r g) (gk_vol g) of
             Inl _ \<Rightarrow> g\<lparr>gk_valid := False, gk_delta := Fin 0, gk_gamma := Fin 0\<rparr>
           | Inr gm \<Rightarrow>
               g\<lparr>gk_delta := d, gk_gamma := gm, gk_valid := fl_eq d d \<and> fl_eq gm gm\<rparr>))"

definition mk_greeks ::
  "'leg delta_fn \<Rightarrow> 'leg gamma_fn \<Rightarrow> 'leg list \<Rightarrow> int \<Rightarrow> fl \<Rightarrow> pyval \<Rightarrow> pyval \<Rightarrow> 'leg greeks" where
  "mk_greeks pd pg legs stock spot r vol =
     greeks_recompute pd pg
       \<lparr>gk_legs = legs, gk_stock_shares = stock, gk_spot = spot, gk_r = r, gk_vol = vol,
        gk_delta = Fin 0, gk_gamma = Fin 0, gk_valid = False\<rparr>"

lemma mk_greeks_inputs [simp]:
  "gk_legs (mk_greeks pd pg legs stock spot r vol) = legs"
  "gk_spot (mk_greeks pd pg legs stock spot r vol) = spot"
  "gk_stock_shares (mk_greeks pd pg legs stock spot r vol) = stock"
  by (auto simp: mk_greeks_def greeks_recompute_def split: sum.split)

lemma mk_greeks_valid:
  "gk_valid (mk_greeks pd pg legs stock spot r vol) \<longleftrightarrow>
     \<not> spot \<le> Fin 0 \<and> (\<exists>d gm. pd legs stock spot r vol = Inr d \<and> pg legs spot r vol = Inr gm
       \<and> d \<noteq> NaN \<and> gm \<noteq> NaN)"
  by (auto simp: mk_greeks_def greeks_recompute_def fl_eq_def split: sum.split)

lemma mk_greeks_invalid_values:
  "\<not> gk_valid (mk_greeks pd pg legs stock spot r vol) \<Longrightarrow>
     gk_delta (mk_greeks pd pg legs stock spot r vol) = Fin 0
     \<and> gk_gamma (mk_greeks pd pg legs stock spot r vol) = Fin 0
     \<or> gk_delta (mk_greeks pd pg legs stock spot r vol) = NaN
     \<or> gk_gamma (mk_greeks pd pg legs stock spot r vol) = NaN"
  by (auto simp: mk_greeks_def greeks_recompute_def fl_eq_def split: sum.split)

section \<open>Composite state\<close>

record composite_state =
  cs_O :: option_position_state
  cs_D :: delta_deviation_state
  cs_M :: market_regime_state
  cs_L :: liquidity_state
  cs_E :: execution_state
  cs_S :: system_health_state
  cs_net_delta :: fl
  cs_option_delta :: fl
  cs_stock_pos :: int
  cs_last_hedge_price :: "fl option"
  cs_last_hedge_ts :: "fl option"
  cs_spread :: "fl option"
  cs_data_lag_ms :: "fl option"
  cs_greeks_valid :: bool
  cs_ts :: fl

text \<open>
  An update event is a dictionary of which only these keys are read: a field is \<open>None\<close> when its key is
  absent. Numbers arrive as untyped values and are converted; the other entries are stored as given.
\<close>

record cs_event =
  ce_net_delta :: "pyval option"
  ce_option_delta :: "pyval option"
  ce_stock_pos :: "pyval option"
  ce_last_hedge_price :: "fl option option"
  ce_last_hedge_ts :: "fl option option"
  ce_spread :: "fl option option"
  ce_data_lag_ms :: "fl option option"
  ce_greeks_valid :: "pyval option"
  ce_ts :: "pyval option"
  ce_O :: "option_position_state option"
  ce_D :: "delta_deviation_state option"
  ce_M :: "market_regime_state option"
  ce_L :: "liquidity_state option"
  ce_E :: "execution_state option"
  ce_S :: "system_health_state option"

definition empty_cs_event :: cs_event where
  "empty_cs_event =
     \<lparr>ce_net_delta = None, ce_option_delta = None, ce_stock_pos = None, ce_last_hedge_price = None,
      ce_last_hedge_ts = None, ce_spread = None, ce_data_lag_ms = None, ce_greeks_valid = None,
      ce_ts = None, ce_O = None, ce_D = None, ce_M = None, ce_L = None, ce_E = None, ce_S = None\<rparr>"

definition override_with :: "('v \<Rightarrow> 'a res) \<Rightarrow> 'a \<Rightarrow> 'v option \<Rightarrow> 'a res" where
  "override_with conv old ev = (case ev of None \<Rightarrow> Inr old | Some v \<Rightarrow> conv v)"

definition overriding :: "'a \<Rightarrow> 'a option \<Rightarrow> 'a" where
  "overriding old ev = (case ev of None \<Rightarrow> old | Some v \<Rightarrow> v)"

lemma override_simps [simp]:
  "override_with conv old None = Inr old" "override_with conv old (Some v) = conv v"
  "overriding old None = old" "overriding old (Some x) = x"
  by (simp_all add: override_with_def overriding_def)

definition composite_update :: "composite_state \<Rightarrow> cs_event \<Rightarrow> composite_state res" where
  "composite_update cs ev =
     rbind (override_with py_float (cs_net_delta cs) (ce_net_delta ev)) (\<lambda>net.
     rbind (override_with py_float (cs_option_delta cs) (ce_option_delta ev)) (\<lambda>opt.
     rbind (override_with py_int (cs_stock_pos cs) (ce_stock_pos ev)) (\<lambda>stock.
     rbind (override_with py_float (cs_ts cs) (ce_ts ev)) (\<lambda>ts.
       Inr (cs\<lparr>cs_O := overriding (cs_O cs) (ce_O ev), cs_D := overriding (cs_D cs) (ce_D ev),
              cs_M := overriding (cs_M cs) (ce_M ev), cs_L := overriding (cs_L cs) (ce_L ev),
              cs_E := overriding (cs_E cs) (ce_E ev), cs_S := overriding (cs_S cs) (ce_S ev),
              cs_net_delta := net, cs_option_delta := opt, cs_stock_pos := stock,
              cs_last_hedge_price := overriding (cs_last_hedge_price cs) (ce_last_hedge_price ev),
              cs_last_hedge_ts := overriding (cs_last_hedge_ts cs) (ce_last_hedge_ts ev),
              cs_spread := overriding (cs_spread cs) (ce_spread ev),
              cs_data_lag_ms := overriding (cs_data_lag_ms cs) (ce_data_lag_ms ev),
              cs_greeks_valid := (case ce_greeks_valid ev of None \<Rightarrow> cs_greeks_valid cs
                                  | Some v \<Rightarrow> truthy v),
              cs_ts := ts\<rparr>)))))"

lemma composite_update_empty: "composite_update cs empty_cs_event = Inr cs"
  by (simp add: composite_update_def empty_cs_event_def)

end
