(* ===== verification/Snapshot.thy ===== *)
theory Snapshot imports Composite begin

text \<open>
  The world state the trading machine's guards read, \<open>core/state/snapshot.py\<close>: the Greeks snapshot with
  its finiteness test, \<open>StateSnapshot\<close>, its construction from a composite state, its pure update by an
  event, and the safe default.
\<close>

section \<open>Greeks snapshot\<close>

record greeks_snapshot =
  gs_delta :: fl
  gs_gamma :: fl
  gs_theta :: fl
  gs_vega :: fl
  gs_valid :: bool

definition gs_is_finite :: "greeks_snapshot \<Rightarrow> bool" where
  "gs_is_finite g = (isfinite (gs_delta g) \<and> isfinite (gs_gamma g) \<and> isfinite (gs_theta g)
                     \<and> isfinite (gs_vega g))"

section \<open>State snapshot\<close>

record state_snapshot =
  ss_O :: option_position_state
  ss_D :: delta_deviation_state
  ss_M :: market_regime_state
  ss_L :: liquidity_state
  ss_E :: execution_state
  ss_S :: system_health_state
  ss_net_delta :: fl
  ss_option_delta :: fl
  ss_stock_pos :: int
  ss_spot :: "fl option"
  ss_spread_pct :: "fl option"
  ss_event_lag_ms :: "fl option"
  ss_greeks :: "greeks_snapshot option"
  ss_option_legs_count :: int
  ss_last_hedge_ts :: "fl option"
  ss_last_hedge_price :: "fl option"
  ss_cost_params :: "pydict option"
  ss_risk_limits :: "pydict option"
  ss_ts :: fl

definition ss_spread :: "state_snapshot \<Rightarrow> fl option" where
  "ss_spread s = ss_spread_pct s"

definition ss_data_lag_ms :: "state_snapshot \<Rightarrow> fl option" where
  "ss_data_lag_ms s = ss_event_lag_ms s"

definition ss_greeks_valid :: "state_snapshot \<Rightarrow> bool" where
  "ss_greeks_valid s = (case ss_greeks s of None \<Rightarrow> False | Some g \<Rightarrow> gs_valid g \<and> gs_is_finite g)"

text \<open>
  \<open>spot or getattr(cs, 'spot', None)\<close>: a composite state has no attribute \<open>spot\<close>, so a spot of zero is
  stored as missing.
\<close>

definition from_composite_state ::
  "composite_state \<Rightarrow> fl option \<Rightarrow> greeks_snapshot option \<Rightarrow> pydict option \<Rightarrow> pydict option \<Rightarrow> int
   \<Rightarrow> state_snapshot" where
  "from_composite_state cs spot gs cost_params risk_limits legs_count =
     \<lparr>ss_O = cs_O cs, ss_D = cs_D cs, ss_M = cs_M cs, ss_L = cs_L cs, ss_E = cs_E cs, ss_S = cs_S cs,
      ss_net_delta = cs_net_delta cs, ss_option_delta = cs_option_delta cs,
      ss_stock_pos = cs_stock_pos cs, ss_spot = or_else fl_truthy spot None,
      ss_spread_pct = cs_spread cs, ss_event_lag_ms = cs_data_lag_ms cs, ss_greeks = gs,
      ss_option_legs_count = legs_count, ss_last_hedge_ts = cs_last_hedge_ts cs,
      ss_last_hedge_price = cs_last_hedge_price cs, ss_cost_params = cost_params,
      ss_risk_limits = risk_limits, ss_ts = cs_ts cs\<rparr>"

section \<open>Update by an event\<close>

text \<open>
  An event may carry Greeks as a ready snapshot, as a dictionary of keyword arguments, or as \<open>None\<close>;
  an empty dictionary clears them. A dictionary must name \<open>delta\<close> and \<open>gamma\<close> and may name the optional
  fields; any other key is a \<open>TypeError\<close>. The values are stored as they come: an integer keeps its exact
  value, the flag is only ever tested for truth; a value that is no number at all, which Python stores
  and trips over at the first use, is a \<open>TypeError\<close> of the update here.
\<close>

datatype greeks_update = GreeksObj greeks_snapshot | GreeksNone | GreeksKwargs pydict

definition greeks_keys :: "string list" where
  "greeks_keys = [''delta'', ''gamma'', ''theta'', ''vega'', ''valid'']"

definition float_kwarg :: "pydict \<Rightarrow> string \<Rightarrow> fl option \<Rightarrow> fl res" where
  "float_kwarg d k dflt =
     (case map_of d k of
        Some v \<Rightarrow> (case num_of v of Some x \<Rightarrow> Inr x | None \<Rightarrow> Inl TypeError)
      | None \<Rightarrow> (case dflt of Some x \<Rightarrow> Inr x | None \<Rightarrow> Inl TypeError))"

definition truth_kwarg :: "pydict \<Rightarrow> string \<Rightarrow> bool \<Rightarrow> bool" where
  "truth_kwarg d k dflt = (case map_of d k of Some v \<Rightarrow> truthy v | None \<Rightarrow> dflt)"

definition greeks_of_kwargs :: "pydict \<Rightarrow> greeks_snapshot res" where
  "greeks_of_kwargs d =
     (if \<not> list_all (\<lambda>(k, _). k \<in> set greeks_keys) d then Inl TypeError
      else rbind (float_kwarg d ''delta'' None) (\<lambda>dl.
           rbind (float_kwarg d ''gamma'' None) (\<lambda>gm.
           rbind (float_kwarg d ''theta'' (Some (Fin 0))) (\<lambda>th.
           rbind (float_kwarg d ''vega'' (Some (Fin 0))) (\<lambda>vg.
             Inr \<lparr>gs_delta = dl, gs_gamma = gm, gs_theta = th, gs_vega = vg,
                  gs_valid = truth_kwarg d ''valid'' False\<rparr>)))))"

fun greeks_entry :: "greeks_update \<Rightarrow> greeks_snapshot option res" where
  "greeks_entry (GreeksObj g) = Inr (Some g)"
| "greeks_entry GreeksNone = Inr None"
| "greeks_entry (GreeksKwargs d) = (if d = [] then Inr None else rmap Some (greeks_of_kwargs d))"

definition opt_float :: "pyval \<Rightarrow> fl option res" where
  "opt_float v = (if v = VNone then Inr None else rmap Some (py_float v))"

record ss_event =
  se_net_delta :: "pyval option"
  se_option_delta :: "pyval option"
  se_stock_pos :: "pyval option"
  se_spot :: "pyval option"
  se_spread_pct :: "pyval option"
  se_event_lag_ms :: "pyval option"
  se_greeks :: "greeks_update option"
  se_option_legs_count :: "pyval option"
  se_last_hedge_ts :: "pyval option"
  se_last_hedge_price :: "pyval option"
  se_cost_params :: "pydict option option"
  se_risk_limits :: "pydict option option"
  se_ts :: "pyval option"
  se_O :: "option_position_state option"
  se_D :: "delta_deviation_state option"
  se_M :: "market_regime_state option"
  se_L :: "liquidity_state option"
  se_E :: "execution_state option"
  se_S :: "system_health_state option"

definition empty_ss_event :: ss_event where
  "empty_ss_event =
     \<lparr>se_net_delta = None, se_option_delta = None, se_stock_pos = None, se_spot = None,
      se_spread_pct = None, se_event_lag_ms = None, se_greeks = None, se_option_legs_count = None,
      se_last_hedge_ts = None, se_last_hedge_price = None, se_cost_params = None,
      se_risk_limits = None, se_ts = None, se_O = None, se_D = None, se_M = None, se_L = None,
      se_E = None, se_S = None\<rparr>"

text \<open>
  \<open>net_delta\<close> and \<open>option_delta\<close> are stored as \<open>None\<close> when the event says so; their declared type has no
  \<open>None\<close>, and the model reports \<open>TypeError\<close> there.
\<close>

definition snapshot_update :: "state_snapshot \<Rightarrow> ss_event \<Rightarrow> state_snapshot res" where
  "snapshot_update s ev =
     rbind (override_with py_float (ss_net_delta s) (se_net_delta ev)) (\<lambda>net.
     rbind (override_with py_float (ss_option_delta s) (se_option_delta ev)) (\<lambda>opt.
     rbind (override_with py_int (ss_stock_pos s) (se_stock_pos ev)) (\<lambda>stock.
     rbind (override_with opt_float (ss_spot s) (se_spot ev)) (\<lambda>spot.
     rbind (override_with opt_float (ss_spread_pct s) (se_spread_pct ev)) (\<lambda>spread.
     rbind (override_with opt_float (ss_event_lag_ms s) (se_event_lag_ms ev)) (\<lambda>lag.
     rbind (override_with greeks_entry (ss_greeks s) (se_greeks ev)) (\<lambda>gks.
     rbind (override_with py_int (ss_option_legs_count s) (se_option_legs_count ev)) (\<lambda>legs.
     rbind (override_with opt_float (ss_last_hedge_ts s) (se_last_hedge_ts ev)) (\<lambda>lht.
     rbind (override_with opt_float (ss_last_hedge_price s) (se_last_hedge_price ev)) (\<lambda>lhp.
     rbind (override_with py_float (ss_ts s) (se_ts ev)) (\<lambda>ts.
       Inr (s\<lparr>ss_O := overriding (ss_O s) (se_O ev), ss_D := overriding (ss_D s) (se_D ev),
              ss_M := overriding (ss_M s) (se_M ev), ss_L := overriding (ss_L s) (se_L ev),
              ss_E := overriding (ss_E s) (se_E ev), ss_S := overriding (ss_S s) (se_S ev),
              ss_net_delta := net, ss_option_delta := opt, ss_stock_pos := stock, ss_spot := spot,
              ss_spread_pct := spread, ss_event_lag_ms := lag, ss_greeks := gks,
              ss_option_legs_count := legs, ss_last_hedge_ts := lht, ss_last_hedge_price := lhp,
              ss_cost_params := overriding (ss_cost_params s) (se_cost_params ev),
              ss_risk_limits := overriding (ss_risk_limits s) (se_risk_limits ev),
              ss_ts := ts\<rparr>))))))))))))"

definition default_snapshot :: "fl \<Rightarrow> state_snapshot" where
  "default_snapshot now =
     \<lparr>ss_O = O_NONE, ss_D = D_IN_BAND, ss_M = M_NORMAL, ss_L = L_NO_QUOTE, ss_E = E_IDLE, ss_S = S_OK,
      ss_net_delta = Fin 0, ss_option_delta = Fin 0, ss_stock_pos = 0, ss_spot = None,
      ss_spread_pct = None, ss_event_lag_ms = None, ss_greeks = None, ss_option_legs_count = 0,
      ss_last_hedge_ts = None, ss_last_hedge_price = None, ss_cost_params = None,
      ss_risk_limits = None, ss_ts = now\<rparr>"

lemma snapshot_update_empty: "snapshot_update s empty_ss_event = Inr s"
  by (simp add: snapshot_update_def empty_ss_event_def)

section \<open>Updates and snapshots commute\<close>

text \<open>
  An event of the fields the two states share, seen as an event of the composite state and of the
  snapshot.
\<close>

definition shared_cs_event :: "pyval option \<Rightarrow> pyval option \<Rightarrow> pyval option \<Rightarrow> pyval option
    \<Rightarrow> delta_deviation_state option \<Rightarrow> execution_state option \<Rightarrow> cs_event" where
  "shared_cs_event net opt stock ts d e =
     empty_cs_event\<lparr>ce_net_delta := net, ce_option_delta := opt, ce_stock_pos := stock, ce_ts := ts,
                     ce_D := d, ce_E := e\<rparr>"

definition shared_ss_event :: "pyval option \<Rightarrow> pyval option \<Rightarrow> pyval option \<Rightarrow> pyval option
    \<Rightarrow> delta_deviation_state option \<Rightarrow> execution_state option \<Rightarrow> ss_event" where
  "shared_ss_event net opt stock ts d e =
     empty_ss_event\<lparr>se_net_delta := net, se_option_delta := opt, se_stock_pos := stock, se_ts := ts,
                     se_D := d, se_E := e\<rparr>"


end
