(* ===== verification/ExecGuard.thy ===== *)
theory ExecGuard imports PyValue begin

text \<open>
  The order-send gate, \<open>guards/execution_guard.py\<close>: configuration, the mutable counters, the eight gates
  of \<open>allow_hedge\<close> in their order, and the recording of a sent hedge. A calendar date is its proleptic
  ordinal; the date and the New York wall-clock time are readings passed in.
\<close>

section \<open>Calendar dates\<close>

definition is_leap :: "int \<Rightarrow> bool" where
  "is_leap y = (y mod 4 = 0 \<and> (y mod 100 \<noteq> 0 \<or> y mod 400 = 0))"

definition days_before_year :: "int \<Rightarrow> int" where
  "days_before_year y = (let p = y - 1 in p * 365 + p div 4 - p div 100 + p div 400)"

definition days_in_month :: "int \<Rightarrow> int \<Rightarrow> int" where
  "days_in_month y m =
     (if m = 2 then if is_leap y then 29 else 28 else if m \<in> {4, 6, 9, 11} then 30 else 31)"

fun days_before_month :: "int \<Rightarrow> nat \<Rightarrow> int" where
  "days_before_month y 0 = 0"
| "days_before_month y (Suc 0) = 0"
| "days_before_month y (Suc (Suc m)) = days_before_month y (Suc m) + days_in_month y (int (Suc m))"

definition date_ordinal :: "int \<Rightarrow> int \<Rightarrow> int \<Rightarrow> int option" where
  "date_ordinal y m d =
     (if 1 \<le> y \<and> y \<le> 9999 \<and> 1 \<le> m \<and> m \<le> 12 \<and> 1 \<le> d \<and> d \<le> days_in_month y m
      then Some (days_before_year y + days_before_month y (nat m) + d) else None)"

definition digit2 :: "char \<Rightarrow> char \<Rightarrow> nat option" where
  "digit2 a b = (case (digit_of a, digit_of b) of (Some x, Some y) \<Rightarrow> Some (10 * x + y) | _ \<Rightarrow> None)"

text \<open>\<open>strptime(s, '%Y-%m-%d')\<close>: four digits, then one or two for month and day.\<close>

fun month_field :: "string \<Rightarrow> nat option" where
  "month_field [a] = digit_of a"
| "month_field [a, b] = digit2 a b"
| "month_field _ = None"

fun day_field :: "string \<Rightarrow> nat option" where
  "day_field [a] = digit_of a"
| "day_field [a, b] = (if a = CHR '' '' then digit_of b else digit2 a b)"
| "day_field _ = None"

fun year_field :: "string \<Rightarrow> nat option" where
  "year_field [a, b, c, d] =
     (case (digit2 a b, digit2 c d) of (Some x, Some y) \<Rightarrow> Some (100 * x + y) | _ \<Rightarrow> None)"
| "year_field _ = None"

definition parse_date :: "string \<Rightarrow> int option" where
  "parse_date s =
     (let (y, r) = split_at (\<lambda>c. c = CHR ''-'') s
      in case r of None \<Rightarrow> None
         | Some r' \<Rightarrow>
             (let (m, t) = split_at (\<lambda>c. c = CHR ''-'') r'
              in case (year_field y, month_field m, Option.bind t day_field) of
                   (Some yy, Some mm, Some dd) \<Rightarrow> date_ordinal (int yy) (int mm) (int dd)
                 | _ \<Rightarrow> None))"

text \<open>Adding days to a date raises outside the years 1 to 9999.\<close>

definition date_add :: "int \<Rightarrow> int \<Rightarrow> int res" where
  "date_add d n = (if 1 \<le> d + n \<and> d + n \<le> 3652059 then Inr (d + n) else Inl OverflowError)"

section \<open>The guard\<close>

record exec_guard =
  eg_cooldown_sec :: int
  eg_max_daily_hedge_count :: int
  eg_max_position_shares :: int
  eg_max_daily_loss_usd :: fl
  eg_max_net_delta_shares :: "fl option"
  eg_max_spread_pct :: "fl option"
  eg_min_price_move_pct :: fl
  eg_earnings_dates :: "string list"
  eg_blackout_days_before :: int
  eg_blackout_days_after :: int
  eg_trading_hours_only :: bool
  eg_last_hedge_time :: "fl option"
  eg_daily_hedge_count :: int
  eg_daily_hedge_date :: "int option"
  eg_circuit_breaker :: bool

definition mk_exec_guard ::
  "int \<Rightarrow> int \<Rightarrow> int \<Rightarrow> fl \<Rightarrow> fl option \<Rightarrow> fl option \<Rightarrow> fl \<Rightarrow> string list option \<Rightarrow> int \<Rightarrow> int \<Rightarrow> bool
   \<Rightarrow> exec_guard" where
  "mk_exec_guard cooldown max_daily max_pos max_loss max_net max_spread min_move dates n_before n_after rth =
     \<lparr>eg_cooldown_sec = cooldown, eg_max_daily_hedge_count = max_daily,
      eg_max_position_shares = max_pos, eg_max_daily_loss_usd = max_loss,
      eg_max_net_delta_shares = max_net, eg_max_spread_pct = max_spread,
      eg_min_price_move_pct = min_move,
      eg_earnings_dates = filter (\<lambda>d. d \<noteq> []) (case dates of None \<Rightarrow> [] | Some ds \<Rightarrow> ds),
      eg_blackout_days_before = n_before, eg_blackout_days_after = n_after, eg_trading_hours_only = rth,
      eg_last_hedge_time = None, eg_daily_hedge_count = 0, eg_daily_hedge_date = None,
      eg_circuit_breaker = False\<rparr>"

definition guard_set_last_hedge_time :: "exec_guard \<Rightarrow> fl option \<Rightarrow> exec_guard" where
  "guard_set_last_hedge_time g t = g\<lparr>eg_last_hedge_time := t\<rparr>"

definition guard_set_daily_hedge_count :: "exec_guard \<Rightarrow> int \<Rightarrow> int option \<Rightarrow> int \<Rightarrow> exec_guard" where
  "guard_set_daily_hedge_count g n as_of today =
     g\<lparr>eg_daily_hedge_count := n,
       eg_daily_hedge_date := Some (case as_of of Some d \<Rightarrow> d | None \<Rightarrow> today)\<rparr>"

definition set_circuit_breaker :: "exec_guard \<Rightarrow> bool \<Rightarrow> exec_guard" where
  "set_circuit_breaker g tripped = g\<lparr>eg_circuit_breaker := tripped\<rparr>"

definition guard_set_daily_pnl :: "exec_guard \<Rightarrow> fl \<Rightarrow> exec_guard" where
  "guard_set_daily_pnl g pnl =
     (if pnl \<le> - eg_max_daily_loss_usd g then g\<lparr>eg_circuit_breaker := True\<rparr> else g)"

definition reset_daily_if_new_day :: "int \<Rightarrow> exec_guard \<Rightarrow> exec_guard" where
  "reset_daily_if_new_day today g =
     (case eg_daily_hedge_date g of
        None \<Rightarrow> g
      | Some d \<Rightarrow>
          if d \<noteq> today then g\<lparr>eg_daily_hedge_count := 0, eg_daily_hedge_date := Some today\<rparr> else g)"

fun in_blackout_of :: "int \<Rightarrow> int \<Rightarrow> int \<Rightarrow> string list \<Rightarrow> bool res" where
  "in_blackout_of today n_before n_after [] = Inr False"
| "in_blackout_of today n_before n_after (s # ss) =
     (case parse_date (strip s) of
        None \<Rightarrow> in_blackout_of today n_before n_after ss
      | Some ed \<Rightarrow>
          rbind (date_add ed (- n_before)) (\<lambda>start.
          rbind (date_add ed n_after) (\<lambda>stop.
            if start \<le> today \<and> today \<le> stop then Inr True
            else in_blackout_of today n_before n_after ss)))"

definition in_earnings_blackout :: "int \<Rightarrow> exec_guard \<Rightarrow> bool res" where
  "in_earnings_blackout today g =
     in_blackout_of today (eg_blackout_days_before g) (eg_blackout_days_after g) (eg_earnings_dates g)"

definition is_rth_et :: "int \<times> int \<Rightarrow> bool" where
  "is_rth_et hm =
     (let (h, mi) = hm
      in (9 < h \<or> h = 9 \<and> 30 \<le> mi) \<and> (h < 16 \<or> h = 16 \<and> mi < 0))"

text \<open>The date is read twice by \<open>allow_hedge\<close>: for the daily reset and for the blackout test.\<close>

record wall_clock =
  wc_today :: int
  wc_blackout_today :: int
  wc_et :: "int \<times> int"

record hedge_request =
  rq_now :: fl
  rq_position :: int
  rq_side :: string
  rq_quantity :: int
  rq_spot :: "fl option"
  rq_last_hedge_price :: "fl option"
  rq_spread_pct :: "fl option"
  rq_force :: bool

definition after_position :: "hedge_request \<Rightarrow> int" where
  "after_position rq =
     rq_position rq + (if rq_side rq = ''BUY'' then rq_quantity rq else - rq_quantity rq)"

text \<open>The move since the last hedge in percent; only reached with a positive last price.\<close>

definition move_too_small :: "exec_guard \<Rightarrow> hedge_request \<Rightarrow> bool res" where
  "move_too_small g rq =
     (case (rq_spot rq, rq_last_hedge_price rq) of
        (Some spot, Some lp) \<Rightarrow>
          if Fin 0 < eg_min_price_move_pct g \<and> Fin 0 < lp
          then rmap (\<lambda>pct. pct < eg_min_price_move_pct g) (fl_div (Fin 100 * fl_abs (spot - lp)) lp)
          else Inr False
      | _ \<Rightarrow> Inr False)"

definition spread_too_wide :: "exec_guard \<Rightarrow> hedge_request \<Rightarrow> bool" where
  "spread_too_wide g rq =
     (case (eg_max_spread_pct g, rq_spread_pct rq) of
        (Some mx, Some sp) \<Rightarrow> mx < sp
      | _ \<Rightarrow> False)"

definition in_cooldown :: "exec_guard \<Rightarrow> hedge_request \<Rightarrow> bool" where
  "in_cooldown g rq =
     (\<not> rq_force rq
      \<and> (case eg_last_hedge_time g of None \<Rightarrow> False
         | Some t \<Rightarrow> rq_now rq - t < Fin (of_int (eg_cooldown_sec g))))"

definition allow_hedge ::
  "wall_clock \<Rightarrow> exec_guard \<Rightarrow> hedge_request \<Rightarrow> exec_guard \<times> (bool \<times> string) res" where
  "allow_hedge wc g0 rq =
     (let g = reset_daily_if_new_day (wc_today wc) g0 in
      (g,
       if eg_circuit_breaker g then Inr (False, ''circuit_breaker'')
       else if eg_trading_hours_only g \<and> \<not> is_rth_et (wc_et wc) then Inr (False, ''outside_rth'')
       else rbind (in_earnings_blackout (wc_blackout_today wc) g) (\<lambda>blackout.
         if blackout then Inr (False, ''earnings_blackout'')
         else if in_cooldown g rq then Inr (False, ''cooldown'')
         else if eg_max_daily_hedge_count g \<le> eg_daily_hedge_count g
           then Inr (False, ''max_daily_hedge_count'')
         else if eg_max_position_shares g < \<bar>after_position rq\<bar> then Inr (False, ''max_position'')
         else if spread_too_wide g rq then Inr (False, ''spread_too_wide'')
         else rbind (move_too_small g rq) (\<lambda>small.
           if small then Inr (False, ''min_price_move'') else Inr (True, ''ok'')))))"

definition record_hedge_sent :: "int \<Rightarrow> fl \<Rightarrow> exec_guard \<Rightarrow> exec_guard" where
  "record_hedge_sent today now g0 =
     (let g = reset_daily_if_new_day today g0
      in g\<lparr>eg_daily_hedge_count := eg_daily_hedge_count g + 1, eg_last_hedge_time := Some now\<rparr>)"

record guard_update =
  gu_cooldown_sec :: "int option"
  gu_max_daily_hedge_count :: "int option"
  gu_max_position_shares :: "int option"
  gu_max_daily_loss_usd :: "fl option"
  gu_max_net_delta_shares :: "fl option"
  gu_max_spread_pct :: "fl option"
  gu_min_price_move_pct :: "fl option"
  gu_earnings_dates :: "string list option"
  gu_blackout_days_before :: "int option"
  gu_blackout_days_after :: "int option"
  gu_trading_hours_only :: "bool option"

definition keep :: "'a \<Rightarrow> 'a option \<Rightarrow> 'a" where
  "keep old new = (case new of None \<Rightarrow> old | Some x \<Rightarrow> x)"

definition keep_opt :: "'a option \<Rightarrow> 'a option \<Rightarrow> 'a option" where
  "keep_opt old new = (case new of None \<Rightarrow> old | Some x \<Rightarrow> Some x)"

definition update_config :: "exec_guard \<Rightarrow> guard_update \<Rightarrow> exec_guard" where
  "update_config g u =
     g\<lparr>eg_cooldown_sec := keep (eg_cooldown_sec g) (gu_cooldown_sec u),
       eg_max_daily_hedge_count := keep (eg_max_daily_hedge_count g) (gu_max_daily_hedge_count u),
       eg_max_position_shares := keep (eg_max_position_shares g) (gu_max_position_shares u),
       eg_max_daily_loss_usd := keep (eg_max_daily_loss_usd g) (gu_max_daily_loss_usd u),
       eg_max_net_delta_shares := keep_opt (eg_max_net_delta_shares g) (gu_max_net_delta_shares u),
       eg_max_spread_pct := keep_opt (eg_max_spread_pct g) (gu_max_spread_pct u),
       eg_min_price_move_pct := keep (eg_min_price_move_pct g) (gu_min_price_move_pct u),
       eg_earnings_dates := keep (eg_earnings_dates g)
          (map_option (filter (\<lambda>d. d \<noteq> [])) (gu_earnings_dates u)),
       eg_blackout_days_before := keep (eg_blackout_days_before g) (gu_blackout_days_before u),
       eg_blackout_days_after := keep (eg_blackout_days_after g) (gu_blackout_days_after u),
       eg_trading_hours_only := keep (eg_trading_hours_only g) (gu_trading_hours_only u)\<rparr>"

section \<open>The gates, as a condition\<close>

definition gates_open :: "wall_clock \<Rightarrow> exec_guard \<Rightarrow> hedge_request \<Rightarrow> bool" where
  "gates_open wc g rq \<longleftrightarrow>
     \<not> eg_circuit_breaker g
     \<and> (eg_trading_hours_only g \<longrightarrow> is_rth_et (wc_et wc))
     \<and> in_earnings_blackout (wc_blackout_today wc) g = Inr False
     \<and> \<not> in_cooldown g rq
     \<and> eg_daily_hedge_count g < eg_max_daily_hedge_count g
     \<and> \<bar>after_position rq\<bar> \<le> eg_max_position_shares g
     \<and> \<not> spread_too_wide g rq
     \<and> move_too_small g rq = Inr False"

lemma allow_hedge_guard [simp]: "fst (allow_hedge wc g rq) = reset_daily_if_new_day (wc_today wc) g"
  by (simp add: allow_hedge_def Let_def)

lemma allow_hedge_iff:
  "snd (allow_hedge wc g rq) = Inr (True, why) \<longleftrightarrow>
     why = ''ok'' \<and> gates_open wc (reset_daily_if_new_day (wc_today wc) g) rq"
  by (auto simp: allow_hedge_def gates_open_def Let_def rbind_Inr_iff split: if_splits)

lemma reset_daily_frame [simp]:
  "eg_cooldown_sec (reset_daily_if_new_day t g) = eg_cooldown_sec g"
  "eg_max_daily_hedge_count (reset_daily_if_new_day t g) = eg_max_daily_hedge_count g"
  "eg_max_position_shares (reset_daily_if_new_day t g) = eg_max_position_shares g"
  "eg_last_hedge_time (reset_daily_if_new_day t g) = eg_last_hedge_time g"
  "eg_circuit_breaker (reset_daily_if_new_day t g) = eg_circuit_breaker g"
  by (simp_all add: reset_daily_if_new_day_def split: option.split)

lemma record_hedge_sent_frame [simp]:
  "eg_cooldown_sec (record_hedge_sent t now g) = eg_cooldown_sec g"
  "eg_max_daily_hedge_count (record_hedge_sent t now g) = eg_max_daily_hedge_count g"
  "eg_max_position_shares (record_hedge_sent t now g) = eg_max_position_shares g"
  "eg_circuit_breaker (record_hedge_sent t now g) = eg_circuit_breaker g"
  "eg_last_hedge_time (record_hedge_sent t now g) = Some now"
  by (simp_all add: record_hedge_sent_def Let_def)

lemma reset_daily_undated [simp]:
  "eg_daily_hedge_date g = None \<Longrightarrow> reset_daily_if_new_day t g = g"
  by (simp add: reset_daily_if_new_day_def)

lemma reset_daily_dated:
  "eg_daily_hedge_date g \<noteq> None \<Longrightarrow> eg_daily_hedge_date (reset_daily_if_new_day t g) = Some t"
  by (auto simp: reset_daily_if_new_day_def)

section \<open>Trading through a gate\<close>

text \<open>
  The contract the hedging code relies on: a gate that lets a request pass keeps the position after the
  fill within its limit, and neither asking nor recording a sent order changes the limit. A desk asks
  the gate with its current position and, when allowed, sends the order and holds the new position.
\<close>

definition desk_step ::
  "('c \<Rightarrow> 'g \<Rightarrow> hedge_request \<Rightarrow> 'g \<times> (bool \<times> string) res) \<Rightarrow> ('c \<Rightarrow> 'g \<Rightarrow> hedge_request \<Rightarrow> 'g)
   \<Rightarrow> 'g \<times> int \<Rightarrow> 'c \<times> hedge_request \<Rightarrow> 'g \<times> int" where
  "desk_step allow sent s ev =
     (let (g, pos) = s; (c, rq0) = ev; rq = rq0\<lparr>rq_position := pos\<rparr>; (g', r) = allow c g rq
      in case r of
           Inr (True, _) \<Rightarrow> (sent c g' rq, after_position rq)
         | _ \<Rightarrow> (g', pos))"

locale order_gate =
  fixes allow :: "'c \<Rightarrow> 'g \<Rightarrow> hedge_request \<Rightarrow> 'g \<times> (bool \<times> string) res"
    and sent :: "'c \<Rightarrow> 'g \<Rightarrow> hedge_request \<Rightarrow> 'g"
    and limit :: "'g \<Rightarrow> int"
  assumes allow_limit: "snd (allow c g rq) = Inr (True, why) \<Longrightarrow> \<bar>after_position rq\<bar> \<le> limit g"
    and limit_allow: "limit (fst (allow c g rq)) = limit g"
    and limit_sent: "limit (sent c g rq) = limit g"
begin

lemma desk_limit: "limit (fst (desk_step allow sent s ev)) = limit (fst s)"
proof (cases s; cases ev)
  fix g pos c rq0 assume s: "s = (g, pos)" and ev: "ev = (c, rq0)"
  let ?rq = "rq0\<lparr>rq_position := pos\<rparr>"
  obtain g' r where a: "allow c g ?rq = (g', r)" by fastforce
  then have "limit g' = limit g" using limit_allow [of c g ?rq] by simp
  then show ?thesis
    by (auto simp: s ev a desk_step_def Let_def limit_sent split: sum.split bool.split)
qed

lemma desk_position:
  "snd (desk_step allow sent s ev) = snd s \<or> \<bar>snd (desk_step allow sent s ev)\<bar> \<le> limit (fst s)"
proof (cases s; cases ev)
  fix g pos c rq0 assume s: "s = (g, pos)" and ev: "ev = (c, rq0)"
  let ?rq = "rq0\<lparr>rq_position := pos\<rparr>"
  obtain g' r where a: "allow c g ?rq = (g', r)" by fastforce
  show ?thesis
    using a allow_limit [of c g ?rq]
    by (auto simp: s ev desk_step_def Let_def split: sum.split bool.split)
qed

sublocale desk: invariant_machine "desk_step allow sent" "\<lambda>s. \<bar>snd s\<bar> \<le> limit (fst s)"
  by unfold_locales (metis desk_limit desk_position)

lemma desk_run_limit: "limit (fst (run_events (desk_step allow sent) s evs)) = limit (fst s)"
  by (induction evs arbitrary: s) (simp_all add: desk_limit)

end

definition guard_sent :: "wall_clock \<Rightarrow> exec_guard \<Rightarrow> hedge_request \<Rightarrow> exec_guard" where
  "guard_sent wc g rq = record_hedge_sent (wc_today wc) (rq_now rq) g"

interpretation exec_gate: order_gate allow_hedge guard_sent eg_max_position_shares
  by unfold_locales (auto simp: allow_hedge_iff gates_open_def guard_sent_def)

section \<open>Histories of a guard in the daemon\<close>

text \<open>
  What the daemon calls on its guard: \<open>allow_hedge\<close>, \<open>record_hedge_sent\<close> and the hot reload of the
  configuration. Nothing in \<open>src/\<close> calls \<open>set_daily_hedge_count\<close>, \<open>set_daily_pnl\<close> or the other setters.
\<close>

datatype guard_call =
    AskHedge wall_clock hedge_request
  | HedgeSent int fl
  | Reload guard_update

fun guard_step :: "exec_guard \<Rightarrow> guard_call \<Rightarrow> exec_guard" where
  "guard_step g (AskHedge wc rq) = fst (allow_hedge wc g rq)"
| "guard_step g (HedgeSent today now) = record_hedge_sent today now g"
| "guard_step g (Reload u) = update_config g u"

fun is_sent :: "guard_call \<Rightarrow> bool" where
  "is_sent (HedgeSent _ _) = True"
| "is_sent _ = False"

lemma update_config_frame [simp]:
  "eg_daily_hedge_count (update_config g u) = eg_daily_hedge_count g"
  "eg_daily_hedge_date (update_config g u) = eg_daily_hedge_date g"
  "eg_last_hedge_time (update_config g u) = eg_last_hedge_time g"
  "eg_circuit_breaker (update_config g u) = eg_circuit_breaker g"
  by (simp_all add: update_config_def)

lemma record_hedge_sent_undated:
  fixes g :: exec_guard
  shows "eg_daily_hedge_date g = None \<Longrightarrow>
     eg_daily_hedge_date (record_hedge_sent t now g) = None
     \<and> eg_daily_hedge_count (record_hedge_sent t now g) = eg_daily_hedge_count g + 1"
  by (simp add: record_hedge_sent_def)

lemma undated_run:
  fixes g :: exec_guard
  shows "eg_daily_hedge_date g = None \<Longrightarrow>
     eg_daily_hedge_date (run_events guard_step g cs) = None
     \<and> eg_daily_hedge_count (run_events guard_step g cs)
        = eg_daily_hedge_count g + int (length (filter is_sent cs))"
proof (induction cs arbitrary: g)
  case Nil
  then show ?case by simp
next
  case (Cons c cs)
  then show ?case by (cases c) (simp_all add: record_hedge_sent_undated)
qed

text \<open>The breaker, once tripped, stays so through everything the daemon does.\<close>

interpretation breaker: invariant_machine guard_step eg_circuit_breaker
proof unfold_locales
  fix g :: exec_guard and c assume "eg_circuit_breaker g"
  then show "eg_circuit_breaker (guard_step g c)" by (cases c) simp_all
qed

text \<open>A desk never exceeds the daily count of a guard whose limit is not negative.\<close>

interpretation daily: invariant_machine "desk_step allow_hedge guard_sent"
  "\<lambda>s. 0 \<le> eg_max_daily_hedge_count (fst s)
       \<and> eg_daily_hedge_count (fst s) \<le> eg_max_daily_hedge_count (fst s)"
proof unfold_locales
  fix s :: "exec_guard \<times> int" and ev :: "wall_clock \<times> hedge_request"
  assume inv: "0 \<le> eg_max_daily_hedge_count (fst s)
    \<and> eg_daily_hedge_count (fst s) \<le> eg_max_daily_hedge_count (fst s)"
  obtain g pos where s: "s = (g, pos)" by fastforce
  obtain c rq0 where ev: "ev = (c, rq0)" by fastforce
  let ?rq = "rq0\<lparr>rq_position := pos\<rparr>" and ?g = "reset_daily_if_new_day (wc_today c) g"
  have same: "reset_daily_if_new_day (wc_today c) ?g = ?g"
    by (simp add: reset_daily_if_new_day_def split: option.split)
  have g: "eg_daily_hedge_count ?g \<le> eg_max_daily_hedge_count g"
    using inv by (simp add: s reset_daily_if_new_day_def split: option.split)
  show "0 \<le> eg_max_daily_hedge_count (fst (desk_step allow_hedge guard_sent s ev))
    \<and> eg_daily_hedge_count (fst (desk_step allow_hedge guard_sent s ev))
        \<le> eg_max_daily_hedge_count (fst (desk_step allow_hedge guard_sent s ev))"
  proof (cases "\<exists>why. snd (allow_hedge c g ?rq) = Inr (True, why)")
    case True
    then have "eg_daily_hedge_count ?g < eg_max_daily_hedge_count g"
      by (auto simp: allow_hedge_iff gates_open_def)
    moreover have "fst (desk_step allow_hedge guard_sent s ev) = guard_sent c ?g ?rq"
    proof -
      obtain why where "allow_hedge c g ?rq = (?g, Inr (True, why))"
        using True allow_hedge_guard [of c g ?rq] by (metis prod.collapse)
      then show ?thesis by (simp add: s ev desk_step_def Let_def)
    qed
    ultimately show ?thesis using inv
      by (simp add: s guard_sent_def record_hedge_sent_def Let_def same)
  next
    case False
    moreover obtain r where "allow_hedge c g ?rq = (?g, r)"
      using allow_hedge_guard [of c g ?rq] by (metis prod.collapse)
    ultimately have "fst (desk_step allow_hedge guard_sent s ev) = ?g"
      by (auto simp: s ev desk_step_def Let_def split: sum.split bool.split)
    with inv g show ?thesis by (simp add: s)
  qed
qed

lemma unsent_run_time:
  fixes g :: exec_guard
  shows "filter is_sent cs = [] \<Longrightarrow>
    eg_last_hedge_time (run_events guard_step g cs) = eg_last_hedge_time g"
proof (induction cs arbitrary: g)
  case Nil
  then show ?case by simp
next
  case (Cons c cs)
  then show ?case by (cases c) simp_all
qed

section \<open>Properties\<close>

definition sample_guard :: exec_guard where
  "sample_guard = mk_exec_guard 60 2 100 (Fin 5000) None None (Fin 0) (Some [''2024-02-29'']) 3 1 True"

definition sample_clock :: wall_clock where
  "sample_clock = \<lparr>wc_today = 738000, wc_blackout_today = 738000, wc_et = (10, 0)\<rparr>"

definition sample_request :: "int \<Rightarrow> hedge_request" where
  "sample_request t =
     \<lparr>rq_now = Fin (of_int t), rq_position = 0, rq_side = ''SELL'', rq_quantity = 40,
      rq_spot = Some (Fin 100), rq_last_hedge_price = None, rq_spread_pct = None, rq_force = False\<rparr>"

text \<open>
  C4. Position limit over a whole session: a desk that starts within the limit and sends an order only
  when \<open>allow_hedge\<close> lets it pass holds, after any sequence of requests at any clock readings, a position
  within \<open>max_position_shares\<close>.
\<close>

theorem desk_position_within_limit:
  assumes "\<bar>pos\<bar> \<le> eg_max_position_shares g"
  shows "\<bar>snd (run_events (desk_step allow_hedge guard_sent) (g, pos) evs)\<bar>
    \<le> eg_max_position_shares g"
  using exec_gate.desk.inv_run [of "(g, pos)" evs] exec_gate.desk_run_limit [of "(g, pos)" evs] assms
  by simp

text \<open>
  The number of orders counted for a day never exceeds \<open>max_daily_hedge_count\<close>: it holds after any
  sequence of requests to a desk, across changes of day, when it holds at the start.
\<close>

theorem desk_daily_count_within_limit:
  assumes "0 \<le> eg_max_daily_hedge_count g" and "eg_daily_hedge_count g \<le> eg_max_daily_hedge_count g"
    and "g' = fst (run_events (desk_step allow_hedge guard_sent) (g, pos) evs)"
  shows "eg_daily_hedge_count g' \<le> eg_max_daily_hedge_count g'"
  using daily.inv_run [of "(g, pos)" evs] assms by simp

text \<open>
  C35. The daily limit of a guard as the daemon builds and drives it is a limit for the life of the
  process: \<open>_daily_hedge_date\<close> stays \<open>None\<close>, so \<open>_reset_daily_if_new_day\<close> never resets, and once as many
  orders were sent as the limit in force, every later request on every later day is refused.
\<close>

theorem daily_limit_never_resets:
  assumes "eg_max_daily_hedge_count g' \<le> int (length (filter is_sent calls))"
    and "g' = run_events guard_step
      (mk_exec_guard cooldown max_daily max_pos max_loss max_net max_spread min_move dates n_before n_after rth)
      calls"
  shows "snd (allow_hedge wc g' rq) \<noteq> Inr (True, why)"
proof -
  let ?g = "mk_exec_guard cooldown max_daily max_pos max_loss max_net max_spread min_move dates n_before n_after rth"
  have "eg_daily_hedge_date ?g = None" "eg_daily_hedge_count ?g = 0" by (simp_all add: mk_exec_guard_def)
  with undated_run [of ?g calls] assms show ?thesis
    by (simp add: allow_hedge_iff gates_open_def)
qed

text \<open>
  C24. Cooldown: after an order sent at time \<open>t\<close>, whatever requests and reloads follow, an unforced
  request passes only when its time is not less than the configured seconds after \<open>t\<close>.
\<close>

theorem cooldown_separates_orders:
  fixes g :: exec_guard
  assumes "filter is_sent calls = []" and "\<not> rq_force rq"
    and "g' = run_events guard_step (record_hedge_sent today t g) calls"
    and "snd (allow_hedge wc g' rq) = Inr (True, why)"
  shows "\<not> rq_now rq - t < Fin (of_int (eg_cooldown_sec g'))"
  using assms unsent_run_time [of calls "record_hedge_sent today t g"]
  by (simp add: allow_hedge_iff gates_open_def in_cooldown_def)

text \<open>
  \<open>force_hedge\<close> bypasses the cooldown and nothing else: unless the answer without it is a refusal by
  cooldown, the answer with it is the same.
\<close>

theorem force_bypasses_cooldown_only:
  "snd (allow_hedge wc g rq) = Inr (False, ''cooldown'')
   \<or> snd (allow_hedge wc g (rq\<lparr>rq_force := True\<rparr>)) = snd (allow_hedge wc g rq)"
proof -
  have "after_position (rq\<lparr>rq_force := True\<rparr>) = after_position rq"
    "spread_too_wide h (rq\<lparr>rq_force := True\<rparr>) = spread_too_wide h rq"
    "move_too_small h (rq\<lparr>rq_force := True\<rparr>) = move_too_small h rq"
    "\<not> in_cooldown h (rq\<lparr>rq_force := True\<rparr>)" for h
    by (simp_all add: after_position_def spread_too_wide_def move_too_small_def in_cooldown_def)
  then show ?thesis
    by (cases "in_earnings_blackout (wc_blackout_today wc) (reset_daily_if_new_day (wc_today wc) g)")
      (simp_all add: allow_hedge_def Let_def)
qed

text \<open>
  C23. A tripped breaker blocks every later order: a daily loss at or beyond the limit trips it, and after
  any calls of the daemon, reloads included, every request is refused with \<open>circuit_breaker\<close>.
\<close>

theorem breaker_blocks_for_good:
  assumes "pnl \<le> - eg_max_daily_loss_usd g"
  shows "snd (allow_hedge wc (run_events guard_step (guard_set_daily_pnl g pnl) calls) rq)
    = Inr (False, ''circuit_breaker'')"
proof -
  have "eg_circuit_breaker (guard_set_daily_pnl g pnl)" using assms by (simp add: guard_set_daily_pnl_def)
  then have "eg_circuit_breaker (run_events guard_step (guard_set_daily_pnl g pnl) calls)"
    by (rule breaker.inv_run)
  then show ?thesis by (simp add: allow_hedge_def Let_def)
qed

text \<open>
  C39. The earnings blackout is the union of the windows around the configured dates that parse: it never
  raises while every window lies within the calendar, and a malformed entry changes nothing.
\<close>

theorem blackout_is_union_of_windows:
  assumes "\<forall>s\<in>set ds. \<forall>ed. parse_date (strip s) = Some ed \<longrightarrow>
      1 \<le> ed - n_before \<and> ed - n_before \<le> 3652059 \<and> 1 \<le> ed + n_after \<and> ed + n_after \<le> 3652059"
  shows "in_blackout_of today n_before n_after ds =
    Inr (\<exists>s\<in>set ds. \<exists>ed. parse_date (strip s) = Some ed \<and> ed - n_before \<le> today \<and> today \<le> ed + n_after)"
  using assms
proof (induction ds)
  case Nil
  show ?case by simp
next
  case (Cons s ss)
  then show ?case by (cases "parse_date (strip s)") (auto simp: date_add_def)
qed

section \<open>Witnesses\<close>

lemmas sample_defs = sample_guard_def sample_clock_def sample_request_def mk_exec_guard_def

lemma sample_guard_fields [simp]:
  "eg_max_position_shares sample_guard = 100" "eg_max_daily_hedge_count sample_guard = 2"
  "eg_daily_hedge_count sample_guard = 0" "eg_max_daily_loss_usd sample_guard = Fin 5000"
  by (simp_all add: sample_defs)

lemma sample_guard_passes:
  "snd (allow_hedge sample_clock sample_guard (sample_request 5)) = Inr (True, ''ok'')"
  by code_simp

lemma desk_position_within_limit_witness:
  "\<bar>snd (run_events (desk_step allow_hedge guard_sent) (sample_guard, 10)
      [(sample_clock, sample_request 5), (sample_clock, sample_request 500)])\<bar> \<le> 100
   \<and> snd (desk_step allow_hedge guard_sent (sample_guard, 10) (sample_clock, sample_request 5)) = - 30"
  using desk_position_within_limit
    [of 10 sample_guard "[(sample_clock, sample_request 5), (sample_clock, sample_request 500)]"]
  by (simp del: run_events_simps) code_simp

definition sample_session :: "exec_guard \<times> int" where
  "sample_session = run_events (desk_step allow_hedge guard_sent) (sample_guard, 10)
     [(sample_clock, sample_request 5), (sample_clock, sample_request 500),
      (sample_clock, sample_request 5000)]"

lemma desk_daily_count_within_limit_witness:
  "eg_daily_hedge_count (fst sample_session) \<le> eg_max_daily_hedge_count (fst sample_session)"
  unfolding sample_session_def
  by (rule desk_daily_count_within_limit [OF _ _ refl, of sample_guard]) simp_all

lemma daily_limit_never_resets_witness:
  "snd (allow_hedge (sample_clock\<lparr>wc_today := 739000\<rparr>)
      (run_events guard_step sample_guard [HedgeSent 738000 (Fin 5), HedgeSent 738001 (Fin 500)])
      (sample_request 90000000)) \<noteq> Inr (True, ''ok'')"
  using daily_limit_never_resets [OF _ refl, of 60 2 100 "Fin 5000" None None "Fin 0"
      "Some [''2024-02-29'']" 3 1 True "[HedgeSent 738000 (Fin 5), HedgeSent 738001 (Fin 500)]"]
  by (simp add: sample_guard_def record_hedge_sent_undated) (simp add: mk_exec_guard_def)

lemma cooldown_separates_orders_witness:
  "\<not> rq_now (sample_request 600) - Fin 5
     < Fin (of_int (eg_cooldown_sec (record_hedge_sent 738000 (Fin 5) sample_guard)))"
proof (rule cooldown_separates_orders [where calls = "[]" and why = "''ok''" and wc = sample_clock])
  show "\<not> rq_force (sample_request 600)" by (simp add: sample_request_def)
  show "record_hedge_sent 738000 (Fin 5) sample_guard
    = run_events guard_step (record_hedge_sent 738000 (Fin 5) sample_guard) []" by simp
  show "snd (allow_hedge sample_clock (record_hedge_sent 738000 (Fin 5) sample_guard) (sample_request 600))
    = Inr (True, ''ok'')" by code_simp
qed simp

lemma breaker_blocks_for_good_witness:
  "snd (allow_hedge sample_clock (run_events guard_step (guard_set_daily_pnl sample_guard (Fin (- 6000)))
      [HedgeSent 738000 (Fin 5)]) (sample_request 600)) = Inr (False, ''circuit_breaker'')"
  using breaker_blocks_for_good
    [of "Fin (- 6000)" sample_guard sample_clock "[HedgeSent 738000 (Fin 5)]" "sample_request 600"]
  by (simp del: run_events_simps)

lemma sample_dates:
  "parse_date (strip ''2024-02-29'') = Some 738945" "parse_date (strip ''soon'') = None"
  by code_simp+

lemma blackout_is_union_of_windows_witness:
  "in_blackout_of 738946 3 1 [''2024-02-29'', ''soon''] = Inr True"
  using blackout_is_union_of_windows [of "[''2024-02-29'', ''soon'']" 3 1 738946]
    sample_dates by simp

end
