(* ===== verification/TradingGuard.thy ===== *)
theory TradingGuard imports Snapshot ExecGuard begin

text \<open>
  The predicates over a snapshot that steer the trading machine, \<open>guards/trading_guard.py\<close>. The
  configuration is untyped, so a predicate may raise; \<open>get_config_for_guards\<close>, which flattens a
  configuration with a \<open>gates\<close> section, belongs to \<open>bifrost_core\<close> and is the parameter \<open>gcfg\<close>.
\<close>

section \<open>Reading the configuration\<close>

type_synonym gates_config = "pydict \<Rightarrow> pydict res"

definition resolved_cfg :: "gates_config \<Rightarrow> pydict \<Rightarrow> pydict res" where
  "resolved_cfg gcfg cfg = (if truthy (dget cfg ''gates'' VNone) then gcfg cfg else Inr cfg)"

definition guard_get_cfg ::
  "gates_config \<Rightarrow> pydict \<Rightarrow> string \<Rightarrow> string \<Rightarrow> pyval \<Rightarrow> pyval res" where
  "guard_get_cfg gcfg cfg section key dflt =
     rbind (resolved_cfg gcfg cfg) (\<lambda>resolved.
       let sec = py_or (dget resolved section VNone) (VDict [])
       in if is_dict sec then vget sec key dflt else Inr dflt)"

section \<open>The predicates\<close>

record trading_guard =
  tg_snapshot :: state_snapshot
  tg_config :: pydict
  tg_execution_guard :: "exec_guard option"

definition mk_trading_guard :: "state_snapshot \<Rightarrow> pydict option \<Rightarrow> exec_guard option \<Rightarrow> trading_guard" where
  "mk_trading_guard snap config eg =
     \<lparr>tg_snapshot = snap, tg_config = (case config of None \<Rightarrow> [] | Some c \<Rightarrow> c),
      tg_execution_guard = eg\<rparr>"

definition is_data_ok :: "gates_config \<Rightarrow> trading_guard \<Rightarrow> bool res" where
  "is_data_ok gcfg t =
     rbind (guard_get_cfg gcfg (tg_config t) ''system'' ''data_lag_threshold_ms'' (VFloat (Fin 1000)))
       (\<lambda>threshold.
     rbind (case ss_event_lag_ms (tg_snapshot t) of
              None \<Rightarrow> Inr False
            | Some lag \<Rightarrow> num_gt lag threshold) (\<lambda>late.
       if late then Inr False
       else if ss_L (tg_snapshot t) = L_NO_QUOTE then Inr False
       else case ss_spot (tg_snapshot t) of
              None \<Rightarrow> Inr False
            | Some spot \<Rightarrow> if spot \<le> Fin 0 then Inr False else Inr True))"

definition is_data_stale :: "gates_config \<Rightarrow> trading_guard \<Rightarrow> bool res" where
  "is_data_stale gcfg t = rmap Not (is_data_ok gcfg t)"

definition is_greeks_bad :: "trading_guard \<Rightarrow> bool" where
  "is_greeks_bad t =
     (if \<not> ss_greeks_valid (tg_snapshot t) then True
      else case ss_greeks (tg_snapshot t) of
             None \<Rightarrow> True
           | Some g \<Rightarrow>
               if \<not> gs_valid g \<or> \<not> gs_is_finite g then True
               else if Fin 1000000 < fl_abs (gs_delta g) \<or> Fin 1000000 < fl_abs (gs_gamma g) then True
               else False)"

definition is_greeks_ok :: "trading_guard \<Rightarrow> bool" where
  "is_greeks_ok t = (\<not> is_greeks_bad t)"

definition is_broker_down :: "trading_guard \<Rightarrow> bool" where
  "is_broker_down t = (ss_E (tg_snapshot t) \<in> {E_DISCONNECTED, E_BROKER_ERROR})"

definition is_broker_up :: "trading_guard \<Rightarrow> bool" where
  "is_broker_up t = (\<not> is_broker_down t)"

definition is_option_position :: "trading_guard \<Rightarrow> bool" where
  "is_option_position t = (ss_O (tg_snapshot t) \<in> {O_LONG_GAMMA, O_SHORT_GAMMA})"

definition is_no_option_position :: "trading_guard \<Rightarrow> bool" where
  "is_no_option_position t = (ss_O (tg_snapshot t) = O_NONE)"

definition is_delta_band_ready :: "gates_config \<Rightarrow> trading_guard \<Rightarrow> bool res" where
  "is_delta_band_ready gcfg t =
     (if \<not> ss_greeks_valid (tg_snapshot t) then Inr False
      else
        rbind (guard_get_cfg gcfg (tg_config t) ''delta'' ''epsilon_band'' (VFloat (Fin 10))) (\<lambda>epsilon.
        rbind (resolved_cfg gcfg (tg_config t)) (\<lambda>resolved.
        let sec = py_or (dget resolved ''delta'' VNone) (VDict []) in
        rbind (vget sec ''hedge_threshold'' (VFloat (Fin 25))) (\<lambda>legacy.
        rbind (vget sec ''threshold_hedge_shares'' legacy) (\<lambda>threshold.
          Inr (case (num_of epsilon, num_of threshold) of
                 (Some e, Some h) \<Rightarrow> e \<le> h
               | _ \<Rightarrow> False))))))"

definition is_in_no_trade_band :: "gates_config \<Rightarrow> trading_guard \<Rightarrow> bool res" where
  "is_in_no_trade_band gcfg t =
     rbind (guard_get_cfg gcfg (tg_config t) ''delta'' ''epsilon_band'' (VFloat (Fin 10))) (\<lambda>epsilon.
       num_le (fl_abs (ss_net_delta (tg_snapshot t))) epsilon)"

definition is_cost_ok :: "gates_config \<Rightarrow> fl option \<Rightarrow> trading_guard \<Rightarrow> bool res" where
  "is_cost_ok gcfg min_move t =
     rbind (guard_get_cfg gcfg (tg_config t) ''liquidity'' ''extreme_spread_pct'' (VFloat (Fin (1 / 2))))
       (\<lambda>max_spread.
     rbind (case ss_spread_pct (tg_snapshot t) of
              None \<Rightarrow> Inr False
            | Some sp \<Rightarrow> num_ge sp max_spread) (\<lambda>wide.
       if wide then Inr False
       else
         rbind (case or_else fl_truthy min_move None of
                  Some x \<Rightarrow> Inr (VFloat x)
                | None \<Rightarrow> guard_get_cfg gcfg (tg_config t) ''hedge'' ''min_price_move_pct''
                            (VFloat (rnd (1 / 5)))) (\<lambda>move_pct.
         rbind (num_ge (Fin 0) move_pct) (\<lambda>off.
           if off then Inr True
           else case (ss_last_hedge_price (tg_snapshot t), ss_spot (tg_snapshot t)) of
                  (Some lp, Some spot) \<Rightarrow>
                    if lp \<le> Fin 0 then Inr True
                    else rbind (fl_div (Fin 100 * fl_abs (spot - lp)) lp) (\<lambda>pct. num_ge pct move_pct)
                | _ \<Rightarrow> Inr True))))"

definition is_liquidity_ok :: "trading_guard \<Rightarrow> bool res" where
  "is_liquidity_ok t =
     (if ss_L (tg_snapshot t) = L_NO_QUOTE then Inr False
      else if ss_L (tg_snapshot t) = L_EXTREME_WIDE then Inr False
      else
        let risk = dget (tg_config t) ''risk'' (VDict []) in
        rbind (if tg_config t \<noteq> [] then vget risk ''max_spread_pct'' VNone else Inr VNone) (\<lambda>mx.
          case ss_spread_pct (tg_snapshot t) of
            None \<Rightarrow> Inr True
          | Some sp \<Rightarrow> if mx = VNone then Inr True else rmap Not (num_gt sp mx)))"

definition is_retry_allowed :: "trading_guard \<Rightarrow> bool" where
  "is_retry_allowed t =
     (case tg_execution_guard t of
        None \<Rightarrow> True
      | Some g \<Rightarrow> eg_daily_hedge_count g < eg_max_daily_hedge_count g)"

definition is_exec_fault :: "trading_guard \<Rightarrow> bool" where
  "is_exec_fault t = (ss_E (tg_snapshot t) \<in> {E_DISCONNECTED, E_BROKER_ERROR})"

definition is_positions_ok :: "gates_config \<Rightarrow> trading_guard \<Rightarrow> bool res" where
  "is_positions_ok gcfg t = rmap (\<lambda>ok. ok \<and> ss_S (tg_snapshot t) \<noteq> S_RISK_HALT) (is_data_ok gcfg t)"

definition is_strategy_enabled :: "trading_guard \<Rightarrow> pyval" where
  "is_strategy_enabled t =
     (if tg_config t = [] then VBool True else dget (tg_config t) ''strategy_enabled'' (VBool True))"

section \<open>All of them\<close>

record trading_guards =
  g_data_ok :: bool
  g_data_stale :: bool
  g_greeks_bad :: bool
  g_broker_down :: bool
  g_broker_up :: bool
  g_have_option_position :: bool
  g_delta_band_ready :: bool
  g_in_no_trade_band :: bool
  g_cost_ok :: bool
  g_liquidity_ok :: bool
  g_retry_allowed :: bool
  g_exec_fault :: bool
  g_positions_ok :: bool
  g_strategy_enabled :: pyval

definition eval_all :: "gates_config \<Rightarrow> trading_guard \<Rightarrow> trading_guards res" where
  "eval_all gcfg t =
     rbind (is_data_ok gcfg t) (\<lambda>data_ok.
     rbind (is_data_stale gcfg t) (\<lambda>data_stale.
     rbind (is_delta_band_ready gcfg t) (\<lambda>band_ready.
     rbind (is_in_no_trade_band gcfg t) (\<lambda>in_band.
     rbind (is_cost_ok gcfg None t) (\<lambda>cost_ok.
     rbind (is_liquidity_ok t) (\<lambda>liquidity_ok.
     rbind (is_positions_ok gcfg t) (\<lambda>positions_ok.
       Inr \<lparr>g_data_ok = data_ok, g_data_stale = data_stale, g_greeks_bad = is_greeks_bad t,
            g_broker_down = is_broker_down t, g_broker_up = is_broker_up t,
            g_have_option_position = is_option_position t, g_delta_band_ready = band_ready,
            g_in_no_trade_band = in_band, g_cost_ok = cost_ok, g_liquidity_ok = liquidity_ok,
            g_retry_allowed = is_retry_allowed t, g_exec_fault = is_exec_fault t,
            g_positions_ok = positions_ok, g_strategy_enabled = is_strategy_enabled t\<rparr>)))))))"

lemmas guard_defs = is_data_ok_def is_data_stale_def is_greeks_bad_def is_broker_down_def
  is_broker_up_def is_option_position_def is_delta_band_ready_def is_in_no_trade_band_def
  is_cost_ok_def is_liquidity_ok_def is_retry_allowed_def is_exec_fault_def is_positions_ok_def
  is_strategy_enabled_def

section \<open>How the guards hang together\<close>

definition guards_coherent :: "trading_guards \<Rightarrow> bool" where
  "guards_coherent g \<longleftrightarrow>
     g_data_stale g = (\<not> g_data_ok g) \<and> g_broker_up g = (\<not> g_broker_down g)
     \<and> g_exec_fault g = g_broker_down g \<and> (g_positions_ok g \<longrightarrow> g_data_ok g)"

lemma eval_all_Inr:
  "eval_all gcfg t = Inr g \<Longrightarrow>
     is_data_ok gcfg t = Inr (g_data_ok g) \<and> is_in_no_trade_band gcfg t = Inr (g_in_no_trade_band g)
     \<and> is_cost_ok gcfg None t = Inr (g_cost_ok g) \<and> is_liquidity_ok t = Inr (g_liquidity_ok g)
     \<and> is_delta_band_ready gcfg t = Inr (g_delta_band_ready g)
     \<and> g_greeks_bad g = is_greeks_bad t \<and> g_broker_down g = is_broker_down t
     \<and> g_retry_allowed g = is_retry_allowed t \<and> g_have_option_position g = is_option_position t
     \<and> g_positions_ok g = (g_data_ok g \<and> ss_S (tg_snapshot t) \<noteq> S_RISK_HALT)"
  by (auto simp: eval_all_def rbind_Inr_iff is_positions_ok_def)

lemma eval_all_coherent: "eval_all gcfg t = Inr g \<Longrightarrow> guards_coherent g"
  by (auto simp: eval_all_def rbind_Inr_iff guards_coherent_def is_data_stale_def is_positions_ok_def
      is_broker_up_def is_broker_down_def is_exec_fault_def)

lemma eval_all_ok:
  "is_ok (eval_all gcfg t) \<longleftrightarrow>
     is_ok (is_data_ok gcfg t) \<and> is_ok (is_delta_band_ready gcfg t) \<and> is_ok (is_in_no_trade_band gcfg t)
     \<and> is_ok (is_cost_ok gcfg None t) \<and> is_ok (is_liquidity_ok t)"
  by (cases "is_data_ok gcfg t"; cases "is_delta_band_ready gcfg t"; cases "is_in_no_trade_band gcfg t";
      cases "is_cost_ok gcfg None t"; cases "is_liquidity_ok t")
    (simp_all add: eval_all_def is_data_stale_def is_positions_ok_def)

end
