(* ===== verification/TradingFsm.thy ===== *)
theory TradingFsm imports TradingGuard begin

text \<open>
  The trading machine, \<open>fsm/trading_fsm.py\<close>: the handlers per state, \<open>transition\<close> and
  \<open>apply_transition\<close>. The observer's calls are logged in the machine; its exceptions are swallowed by
  the code. The execution guard is shared with the order gate, so each call reads its current value.
\<close>

section \<open>The machine\<close>

type_synonym trading_call = "trading_state \<times> trading_state \<times> trading_event \<times> trading_guards"

record trading_fsm =
  tf_state :: trading_state
  tf_config :: pydict
  tf_on_transition :: bool
  tf_calls :: "trading_call list"

definition trading_init :: "pydict option \<Rightarrow> bool \<Rightarrow> trading_fsm" where
  "trading_init config cb =
     \<lparr>tf_state = T_BOOT, tf_config = (case config of None \<Rightarrow> [] | Some c \<Rightarrow> c),
      tf_on_transition = cb, tf_calls = []\<rparr>"

definition trading_eval_guards ::
  "gates_config \<Rightarrow> state_snapshot \<Rightarrow> pydict \<Rightarrow> exec_guard option \<Rightarrow> trading_guards res" where
  "trading_eval_guards gcfg snap config eg = eval_all gcfg (mk_trading_guard snap (Some config) eg)"

definition fire_transition ::
  "trading_fsm \<Rightarrow> trading_state \<Rightarrow> trading_state \<Rightarrow> trading_event \<Rightarrow> trading_guards \<Rightarrow> trading_fsm" where
  "fire_transition m from_state to_state ev g =
     (if tf_on_transition m
      then m\<lparr>tf_calls := tf_calls m @ [(from_state, to_state, ev, g)]\<rparr> else m)"

text \<open>\<open>fire(s, to, event, g); return to\<close>.\<close>

definition fire_to ::
  "trading_fsm \<Rightarrow> trading_state \<Rightarrow> trading_event \<Rightarrow> trading_guards \<Rightarrow> trading_state
   \<Rightarrow> trading_fsm \<times> trading_state option" where
  "fire_to m s ev g to_state = (fire_transition m s to_state ev g, Some to_state)"

definition handle_sync ::
  "trading_fsm \<Rightarrow> trading_state \<Rightarrow> trading_event \<Rightarrow> trading_guards \<Rightarrow> trading_fsm \<times> trading_state option" where
  "handle_sync m s ev g =
     (if g_positions_ok g \<and> g_data_ok g then fire_to m s ev g T_IDLE
      else if \<not> g_data_ok g \<or> g_broker_down g then fire_to m s ev g T_SAFE
      else (m, None))"

definition handle_idle ::
  "trading_fsm \<Rightarrow> trading_state \<Rightarrow> trading_event \<Rightarrow> trading_guards \<Rightarrow> trading_fsm \<times> trading_state option" where
  "handle_idle m s ev g =
     (if g_data_stale g \<or> g_greeks_bad g \<or> g_broker_down g then fire_to m s ev g T_SAFE
      else if g_have_option_position g \<and> truthy (g_strategy_enabled g) then fire_to m s ev g T_ARMED
      else (m, None))"

definition handle_armed ::
  "trading_fsm \<Rightarrow> trading_state \<Rightarrow> trading_event \<Rightarrow> trading_guards \<Rightarrow> trading_fsm \<times> trading_state option" where
  "handle_armed m s ev g = (if g_delta_band_ready g then fire_to m s ev g T_MONITOR else (m, None))"

definition handle_monitor ::
  "trading_fsm \<Rightarrow> trading_state \<Rightarrow> trading_event \<Rightarrow> trading_guards \<Rightarrow> trading_fsm \<times> trading_state option" where
  "handle_monitor m s ev g =
     (if g_in_no_trade_band g then fire_to m s ev g T_NO_TRADE
      else if g_cost_ok g \<and> g_liquidity_ok g then fire_to m s ev g T_NEED_HEDGE
      else if \<not> g_cost_ok g then fire_to m s ev g T_PAUSE_COST
      else if \<not> g_liquidity_ok g then fire_to m s ev g T_PAUSE_LIQ
      else (m, None))"

definition handle_no_trade ::
  "trading_fsm \<Rightarrow> trading_state \<Rightarrow> trading_event \<Rightarrow> trading_guards \<Rightarrow> trading_fsm \<times> trading_state option" where
  "handle_no_trade m s ev g =
     (if g_in_no_trade_band g then (m, None)
      else if g_cost_ok g \<and> g_liquidity_ok g then fire_to m s ev g T_NEED_HEDGE
      else if \<not> g_cost_ok g then fire_to m s ev g T_PAUSE_COST
      else if \<not> g_liquidity_ok g then fire_to m s ev g T_PAUSE_LIQ
      else (m, None))"

definition handle_pause ::
  "trading_fsm \<Rightarrow> trading_state \<Rightarrow> trading_event \<Rightarrow> trading_guards \<Rightarrow> trading_fsm \<times> trading_state option" where
  "handle_pause m s ev g =
     (if g_in_no_trade_band g then fire_to m s ev g T_NO_TRADE
      else if g_cost_ok g \<and> g_liquidity_ok g then fire_to m s ev g T_NEED_HEDGE
      else (m, None))"

definition tick_handler ::
  "trading_state \<Rightarrow>
    (trading_fsm \<Rightarrow> trading_state \<Rightarrow> trading_event \<Rightarrow> trading_guards \<Rightarrow> trading_fsm \<times> trading_state option) option"
where
  "tick_handler s =
     (if s = T_SYNC then Some handle_sync
      else if s = T_IDLE then Some handle_idle
      else if s = T_ARMED then Some handle_armed
      else if s = T_MONITOR then Some handle_monitor
      else if s = T_NO_TRADE then Some handle_no_trade
      else if s \<in> {T_PAUSE_COST, T_PAUSE_LIQ} then Some handle_pause
      else None)"

definition transition_with ::
  "trading_fsm \<Rightarrow> trading_event \<Rightarrow> trading_guards \<Rightarrow> trading_fsm \<times> trading_state option" where
  "transition_with m ev g =
     (let s = tf_state m in
      if g_broker_down g \<or> g_data_stale g \<or> g_greeks_bad g \<or> g_exec_fault g
        then if s \<noteq> T_SAFE then fire_to m s ev g T_SAFE else (m, None)
      else if ev = SHUTDOWN then (m, None)
      else if ev = START \<and> s = T_BOOT then fire_to m s ev g T_SYNC
      else if ev \<in> {SYNCED, QUOTE, TICK, GREEKS_UPDATE} \<and> tick_handler s \<noteq> None
        then the (tick_handler s) m s ev g
      else if ev = TARGET_EMITTED \<and> s = T_NEED_HEDGE then fire_to m s ev g T_HEDGING
      else if ev = HEDGE_DONE \<and> s = T_HEDGING then fire_to m s ev g T_MONITOR
      else if ev = HEDGE_FAILED \<and> s = T_HEDGING
        then if g_retry_allowed g then fire_to m s ev g T_NEED_HEDGE else fire_to m s ev g T_SAFE
      else if ev = MANUAL_RESUME \<and> s = T_SAFE \<and> g_broker_up g \<and> g_data_ok g
        then fire_to m s ev g T_SYNC
      else if ev = BROKER_UP \<and> s = T_SAFE \<and> g_data_ok g then fire_to m s ev g T_SYNC
      else (m, None))"

definition trading_transition ::
  "gates_config \<Rightarrow> exec_guard option \<Rightarrow> trading_fsm \<Rightarrow> trading_event \<Rightarrow> state_snapshot
   \<Rightarrow> (trading_fsm \<times> trading_state option) res" where
  "trading_transition gcfg eg m ev snap =
     rmap (transition_with m ev) (trading_eval_guards gcfg snap (tf_config m) eg)"

definition apply_transition ::
  "gates_config \<Rightarrow> exec_guard option \<Rightarrow> trading_fsm \<Rightarrow> trading_event \<Rightarrow> state_snapshot
   \<Rightarrow> (trading_fsm \<times> bool) res" where
  "apply_transition gcfg eg m ev snap =
     rmap (\<lambda>(m', next_state).
             case next_state of
               Some s \<Rightarrow> (m'\<lparr>tf_state := s\<rparr>, True)
             | None \<Rightarrow> (m', False))
       (trading_transition gcfg eg m ev snap)"

lemmas trading_handler_defs = handle_sync_def handle_idle_def handle_armed_def handle_monitor_def
  handle_no_trade_def handle_pause_def

section \<open>The transition relation\<close>

text \<open>
  The documented table of the machine, as a relation between states under an event and the guards:
  a danger forces \<open>SAFE\<close>; without one, each line of the table is a rule.
\<close>

definition danger :: "trading_guards \<Rightarrow> bool" where
  "danger g \<longleftrightarrow> g_broker_down g \<or> g_data_stale g \<or> g_greeks_bad g"

definition go_hedge :: "trading_guards \<Rightarrow> bool" where
  "go_hedge g \<longleftrightarrow> \<not> g_in_no_trade_band g \<and> g_cost_ok g \<and> g_liquidity_ok g"

definition market_event :: "trading_event \<Rightarrow> bool" where
  "market_event ev \<longleftrightarrow> ev \<in> {SYNCED, QUOTE, TICK, GREEKS_UPDATE}"

inductive trading_edge :: "trading_guards \<Rightarrow> trading_event \<Rightarrow> trading_state \<Rightarrow> trading_state \<Rightarrow> bool"
  for g where
  to_safe: "danger g \<Longrightarrow> s \<noteq> T_SAFE \<Longrightarrow> trading_edge g ev s T_SAFE"
| start: "\<not> danger g \<Longrightarrow> trading_edge g START T_BOOT T_SYNC"
| synced: "\<not> danger g \<Longrightarrow> market_event ev \<Longrightarrow> g_positions_ok g \<Longrightarrow> trading_edge g ev T_SYNC T_IDLE"
| arm: "\<not> danger g \<Longrightarrow> market_event ev \<Longrightarrow> g_have_option_position g \<Longrightarrow> truthy (g_strategy_enabled g)
    \<Longrightarrow> trading_edge g ev T_IDLE T_ARMED"
| watch: "\<not> danger g \<Longrightarrow> market_event ev \<Longrightarrow> g_delta_band_ready g \<Longrightarrow> trading_edge g ev T_ARMED T_MONITOR"
| in_band: "\<not> danger g \<Longrightarrow> market_event ev \<Longrightarrow> g_in_no_trade_band g
    \<Longrightarrow> s \<in> {T_MONITOR, T_PAUSE_COST, T_PAUSE_LIQ} \<Longrightarrow> trading_edge g ev s T_NO_TRADE"
| need: "\<not> danger g \<Longrightarrow> market_event ev \<Longrightarrow> go_hedge g
    \<Longrightarrow> s \<in> {T_MONITOR, T_NO_TRADE, T_PAUSE_COST, T_PAUSE_LIQ} \<Longrightarrow> trading_edge g ev s T_NEED_HEDGE"
| costly: "\<not> danger g \<Longrightarrow> market_event ev \<Longrightarrow> \<not> g_in_no_trade_band g \<Longrightarrow> \<not> g_cost_ok g
    \<Longrightarrow> s \<in> {T_MONITOR, T_NO_TRADE} \<Longrightarrow> trading_edge g ev s T_PAUSE_COST"
| illiquid: "\<not> danger g \<Longrightarrow> market_event ev \<Longrightarrow> \<not> g_in_no_trade_band g \<Longrightarrow> g_cost_ok g
    \<Longrightarrow> \<not> g_liquidity_ok g \<Longrightarrow> s \<in> {T_MONITOR, T_NO_TRADE} \<Longrightarrow> trading_edge g ev s T_PAUSE_LIQ"
| emitted: "\<not> danger g \<Longrightarrow> trading_edge g TARGET_EMITTED T_NEED_HEDGE T_HEDGING"
| hedged: "\<not> danger g \<Longrightarrow> trading_edge g HEDGE_DONE T_HEDGING T_MONITOR"
| retry: "\<not> danger g \<Longrightarrow> g_retry_allowed g \<Longrightarrow> trading_edge g HEDGE_FAILED T_HEDGING T_NEED_HEDGE"
| give_up: "\<not> danger g \<Longrightarrow> \<not> g_retry_allowed g \<Longrightarrow> trading_edge g HEDGE_FAILED T_HEDGING T_SAFE"
| resume: "\<not> danger g \<Longrightarrow> ev \<in> {MANUAL_RESUME, BROKER_UP} \<Longrightarrow> trading_edge g ev T_SAFE T_SYNC"

inductive_cases edge_from_safe: "trading_edge g ev T_SAFE s'"
inductive_cases edge_to_need_hedge: "trading_edge g ev s T_NEED_HEDGE"
inductive_cases edge_to_hedging: "trading_edge g ev s T_HEDGING"
inductive_cases edge_to_sync: "trading_edge g ev s T_SYNC"
inductive_cases edge_to_safe: "trading_edge g ev s T_SAFE"

inductive_simps edge_simps [simp]:
  "trading_edge g ev T_BOOT s'" "trading_edge g ev T_SYNC s'" "trading_edge g ev T_IDLE s'"
  "trading_edge g ev T_ARMED s'" "trading_edge g ev T_MONITOR s'" "trading_edge g ev T_NO_TRADE s'"
  "trading_edge g ev T_PAUSE_COST s'" "trading_edge g ev T_PAUSE_LIQ s'"
  "trading_edge g ev T_NEED_HEDGE s'" "trading_edge g ev T_HEDGING s'" "trading_edge g ev T_SAFE s'"

lemma transition_with_edge:
  assumes "guards_coherent g"
  shows "snd (transition_with m ev g) = Some s' \<longleftrightarrow> trading_edge g ev (tf_state m) s'"
  using assms
  by (cases "tf_state m"; cases ev)
    (auto simp: transition_with_def Let_def fire_to_def tick_handler_def trading_handler_defs
      guards_coherent_def danger_def go_hedge_def market_event_def)

section \<open>Calls of the daemon\<close>

text \<open>The state after a call; an exception of a guard leaves the machine as it was.\<close>

definition trading_step ::
  "gates_config \<Rightarrow> trading_fsm \<Rightarrow> trading_event \<times> state_snapshot \<times> exec_guard option \<Rightarrow> trading_fsm" where
  "trading_step gcfg m call =
     (let (ev, snap, eg) = call
      in case apply_transition gcfg eg m ev snap of Inl _ \<Rightarrow> m | Inr (m', _) \<Rightarrow> m')"

lemma apply_transition_Inr:
  assumes "apply_transition gcfg eg m ev snap = Inr (m', moved)"
  obtains g where "trading_eval_guards gcfg snap (tf_config m) eg = Inr g" and "guards_coherent g"
    and "moved = (snd (transition_with m ev g) \<noteq> None)"
    and "tf_state m' = (case snd (transition_with m ev g) of None \<Rightarrow> tf_state m | Some s \<Rightarrow> s)"
    and "tf_calls m' = tf_calls (fst (transition_with m ev g))"
proof -
  from assms obtain g where g: "trading_eval_guards gcfg snap (tf_config m) eg = Inr g"
    by (auto simp: apply_transition_def trading_transition_def rmap_Inr_iff)
  obtain m1 r where t: "transition_with m ev g = (m1, r)" by fastforce
  have "transition_with m ev g = (m1, None) \<Longrightarrow> tf_state m1 = tf_state m"
    by (auto simp: transition_with_def Let_def fire_to_def tick_handler_def trading_handler_defs
        split: if_splits)
  with assms g t have "moved = (r \<noteq> None)" "tf_state m' = (case r of None \<Rightarrow> tf_state m | Some s \<Rightarrow> s)"
    "tf_calls m' = tf_calls m1"
    by (auto simp: apply_transition_def trading_transition_def split: option.splits)
  with that [of g] g t eval_all_coherent show ?thesis by (auto simp: trading_eval_guards_def)
qed

lemma transition_with_calls:
  "tf_calls (fst (transition_with m ev g)) =
     tf_calls m @ (case snd (transition_with m ev g) of
                     Some s' \<Rightarrow> if tf_on_transition m then [(tf_state m, s', ev, g)] else []
                   | None \<Rightarrow> [])"
  by (simp add: transition_with_def Let_def fire_to_def fire_transition_def tick_handler_def
      trading_handler_defs)

text \<open>The events the daemon fires on its trading machine: no other occurs in \<open>app/\<close>.\<close>

datatype daemon_fire = FireStart | FireSynced | FireTick | FireTarget | FireDone

fun fired :: "daemon_fire \<Rightarrow> trading_event" where
  "fired FireStart = START"
| "fired FireSynced = SYNCED"
| "fired FireTick = TICK"
| "fired FireTarget = TARGET_EMITTED"
| "fired FireDone = HEDGE_DONE"

definition daemon_trading_step ::
  "gates_config \<Rightarrow> trading_fsm \<Rightarrow> daemon_fire \<times> state_snapshot \<times> exec_guard option \<Rightarrow> trading_fsm" where
  "daemon_trading_step gcfg m call = trading_step gcfg m (fired (fst call), snd call)"

lemma edge_from_safe_event: "trading_edge g ev T_SAFE s' \<Longrightarrow> ev \<in> {MANUAL_RESUME, BROKER_UP}"
  by (elim edge_from_safe) auto

lemma fired_not_resume: "fired k \<notin> {MANUAL_RESUME, BROKER_UP}"
  by (cases k) simp_all

interpretation safe_mode: invariant_machine "daemon_trading_step gcfg" "\<lambda>m. tf_state m = T_SAFE"
proof unfold_locales
  fix m :: trading_fsm and call :: "daemon_fire \<times> state_snapshot \<times> exec_guard option"
  assume safe: "tf_state m = T_SAFE"
  obtain k snap eg where call: "call = (k, snap, eg)" by (cases call) auto
  show "tf_state (daemon_trading_step gcfg m call) = T_SAFE"
  proof (cases "apply_transition gcfg eg m (fired k) snap")
    case (Inl e)
    with safe show ?thesis by (simp add: call daemon_trading_step_def trading_step_def)
  next
    case (Inr r)
    obtain m' moved where r: "r = (m', moved)" by fastforce
    obtain g where "guards_coherent g"
      and st: "tf_state m' = (case snd (transition_with m (fired k) g) of None \<Rightarrow> tf_state m | Some s \<Rightarrow> s)"
      using Inr r apply_transition_Inr by metis
    then have "snd (transition_with m (fired k) g) = None"
      using transition_with_edge [of g m "fired k"] edge_from_safe_event [of g "fired k"]
        fired_not_resume [of k] safe
      by (cases "snd (transition_with m (fired k) g)") auto
    with st safe Inr r show ?thesis by (simp add: call daemon_trading_step_def trading_step_def)
  qed
qed

section \<open>Properties\<close>

text \<open>
  C3. The machine implements the documented table: a call that succeeds moves along an edge of the
  table for the guards evaluated on the snapshot, one that reports no move leaves the state where the
  table has no edge, and the observer is told each move once with the state before and after.
\<close>

theorem trading_machine_refines_table:
  assumes "apply_transition gcfg eg m ev snap = Inr (m', moved)"
  shows "\<exists>g. trading_eval_guards gcfg snap (tf_config m) eg = Inr g
    \<and> (if moved then trading_edge g ev (tf_state m) (tf_state m')
        else tf_state m' = tf_state m \<and> \<not> (\<exists>s. trading_edge g ev (tf_state m) s))
    \<and> tf_calls m' = tf_calls m @
        (if moved \<and> tf_on_transition m then [(tf_state m, tf_state m', ev, g)] else [])"
proof -
  from assms obtain g where g: "trading_eval_guards gcfg snap (tf_config m) eg = Inr g"
    and coh: "guards_coherent g" and mv: "moved = (snd (transition_with m ev g) \<noteq> None)"
    and st: "tf_state m' = (case snd (transition_with m ev g) of None \<Rightarrow> tf_state m | Some s \<Rightarrow> s)"
    and cl: "tf_calls m' = tf_calls (fst (transition_with m ev g))"
    by (rule apply_transition_Inr)
  show ?thesis
  proof (intro exI [of _ g] conjI g)
    show "if moved then trading_edge g ev (tf_state m) (tf_state m')
        else tf_state m' = tf_state m \<and> \<not> (\<exists>s. trading_edge g ev (tf_state m) s)"
      using transition_with_edge [OF coh, of m ev] mv st
      by (cases "snd (transition_with m ev g)") (simp_all add: transition_with_edge [OF coh, symmetric])
    show "tf_calls m' = tf_calls m @
        (if moved \<and> tf_on_transition m then [(tf_state m, tf_state m', ev, g)] else [])"
      using mv st by (simp add: cl transition_with_calls split: option.split)
  qed
qed

text \<open>
  C12. A hedge is never asked for on bad ground: the machine enters \<open>NEED_HEDGE\<close> only on a snapshot with
  fresh data, usable Greeks and a broker that is up, and then either the delta is out of the no-trade
  band at an acceptable cost and liquidity, or a failed hedge is retried within the daily limit.
\<close>

theorem need_hedge_entry_is_guarded:
  assumes "apply_transition gcfg eg m ev snap = Inr (m', moved)"
    and "tf_state m \<noteq> T_NEED_HEDGE" and "tf_state m' = T_NEED_HEDGE"
  defines "t \<equiv> mk_trading_guard snap (Some (tf_config m)) eg"
  shows "is_data_ok gcfg t = Inr True \<and> \<not> is_greeks_bad t \<and> \<not> is_broker_down t
    \<and> (is_in_no_trade_band gcfg t = Inr False \<and> is_cost_ok gcfg None t = Inr True
          \<and> is_liquidity_ok t = Inr True
        \<or> ev = HEDGE_FAILED \<and> is_retry_allowed t)"
proof -
  from assms(1) obtain g where g: "trading_eval_guards gcfg snap (tf_config m) eg = Inr g"
    and coh: "guards_coherent g"
    and st: "tf_state m' = (case snd (transition_with m ev g) of None \<Rightarrow> tf_state m | Some s \<Rightarrow> s)"
    by (rule apply_transition_Inr)
  from st assms(2,3) have "snd (transition_with m ev g) = Some T_NEED_HEDGE"
    by (auto split: option.splits)
  then have "trading_edge g ev (tf_state m) T_NEED_HEDGE" using transition_with_edge [OF coh] by simp
  then have "\<not> danger g \<and> (go_hedge g \<or> ev = HEDGE_FAILED \<and> g_retry_allowed g)"
    by (elim edge_to_need_hedge) auto
  moreover have "eval_all gcfg t = Inr g" using g by (simp add: trading_eval_guards_def t_def)
  ultimately show ?thesis
    using eval_all_Inr [of gcfg t g] coh
    by (auto simp: danger_def go_hedge_def guards_coherent_def)
qed

text \<open>
  Any danger leads to \<open>SAFE\<close>: with stale data, bad Greeks or a broker down, every call that returns
  leaves the machine in \<open>SAFE\<close>, whatever the event and the state it was in.
\<close>

theorem danger_forces_safe:
  assumes "apply_transition gcfg eg m ev snap = Inr (m', moved)"
    and "t = mk_trading_guard snap (Some (tf_config m)) eg"
    and "is_data_ok gcfg t = Inr False \<or> is_greeks_bad t \<or> is_broker_down t"
  shows "tf_state m' = T_SAFE"
proof -
  from assms(1) obtain g where g: "trading_eval_guards gcfg snap (tf_config m) eg = Inr g"
    and coh: "guards_coherent g"
    and st: "tf_state m' = (case snd (transition_with m ev g) of None \<Rightarrow> tf_state m | Some s \<Rightarrow> s)"
    by (rule apply_transition_Inr)
  have "danger g"
    using assms(2,3) g coh eval_all_Inr [of gcfg t g]
    by (auto simp: danger_def guards_coherent_def trading_eval_guards_def)
  then show ?thesis using st
    by (auto simp: transition_with_def Let_def danger_def fire_to_def)
qed


text \<open>
  A pending hedge waits without looking at cost or liquidity: from \<open>NEED_HEDGE\<close> a tick leads to
  \<open>SAFE\<close> or nowhere, so neither a delta back in the band nor an extreme spread withdraws the request.
\<close>

theorem pending_hedge_not_withdrawn:
  assumes "tf_state m = T_NEED_HEDGE" and "apply_transition gcfg eg m TICK snap = Inr (m', moved)"
  shows "tf_state m' = (if moved then T_SAFE else T_NEED_HEDGE)
    \<and> (moved \<longleftrightarrow> (\<exists>g. trading_eval_guards gcfg snap (tf_config m) eg = Inr g \<and> danger g))"
proof -
  from assms(2) obtain g where g: "trading_eval_guards gcfg snap (tf_config m) eg = Inr g"
    and coh: "guards_coherent g" and mv: "moved = (snd (transition_with m TICK g) \<noteq> None)"
    and st: "tf_state m' = (case snd (transition_with m TICK g) of None \<Rightarrow> tf_state m | Some s \<Rightarrow> s)"
    by (rule apply_transition_Inr)
  have "snd (transition_with m TICK g) = (if danger g then Some T_SAFE else None)"
    using assms(1) coh
    by (simp add: transition_with_def Let_def fire_to_def tick_handler_def danger_def guards_coherent_def)
  with g mv st assms(1) show ?thesis by (auto split: if_splits)
qed

section \<open>The guards never raise on a sound configuration\<close>

definition numeric_setting ::
  "gates_config \<Rightarrow> pydict \<Rightarrow> string \<Rightarrow> string \<Rightarrow> pyval \<Rightarrow> bool" where
  "numeric_setting gcfg cfg sec key dflt =
     (case guard_get_cfg gcfg cfg sec key dflt of Inl _ \<Rightarrow> False | Inr v \<Rightarrow> num_of v \<noteq> None)"

definition guard_config_ok :: "gates_config \<Rightarrow> pydict \<Rightarrow> bool" where
  "guard_config_ok gcfg cfg \<longleftrightarrow>
     numeric_setting gcfg cfg ''system'' ''data_lag_threshold_ms'' (VFloat (Fin 1000))
     \<and> numeric_setting gcfg cfg ''delta'' ''epsilon_band'' (VFloat (Fin 10))
     \<and> numeric_setting gcfg cfg ''liquidity'' ''extreme_spread_pct'' (VFloat (Fin (1 / 2)))
     \<and> numeric_setting gcfg cfg ''hedge'' ''min_price_move_pct'' (VFloat (rnd (1 / 5)))
     \<and> (case resolved_cfg gcfg cfg of
           Inl _ \<Rightarrow> False | Inr r \<Rightarrow> is_dict (py_or (dget r ''delta'' VNone) (VDict [])))
     \<and> (case vget (dget cfg ''risk'' (VDict [])) ''max_spread_pct'' VNone of
           Inl _ \<Rightarrow> False | Inr v \<Rightarrow> v = VNone \<or> num_of v \<noteq> None)"

lemma numeric_setting_cmp:
  "numeric_setting gcfg cfg sec key dflt \<Longrightarrow>
     \<exists>v y. guard_get_cfg gcfg cfg sec key dflt = Inr v \<and> num_of v = Some y"
  by (auto simp: numeric_setting_def split: sum.splits)

lemma fl_div_not_le_zero: "\<not> y \<le> Fin 0 \<Longrightarrow> is_ok (fl_div x y)"
  by (cases y; cases x) auto

text \<open>
  C40. On a configuration whose thresholds are numbers, whose \<open>delta\<close> section and \<open>risk\<close> section are
  dictionaries, evaluating the guards never raises, on any snapshot and with any execution guard.
\<close>

theorem guards_total_on_sound_config:
  assumes "guard_config_ok gcfg cfg"
  shows "is_ok (trading_eval_guards gcfg snap cfg eg)"
proof -
  let ?t = "mk_trading_guard snap (Some cfg) eg"
  have cfg [simp]: "tg_config ?t = cfg" by (simp add: mk_trading_guard_def)
  have settings: "numeric_setting gcfg cfg ''system'' ''data_lag_threshold_ms'' (VFloat (Fin 1000))"
    "numeric_setting gcfg cfg ''delta'' ''epsilon_band'' (VFloat (Fin 10))"
    "numeric_setting gcfg cfg ''liquidity'' ''extreme_spread_pct'' (VFloat (Fin (1 / 2)))"
    "numeric_setting gcfg cfg ''hedge'' ''min_price_move_pct'' (VFloat (rnd (1 / 5)))"
    using assms by (simp_all add: guard_config_ok_def)
  obtain lag lag' eps eps' ex ex' mv mv' where
    lag: "guard_get_cfg gcfg cfg ''system'' ''data_lag_threshold_ms'' (VFloat (Fin 1000)) = Inr lag"
      "num_of lag = Some lag'"
    and eps: "guard_get_cfg gcfg cfg ''delta'' ''epsilon_band'' (VFloat (Fin 10)) = Inr eps"
      "num_of eps = Some eps'"
    and ex: "guard_get_cfg gcfg cfg ''liquidity'' ''extreme_spread_pct'' (VFloat (Fin (1 / 2))) = Inr ex"
      "num_of ex = Some ex'"
    and mv: "guard_get_cfg gcfg cfg ''hedge'' ''min_price_move_pct'' (VFloat (rnd (1 / 5))) = Inr mv"
      "num_of mv = Some mv'"
    using settings [THEN numeric_setting_cmp] by blast
  have "is_ok (is_data_ok gcfg ?t)"
    by (simp add: is_data_ok_def lag num_cmp_Some [OF lag(2)] split: option.split)
  moreover have "is_ok (is_in_no_trade_band gcfg ?t)"
    by (simp add: is_in_no_trade_band_def eps num_cmp_Some [OF eps(2)])
  moreover have "is_ok (is_delta_band_ready gcfg ?t)"
    using assms
    by (auto simp: is_delta_band_ready_def eps guard_config_ok_def is_dict_def Let_def
        split: sum.splits pyval.splits)
  moreover have "is_ok (is_cost_ok gcfg None ?t)"
    by (simp add: is_cost_ok_def ex mv num_cmp_Some [OF ex(2)] num_cmp_Some [OF mv(2)]
        is_ok_rbind fl_div_not_le_zero split: option.split)
  moreover have "is_ok (is_liquidity_ok ?t)"
    using assms
    by (auto simp: is_liquidity_ok_def guard_config_ok_def num_cmp_defs Let_def
        split: sum.splits option.splits)
  ultimately show ?thesis by (simp add: trading_eval_guards_def eval_all_ok)
qed

section \<open>Witnesses\<close>

definition sample_trading_config :: pydict where
  "sample_trading_config =
     [(''delta'', VDict [(''epsilon_band'', VInt 10), (''threshold_hedge_shares'', VInt 25)]),
      (''liquidity'', VDict [(''extreme_spread_pct'', VInt 1)]),
      (''hedge'', VDict [(''min_price_move_pct'', VInt 0)]),
      (''risk'', VDict [(''max_spread_pct'', VNone)])]"

definition sample_snapshot :: "liquidity_state \<Rightarrow> fl \<Rightarrow> state_snapshot" where
  "sample_snapshot l delta =
     \<lparr>ss_O = O_LONG_GAMMA, ss_D = D_HEDGE_NEEDED, ss_M = M_NORMAL, ss_L = l, ss_E = E_IDLE, ss_S = S_OK,
      ss_net_delta = delta, ss_option_delta = delta, ss_stock_pos = 0, ss_spot = Some (Fin 100),
      ss_spread_pct = None, ss_event_lag_ms = Some (Fin 20),
      ss_greeks = Some \<lparr>gs_delta = delta, gs_gamma = Fin 1, gs_theta = Fin 0, gs_vega = Fin 0,
                        gs_valid = True\<rparr>,
      ss_option_legs_count = 2, ss_last_hedge_ts = None, ss_last_hedge_price = None,
      ss_cost_params = None, ss_risk_limits = None, ss_ts = Fin 0\<rparr>"

definition sample_trading :: "trading_state \<Rightarrow> trading_fsm" where
  "sample_trading s =
     \<lparr>tf_state = s, tf_config = sample_trading_config, tf_on_transition = True, tf_calls = []\<rparr>"

lemma sample_trading_state [simp]: "tf_state (sample_trading s) = s"
  by (simp add: sample_trading_def)

lemmas trading_sample_defs = sample_trading_config_def sample_snapshot_def sample_trading_def

definition sample_guards :: trading_guards where
  "sample_guards =
     \<lparr>g_data_ok = True, g_data_stale = False, g_greeks_bad = False, g_broker_down = False,
      g_broker_up = True, g_have_option_position = True, g_delta_band_ready = True,
      g_in_no_trade_band = False, g_cost_ok = True, g_liquidity_ok = True, g_retry_allowed = True,
      g_exec_fault = False, g_positions_ok = True, g_strategy_enabled = VBool True\<rparr>"

lemma sample_guards_eval:
  "trading_eval_guards Inr (sample_snapshot L_NORMAL (Fin 60)) sample_trading_config None
   = Inr sample_guards"
  by (simp add: trading_eval_guards_def eval_all_def guard_defs mk_trading_guard_def trading_sample_defs
      resolved_cfg_def guard_get_cfg_def py_or_def num_cmp_defs ss_greeks_valid_def gs_is_finite_def
      sample_guards_def)

lemma sample_guards_eval_any:
  "\<exists>g. trading_eval_guards Inr (sample_snapshot L_NORMAL (Fin 60)) sample_trading_config eg = Inr g
     \<and> guards_coherent g \<and> \<not> danger g"
  by (simp add: trading_eval_guards_def eval_all_def guard_defs mk_trading_guard_def trading_sample_defs
      resolved_cfg_def guard_get_cfg_def py_or_def num_cmp_defs ss_greeks_valid_def gs_is_finite_def
      guards_coherent_def danger_def)

lemma sample_need_hedge:
  "apply_transition Inr None (sample_trading T_MONITOR) TICK (sample_snapshot L_NORMAL (Fin 60))
   = Inr (\<lparr>tf_state = T_NEED_HEDGE, tf_config = sample_trading_config, tf_on_transition = True,
           tf_calls = [(T_MONITOR, T_NEED_HEDGE, TICK, sample_guards)]\<rparr>, True)"
proof -
  have "tf_config (sample_trading T_MONITOR) = sample_trading_config" by (simp add: sample_trading_def)
  then show ?thesis
    using sample_guards_eval
    by (simp add: apply_transition_def trading_transition_def)
      (simp add: transition_with_def tick_handler_def handle_monitor_def fire_to_def fire_transition_def
        sample_guards_def sample_trading_def)
qed

lemma trading_machine_refines_table_witness:
  "\<exists>g. trading_eval_guards Inr (sample_snapshot L_NORMAL (Fin 60)) sample_trading_config None = Inr g
     \<and> trading_edge g TICK T_MONITOR T_NEED_HEDGE"
  using trading_machine_refines_table [OF sample_need_hedge] by (auto simp: sample_trading_def)

lemma need_hedge_entry_is_guarded_witness:
  "is_in_no_trade_band Inr
     (mk_trading_guard (sample_snapshot L_NORMAL (Fin 60)) (Some sample_trading_config) None) = Inr False"
  using need_hedge_entry_is_guarded [OF sample_need_hedge] by (simp add: sample_trading_def)

lemma danger_forces_safe_witness:
  "\<exists>m'. apply_transition Inr None (sample_trading T_MONITOR) TICK (sample_snapshot L_NO_QUOTE (Fin 60))
      = Inr (m', True) \<and> tf_state m' = T_SAFE"
proof -
  let ?snap = "sample_snapshot L_NO_QUOTE (Fin 60)"
  let ?t = "mk_trading_guard ?snap (Some (tf_config (sample_trading T_MONITOR))) None"
  have bad: "is_data_ok Inr ?t = Inr False"
    by (simp add: is_data_ok_def mk_trading_guard_def trading_sample_defs guard_get_cfg_def
        resolved_cfg_def py_or_def num_cmp_defs)
  obtain m' where m': "apply_transition Inr None (sample_trading T_MONITOR) TICK ?snap = Inr (m', True)"
    by (simp add: apply_transition_def trading_transition_def transition_with_def fire_to_def
        trading_eval_guards_def eval_all_def guard_defs mk_trading_guard_def trading_sample_defs
        resolved_cfg_def guard_get_cfg_def py_or_def num_cmp_defs ss_greeks_valid_def gs_is_finite_def)
  with danger_forces_safe [OF m' refl] bad show ?thesis by blast
qed


lemma guards_total_on_sound_config_witness:
  "is_ok (trading_eval_guards Inr (sample_snapshot L_WIDE NaN) sample_trading_config (Some sample_guard))"
  by (rule guards_total_on_sound_config)
    (simp add: guard_config_ok_def numeric_setting_def guard_get_cfg_def resolved_cfg_def py_or_def
      sample_trading_config_def)

lemma sample_guards_illiquid:
  "trading_eval_guards Inr (sample_snapshot L_EXTREME_WIDE (Fin 3)) sample_trading_config None
   = Inr (sample_guards\<lparr>g_in_no_trade_band := True, g_liquidity_ok := False\<rparr>)"
  by (simp add: trading_eval_guards_def eval_all_def guard_defs mk_trading_guard_def trading_sample_defs
      resolved_cfg_def guard_get_cfg_def py_or_def num_cmp_defs ss_greeks_valid_def gs_is_finite_def
      sample_guards_def)

lemma pending_hedge_not_withdrawn_witness:
  "\<exists>m'. apply_transition Inr None (sample_trading T_NEED_HEDGE) TICK (sample_snapshot L_EXTREME_WIDE (Fin 3))
      = Inr (m', False) \<and> tf_state m' = T_NEED_HEDGE"
proof -
  have c: "tf_config (sample_trading T_NEED_HEDGE) = sample_trading_config"
    and s: "tf_state (sample_trading T_NEED_HEDGE) = T_NEED_HEDGE" by (simp_all add: sample_trading_def)
  obtain m' where m': "apply_transition Inr None (sample_trading T_NEED_HEDGE) TICK
      (sample_snapshot L_EXTREME_WIDE (Fin 3)) = Inr (m', False)"
    using sample_guards_illiquid c
    by (simp add: apply_transition_def trading_transition_def)
      (simp add: transition_with_def tick_handler_def sample_guards_def s)
  with pending_hedge_not_withdrawn [OF s m'] show ?thesis by simp
qed

end
