(* ===== verification/RuntimeStore.thy ===== *)
theory RuntimeStore imports PyValue begin

text \<open>
  The in-memory state the daemon's parts share: \<open>Store\<close> (\<open>core/store.py\<close>), the market-data view over it
  (\<open>market/market_data.py\<close>) and the process counters \<open>Metrics\<close> (\<open>core/metrics.py\<close>). Every method of
  \<open>Store\<close> and \<open>Metrics\<close> runs under the object's one lock, so each is one atomic operation. The position
  objects come from the broker library and are of a type parameter.
\<close>

section \<open>Store\<close>

record 'pos store =
  st_positions :: "'pos list"
  st_stock_position :: int
  st_bid :: "fl option"
  st_ask :: "fl option"
  st_price :: "fl option"
  st_last_hedge_time :: "fl option"
  st_last_hedge_price :: "fl option"
  st_daily_hedge_count :: int
  st_daily_hedge_date :: "string option"
  st_daily_pnl :: fl
  st_account_id :: "string option"
  st_account_summary :: "pydict option"
  st_accounts_data :: "pydict list"

definition store_init :: "'pos store" where
  "store_init =
     \<lparr>st_positions = [], st_stock_position = 0, st_bid = None, st_ask = None, st_price = None,
      st_last_hedge_time = None, st_last_hedge_price = None, st_daily_hedge_count = 0,
      st_daily_hedge_date = None, st_daily_pnl = Fin 0, st_account_id = None,
      st_account_summary = None, st_accounts_data = []\<rparr>"

definition set_positions :: "'pos store \<Rightarrow> 'pos list \<Rightarrow> int \<Rightarrow> 'pos store" where
  "set_positions s ps stock = s\<lparr>st_positions := ps, st_stock_position := stock\<rparr>"

text \<open>\<open>(bid + ask) / 2.0\<close>; the divisor is never zero, so the division cannot raise.\<close>

definition fl_mid :: "fl \<Rightarrow> fl \<Rightarrow> fl" where
  "fl_mid b a = (case fl_div (b + a) (Fin 2) of Inr m \<Rightarrow> m | Inl _ \<Rightarrow> NaN)"

lemma fl_div_two: "fl_div (b + a) (Fin 2) = Inr (fl_mid b a)"
  by (cases "b + a") (simp_all add: fl_mid_def)

definition set_underlying_quote :: "'pos store \<Rightarrow> fl option \<Rightarrow> fl option \<Rightarrow> 'pos store" where
  "set_underlying_quote s bid ask =
     (let s' = s\<lparr>st_bid := bid, st_ask := ask\<rparr>
      in case (bid, ask) of
           (Some b, Some a) \<Rightarrow> s'\<lparr>st_price := Some (fl_mid b a)\<rparr>
         | _ \<Rightarrow> s')"

definition set_underlying_price :: "'pos store \<Rightarrow> fl option \<Rightarrow> 'pos store" where
  "set_underlying_price s p = s\<lparr>st_price := p\<rparr>"

definition get_spread_pct :: "'pos store \<Rightarrow> fl option res" where
  "get_spread_pct s =
     (case (st_bid s, st_ask s) of
        (Some b, Some a) \<Rightarrow>
          if b \<le> Fin 0 then Inr None
          else let mid = fl_mid b a
               in if mid \<le> Fin 0 then Inr None else rmap Some (fl_div (Fin 100 * (a - b)) mid)
      | _ \<Rightarrow> Inr None)"

definition set_last_hedge_time :: "'pos store \<Rightarrow> fl option \<Rightarrow> 'pos store" where
  "set_last_hedge_time s t = s\<lparr>st_last_hedge_time := t\<rparr>"

definition set_last_hedge_price :: "'pos store \<Rightarrow> fl option \<Rightarrow> 'pos store" where
  "set_last_hedge_price s p = s\<lparr>st_last_hedge_price := p\<rparr>"

definition set_daily_hedge_count :: "'pos store \<Rightarrow> int \<Rightarrow> string option \<Rightarrow> 'pos store" where
  "set_daily_hedge_count s n as_of = s\<lparr>st_daily_hedge_count := n, st_daily_hedge_date := as_of\<rparr>"

definition inc_daily_hedge_count :: "'pos store \<Rightarrow> int \<times> 'pos store" where
  "inc_daily_hedge_count s =
     (let s' = s\<lparr>st_daily_hedge_count := st_daily_hedge_count s + 1\<rparr> in (st_daily_hedge_count s', s'))"

definition set_daily_pnl :: "'pos store \<Rightarrow> fl \<Rightarrow> 'pos store" where
  "set_daily_pnl s p = s\<lparr>st_daily_pnl := p\<rparr>"

definition add_fill_pnl :: "'pos store \<Rightarrow> fl \<Rightarrow> 'pos store" where
  "add_fill_pnl s d = s\<lparr>st_daily_pnl := st_daily_pnl s + d\<rparr>"

definition set_account_summary :: "'pos store \<Rightarrow> string option \<Rightarrow> pydict option \<Rightarrow> 'pos store" where
  "set_account_summary s aid summary =
     s\<lparr>st_account_id := aid,
       st_account_summary := (case summary of None \<Rightarrow> None | Some d \<Rightarrow> if d = [] then None else Some d)\<rparr>"

definition get_account_summary :: "'pos store \<Rightarrow> pydict option" where
  "get_account_summary s =
     (case st_account_summary s of None \<Rightarrow> None | Some d \<Rightarrow> if d = [] then None else Some d)"

definition set_accounts_data :: "'pos store \<Rightarrow> pydict list \<Rightarrow> 'pos store" where
  "set_accounts_data s accounts = s\<lparr>st_accounts_data := accounts\<rparr>"

section \<open>Market data\<close>

text \<open>The view keeps only the time of the last tick; quotes are read from the store.\<close>

record market_data =
  md_last_ts :: "fl option"

definition md_set_last_ts :: "market_data \<Rightarrow> fl option \<Rightarrow> market_data" where
  "md_set_last_ts m t = m\<lparr>md_last_ts := t\<rparr>"

definition md_touch_ts :: "market_data \<Rightarrow> fl \<Rightarrow> market_data" where
  "md_touch_ts m now = m\<lparr>md_last_ts := Some now\<rparr>"

definition md_spread_pct :: "'pos store \<Rightarrow> fl option res" where
  "md_spread_pct s = get_spread_pct s"

section \<open>Metrics\<close>

record metrics =
  mx_hedge_count :: int
  mx_slippage_sum :: fl
  mx_slippage_n :: int
  mx_data_lag_ms :: "fl option"
  mx_spread_bucket :: "string option"
  mx_delta_abs :: "fl option"
  mx_current_state :: "string option"
  mx_gamma :: "fl option"
  mx_reprice_count :: int
  mx_safe_mode_count :: int

definition metrics_init :: metrics where
  "metrics_init =
     \<lparr>mx_hedge_count = 0, mx_slippage_sum = Fin 0, mx_slippage_n = 0, mx_data_lag_ms = None,
      mx_spread_bucket = None, mx_delta_abs = None, mx_current_state = None, mx_gamma = None,
      mx_reprice_count = 0, mx_safe_mode_count = 0\<rparr>"

definition inc_hedge_count :: "metrics \<Rightarrow> int \<times> metrics" where
  "inc_hedge_count m =
     (let m' = m\<lparr>mx_hedge_count := mx_hedge_count m + 1\<rparr> in (mx_hedge_count m', m'))"

definition record_slippage :: "metrics \<Rightarrow> fl \<Rightarrow> metrics" where
  "record_slippage m x =
     m\<lparr>mx_slippage_n := mx_slippage_n m + 1, mx_slippage_sum := mx_slippage_sum m + x\<rparr>"

definition avg_slippage :: "metrics \<Rightarrow> fl option res" where
  "avg_slippage m =
     (if mx_slippage_n m = 0 then Inr None
      else rmap Some (rbind (fl_of_int (mx_slippage_n m)) (\<lambda>n. fl_div (mx_slippage_sum m) n)))"

definition set_data_lag_ms :: "metrics \<Rightarrow> fl option \<Rightarrow> metrics" where
  "set_data_lag_ms m x = m\<lparr>mx_data_lag_ms := x\<rparr>"

definition set_spread_bucket :: "metrics \<Rightarrow> string option \<Rightarrow> metrics" where
  "set_spread_bucket m x = m\<lparr>mx_spread_bucket := x\<rparr>"

definition set_delta_abs :: "metrics \<Rightarrow> fl option \<Rightarrow> metrics" where
  "set_delta_abs m x = m\<lparr>mx_delta_abs := x\<rparr>"

definition set_current_state :: "metrics \<Rightarrow> string option \<Rightarrow> metrics" where
  "set_current_state m x = m\<lparr>mx_current_state := x\<rparr>"

definition set_gamma :: "metrics \<Rightarrow> fl option \<Rightarrow> metrics" where
  "set_gamma m x = m\<lparr>mx_gamma := x\<rparr>"

definition inc_reprice_count :: "metrics \<Rightarrow> int \<times> metrics" where
  "inc_reprice_count m =
     (let m' = m\<lparr>mx_reprice_count := mx_reprice_count m + 1\<rparr> in (mx_reprice_count m', m'))"

definition inc_safe_mode_count :: "metrics \<Rightarrow> int \<times> metrics" where
  "inc_safe_mode_count m =
     (let m' = m\<lparr>mx_safe_mode_count := mx_safe_mode_count m + 1\<rparr> in (mx_safe_mode_count m', m'))"

lemmas store_defs =
  set_positions_def set_underlying_quote_def set_underlying_price_def set_last_hedge_time_def
  set_last_hedge_price_def set_daily_hedge_count_def inc_daily_hedge_count_def set_daily_pnl_def
  add_fill_pnl_def set_account_summary_def set_accounts_data_def

lemmas metrics_defs =
  inc_hedge_count_def record_slippage_def set_data_lag_ms_def set_spread_bucket_def set_delta_abs_def
  set_current_state_def set_gamma_def inc_reprice_count_def inc_safe_mode_count_def

section \<open>The spread is well defined\<close>

lemma get_spread_pct_ok: "is_ok (get_spread_pct s)"
proof -
  have "is_ok (fl_div x m)" if "\<not> m \<le> Fin 0" for x m
    using that by (cases m; cases x) simp_all
  then show ?thesis
    by (auto simp: get_spread_pct_def Let_def is_ok_iff rmap_Inr_iff split: option.split)
qed

text \<open>
  The quotes an exchange sends: a positive bid not above the ask, in a range where no intermediate
  result overflows or vanishes.
\<close>

definition sane_quote :: "rat \<Rightarrow> rat \<Rightarrow> bool" where
  "sane_quote b a \<longleftrightarrow> 2 powi (- 20) \<le> b \<and> b \<le> a \<and> a \<le> 2 ^ 50"

lemma fl_mid_sane:
  assumes "sane_quote b a"
  shows "\<exists>m. fl_mid (Fin b) (Fin a) = Fin m \<and> 2 powi (- 20) \<le> m \<and> m \<le> 2 ^ 50"
proof -
  have d: "is_double (Fin (2 powi (- 20)))" "is_double (Fin (2 powi (- 19)))"
    "is_double (Fin (2 ^ 50))" "is_double (Fin (2 ^ 51))"
    by (intro is_double_powi is_double_power; simp)+
  have two: "(2::rat) powi (- 19) = 2 * 2 powi (- 20)" by (simp add: power_int_minus)
  have sum: "2 powi (- 19) \<le> b + a" using assms unfolding sane_quote_def two by linarith
  have sum': "b + a \<le> 2 ^ 51" using assms by (simp add: sane_quote_def)
  obtain y where y: "rnd (b + a) = Fin y" "2 powi (- 19) \<le> y" "y \<le> 2 ^ 51"
    using rnd_between [OF d(2,4) sum sum'] by blast
  then have half: "2 powi (- 20) \<le> y / 2" "y / 2 \<le> 2 ^ 50" unfolding two by simp_all
  obtain m where "rnd (y / 2) = Fin m" "2 powi (- 20) \<le> m" "m \<le> 2 ^ 50"
    using rnd_between [OF d(1,3) half] by blast
  with y(1) show ?thesis by (simp add: fl_mid_def)
qed

text \<open>
  The spread of a sane two-sided quote is always reported, as a finite non-negative percentage, and
  is zero for a locked quote; the mid-price stored with the quote is positive.
\<close>

theorem spread_of_sane_quote:
  assumes q: "sane_quote b a"
  shows "\<exists>x m. get_spread_pct (set_underlying_quote s (Some (Fin b)) (Some (Fin a))) = Inr (Some (Fin x))
    \<and> 0 \<le> x \<and> (a = b \<longrightarrow> x = 0)
    \<and> st_price (set_underlying_quote s (Some (Fin b)) (Some (Fin a))) = Some (Fin m) \<and> 0 < m"
proof -
  obtain m where m: "fl_mid (Fin b) (Fin a) = Fin m" "2 powi (- 20) \<le> m" "m \<le> 2 ^ 50"
    using fl_mid_sane [OF q] by blast
  have m_pos: "0 < m" using m(2) two_powi_pos [of "- 20"] by linarith
  have b: "0 < b" using q two_powi_pos [of "- 20"] unfolding sane_quote_def by linarith
  have d: "is_double (Fin (2 ^ 50))" "is_double (Fin (2 ^ 57))" "is_double (Fin (2 ^ 77))"
    by (intro is_double_power; simp)+
  have diff: "0 \<le> a - b" "a - b \<le> 2 ^ 50" using q b by (auto simp: sane_quote_def)
  obtain y where y: "rnd (a - b) = Fin y" "0 \<le> y" "y \<le> 2 ^ 50"
    using rnd_between [OF is_double_zero d(1) diff] by blast
  have prod: "0 \<le> 100 * y" "100 * y \<le> 2 ^ 57" using y(2,3) by simp_all
  obtain z where z: "rnd (100 * y) = Fin z" "0 \<le> z" "z \<le> 2 ^ 57"
    using rnd_between [OF is_double_zero d(2) prod] by blast
  have "z / m \<le> 2 ^ 57 / 2 powi (- 20)" using z m m_pos by (intro frac_le) simp_all
  also have "\<dots> = 2 ^ 77" by (simp add: power_int_minus)
  finally have quot: "0 \<le> z / m" "z / m \<le> 2 ^ 77" using z m_pos by simp_all
  obtain x where x: "rnd (z / m) = Fin x" "0 \<le> x"
    using rnd_between [OF is_double_zero d(3) quot] by blast
  have "x = 0" if "a = b" using that x y z by simp
  then show ?thesis
    using x y z m m_pos b by (auto simp: get_spread_pct_def set_underlying_quote_def Let_def)
qed

theorem spread_of_sane_quote_witness:
  "sane_quote 99 101 \<and> (\<exists>x m. get_spread_pct (set_underlying_quote (store_init :: unit store)
      (Some (Fin 99)) (Some (Fin 101))) = Inr (Some (Fin x)) \<and> 0 \<le> x
      \<and> st_price (set_underlying_quote (store_init :: unit store) (Some (Fin 99)) (Some (Fin 101)))
         = Some (Fin m) \<and> 0 < m)"
proof -
  have q: "sane_quote 99 101" by (simp add: sane_quote_def power_int_minus)
  then show ?thesis using spread_of_sane_quote [OF q, of store_init] by blast
qed

end
