(* ===== verification/HedgeFsm.thy ===== *)
theory HedgeFsm imports StateEnums PyFloat begin

text \<open>
  The hedge execution machine, \<open>fsm/hedge_fsm.py\<close>: the transition table, the mapping to the legacy
  execution state, and every operation of \<open>HedgeFSM\<close> with its guard and its writes to the stored
  target and need. The machine records the calls it makes to the optional \<open>on_transition\<close> observer.
\<close>

section \<open>Table and mapping\<close>

record target_position_event =
  tp_target_shares :: int
  tp_reason :: string
  tp_ts :: fl
  tp_trace_id :: "string option"
  tp_side :: string
  tp_quantity :: int

definition hedge_transitions :: "((hedge_state \<times> hedge_event) \<times> hedge_state) list" where
  "hedge_transitions =
    [((H_EXEC_IDLE, RECV_TARGET), H_PLAN),
     ((H_PLAN, PLAN_SKIP), H_EXEC_IDLE),
     ((H_PLAN, PLAN_SEND), H_SEND),
     ((H_SEND, PLACE_ORDER), H_WAIT_ACK),
     ((H_WAIT_ACK, ACK_OK), H_WORKING),
     ((H_WAIT_ACK, ACK_REJECT), H_FAIL),
     ((H_WAIT_ACK, TIMEOUT_ACK), H_FAIL),
     ((H_WAIT_ACK, H_BROKER_DOWN), H_FAIL),
     ((H_WORKING, PARTIAL_FILL), H_PARTIAL),
     ((H_WORKING, FULL_FILL), H_FILLED),
     ((H_WORKING, TIMEOUT_WORKING), H_REPRICE),
     ((H_WORKING, RISK_TRIP), H_CANCEL),
     ((H_WORKING, MANUAL_CANCEL), H_CANCEL),
     ((H_WORKING, H_BROKER_DOWN), H_CANCEL),
     ((H_PARTIAL, PLAN_SEND), H_SEND),
     ((H_PARTIAL, PLAN_SKIP), H_EXEC_IDLE),
     ((H_REPRICE, PLACE_ORDER), H_WAIT_ACK),
     ((H_CANCEL, CANCEL_SENT), H_RECOVER),
     ((H_RECOVER, POSITIONS_RESYNCED), H_EXEC_IDLE),
     ((H_RECOVER, CANNOT_RECOVER), H_FAIL),
     ((H_FAIL, TRY_RESYNC), H_RECOVER),
     ((H_FILLED, RECV_TARGET), H_PLAN)]"

definition hedge_table :: "hedge_state \<Rightarrow> hedge_event \<Rightarrow> hedge_state option" where
  "hedge_table s e = map_of hedge_transitions (s, e)"

definition to_execution_state :: "hedge_state \<Rightarrow> bool \<Rightarrow> execution_state" where
  "to_execution_state h conn =
     (if \<not> conn then E_DISCONNECTED
      else if h = H_FAIL then E_BROKER_ERROR
      else if h \<in> {H_EXEC_IDLE, H_FILLED} then E_IDLE
      else if h = H_PARTIAL then E_PARTIAL_FILL
      else if h \<in> {H_PLAN, H_SEND, H_WAIT_ACK, H_WORKING, H_REPRICE, H_CANCEL, H_RECOVER}
           then E_ORDER_WORKING
      else E_IDLE)"

section \<open>The machine and its operations\<close>

record hedge_fsm =
  h_state :: hedge_state
  h_min_hedge_shares :: int
  h_on_transition :: bool
  h_current_target :: "target_position_event option"
  h_need_shares :: int
  h_connected :: bool
  h_calls :: "(hedge_state \<times> hedge_state \<times> hedge_event) list"

definition hedge_init :: "int \<Rightarrow> bool \<Rightarrow> hedge_fsm" where
  "hedge_init min_shares cb =
     \<lparr>h_state = H_EXEC_IDLE, h_min_hedge_shares = min_shares, h_on_transition = cb,
      h_current_target = None, h_need_shares = 0, h_connected = True, h_calls = []\<rparr>"

definition hedge_set_connected :: "hedge_fsm \<Rightarrow> bool \<Rightarrow> hedge_fsm" where
  "hedge_set_connected m c = m\<lparr>h_connected := c\<rparr>"

definition effective_execution_state :: "hedge_fsm \<Rightarrow> execution_state" where
  "effective_execution_state m = to_execution_state (h_state m) (h_connected m)"

definition can_place_order :: "hedge_fsm \<Rightarrow> bool" where
  "can_place_order m = (h_state m \<in> {H_EXEC_IDLE, H_FILLED})"

definition hedge_transition :: "hedge_fsm \<Rightarrow> hedge_state \<Rightarrow> hedge_event \<Rightarrow> hedge_fsm" where
  "hedge_transition m to_state event =
     (let from_state = h_state m; m' = m\<lparr>h_state := to_state\<rparr>
      in if h_on_transition m then m'\<lparr>h_calls := h_calls m' @ [(from_state, to_state, event)]\<rparr>
         else m')"

definition lookup_and_apply :: "hedge_fsm \<Rightarrow> hedge_event \<Rightarrow> bool \<times> hedge_fsm" where
  "lookup_and_apply m event =
     (case hedge_table (h_state m) event of
        Some to_state \<Rightarrow> (True, hedge_transition m to_state event)
      | None \<Rightarrow> (False, m))"

definition on_cancel_sent :: "hedge_fsm \<Rightarrow> bool \<times> hedge_fsm" where
  "on_cancel_sent m =
     (if h_state m \<noteq> H_CANCEL then (False, m) else lookup_and_apply m CANCEL_SENT)"

definition on_target :: "hedge_fsm \<Rightarrow> target_position_event \<Rightarrow> int \<Rightarrow> bool \<times> hedge_fsm" where
  "on_target m target current_stock_pos =
     (if \<not> can_place_order m then (False, m)
      else lookup_and_apply
             (m\<lparr>h_current_target := Some target,
                h_need_shares := tp_target_shares target - current_stock_pos\<rparr>) RECV_TARGET)"

definition on_try_resync :: "hedge_fsm \<Rightarrow> bool \<times> hedge_fsm" where
  "on_try_resync m = (if h_state m \<noteq> H_FAIL then (False, m) else lookup_and_apply m TRY_RESYNC)"

definition on_plan_decide :: "hedge_fsm \<Rightarrow> bool \<Rightarrow> bool \<times> hedge_fsm" where
  "on_plan_decide m send_order =
     (if h_state m \<noteq> H_PLAN then (False, m)
      else if send_order then lookup_and_apply m PLAN_SEND
      else lookup_and_apply (m\<lparr>h_current_target := None\<rparr>) PLAN_SKIP)"

definition on_partial_replan :: "hedge_fsm \<Rightarrow> bool \<Rightarrow> bool \<times> hedge_fsm" where
  "on_partial_replan m send_order =
     (if h_state m \<noteq> H_PARTIAL then (False, m)
      else if send_order then lookup_and_apply m PLAN_SEND
      else lookup_and_apply (m\<lparr>h_current_target := None, h_need_shares := 0\<rparr>) PLAN_SKIP)"

definition on_cannot_recover :: "hedge_fsm \<Rightarrow> bool \<times> hedge_fsm" where
  "on_cannot_recover m =
     (if h_state m \<noteq> H_RECOVER then (False, m) else lookup_and_apply m CANNOT_RECOVER)"

definition on_positions_resynced :: "hedge_fsm \<Rightarrow> bool \<times> hedge_fsm" where
  "on_positions_resynced m =
     (if h_state m \<noteq> H_RECOVER then (False, m)
      else lookup_and_apply (m\<lparr>h_current_target := None, h_need_shares := 0\<rparr>) POSITIONS_RESYNCED)"

definition on_order_placed :: "hedge_fsm \<Rightarrow> bool \<times> hedge_fsm" where
  "on_order_placed m =
     (if h_state m \<notin> {H_SEND, H_REPRICE} then (False, m) else lookup_and_apply m PLACE_ORDER)"

definition on_ack_ok :: "hedge_fsm \<Rightarrow> bool \<times> hedge_fsm" where
  "on_ack_ok m = (if h_state m \<noteq> H_WAIT_ACK then (False, m) else lookup_and_apply m ACK_OK)"

definition on_ack_reject :: "hedge_fsm \<Rightarrow> bool \<times> hedge_fsm" where
  "on_ack_reject m = (if h_state m \<noteq> H_WAIT_ACK then (False, m) else lookup_and_apply m ACK_REJECT)"

definition on_timeout_ack :: "hedge_fsm \<Rightarrow> bool \<times> hedge_fsm" where
  "on_timeout_ack m = (if h_state m \<noteq> H_WAIT_ACK then (False, m) else lookup_and_apply m TIMEOUT_ACK)"

definition on_broker_down :: "hedge_fsm \<Rightarrow> bool \<times> hedge_fsm" where
  "on_broker_down m =
     (if h_state m \<in> {H_WAIT_ACK, H_WORKING} then lookup_and_apply m H_BROKER_DOWN
      else (True, m\<lparr>h_connected := False\<rparr>))"

definition on_timeout_working :: "hedge_fsm \<Rightarrow> bool \<times> hedge_fsm" where
  "on_timeout_working m =
     (if h_state m \<noteq> H_WORKING then (False, m) else lookup_and_apply m TIMEOUT_WORKING)"

definition on_partial_fill :: "hedge_fsm \<Rightarrow> bool \<times> hedge_fsm" where
  "on_partial_fill m = (if h_state m \<noteq> H_WORKING then (False, m) else lookup_and_apply m PARTIAL_FILL)"

definition on_full_fill :: "hedge_fsm \<Rightarrow> bool \<times> hedge_fsm" where
  "on_full_fill m =
     (if h_state m \<noteq> H_WORKING then (False, m)
      else lookup_and_apply (m\<lparr>h_current_target := None, h_need_shares := 0\<rparr>) FULL_FILL)"

definition on_manual_cancel :: "hedge_fsm \<Rightarrow> bool \<times> hedge_fsm" where
  "on_manual_cancel m = (if h_state m \<noteq> H_WORKING then (False, m) else lookup_and_apply m MANUAL_CANCEL)"

definition on_risk_trip :: "hedge_fsm \<Rightarrow> bool \<times> hedge_fsm" where
  "on_risk_trip m = (if h_state m \<noteq> H_WORKING then (False, m) else lookup_and_apply m RISK_TRIP)"

text \<open>The calls a client can make, so that a history of the machine is a list of them.\<close>

datatype hedge_call =
    CancelSent | Target target_position_event int | TryResync | PlanDecide bool | PartialReplan bool
  | CannotRecover | PositionsResynced | OrderPlaced | AckOk | AckReject | TimeoutAck | BrokerDown
  | TimeoutWorking | PartialFill | FullFill | ManualCancel | RiskTrip | SetConnected bool

fun hedge_apply :: "hedge_fsm \<Rightarrow> hedge_call \<Rightarrow> bool \<times> hedge_fsm" where
  "hedge_apply m CancelSent = on_cancel_sent m"
| "hedge_apply m (Target t pos) = on_target m t pos"
| "hedge_apply m TryResync = on_try_resync m"
| "hedge_apply m (PlanDecide b) = on_plan_decide m b"
| "hedge_apply m (PartialReplan b) = on_partial_replan m b"
| "hedge_apply m CannotRecover = on_cannot_recover m"
| "hedge_apply m PositionsResynced = on_positions_resynced m"
| "hedge_apply m OrderPlaced = on_order_placed m"
| "hedge_apply m AckOk = on_ack_ok m"
| "hedge_apply m AckReject = on_ack_reject m"
| "hedge_apply m TimeoutAck = on_timeout_ack m"
| "hedge_apply m BrokerDown = on_broker_down m"
| "hedge_apply m TimeoutWorking = on_timeout_working m"
| "hedge_apply m PartialFill = on_partial_fill m"
| "hedge_apply m FullFill = on_full_fill m"
| "hedge_apply m ManualCancel = on_manual_cancel m"
| "hedge_apply m RiskTrip = on_risk_trip m"
| "hedge_apply m (SetConnected c) = (True, hedge_set_connected m c)"

definition hedge_step :: "hedge_fsm \<Rightarrow> hedge_call \<Rightarrow> hedge_fsm" where
  "hedge_step m c = snd (hedge_apply m c)"

lemma hedge_table_simps [simp]:
  "hedge_table H_EXEC_IDLE RECV_TARGET = Some H_PLAN"
  "hedge_table H_PLAN PLAN_SKIP = Some H_EXEC_IDLE"
  "hedge_table H_PLAN PLAN_SEND = Some H_SEND"
  "hedge_table H_SEND PLACE_ORDER = Some H_WAIT_ACK"
  "hedge_table H_WAIT_ACK ACK_OK = Some H_WORKING"
  "hedge_table H_WAIT_ACK ACK_REJECT = Some H_FAIL"
  "hedge_table H_WAIT_ACK TIMEOUT_ACK = Some H_FAIL"
  "hedge_table H_WAIT_ACK H_BROKER_DOWN = Some H_FAIL"
  "hedge_table H_WORKING PARTIAL_FILL = Some H_PARTIAL"
  "hedge_table H_WORKING FULL_FILL = Some H_FILLED"
  "hedge_table H_WORKING TIMEOUT_WORKING = Some H_REPRICE"
  "hedge_table H_WORKING RISK_TRIP = Some H_CANCEL"
  "hedge_table H_WORKING MANUAL_CANCEL = Some H_CANCEL"
  "hedge_table H_WORKING H_BROKER_DOWN = Some H_CANCEL"
  "hedge_table H_PARTIAL PLAN_SEND = Some H_SEND"
  "hedge_table H_PARTIAL PLAN_SKIP = Some H_EXEC_IDLE"
  "hedge_table H_REPRICE PLACE_ORDER = Some H_WAIT_ACK"
  "hedge_table H_CANCEL CANCEL_SENT = Some H_RECOVER"
  "hedge_table H_RECOVER POSITIONS_RESYNCED = Some H_EXEC_IDLE"
  "hedge_table H_RECOVER CANNOT_RECOVER = Some H_FAIL"
  "hedge_table H_FAIL TRY_RESYNC = Some H_RECOVER"
  "hedge_table H_FILLED RECV_TARGET = Some H_PLAN"
  by (simp_all add: hedge_table_def hedge_transitions_def)

lemma hedge_table_Some:
  "hedge_table s e = Some s' \<Longrightarrow> ((s, e), s') \<in> set hedge_transitions"
  by (simp add: hedge_table_def map_of_SomeD)

interpretation hfsm: table_machine h_state lookup_and_apply hedge_table
  by unfold_locales (auto simp: lookup_and_apply_def hedge_transition_def Let_def)

section \<open>What each operation does\<close>

lemma hedge_transition_simps [simp]:
  "h_state (hedge_transition m s e) = s"
  "h_current_target (hedge_transition m s e) = h_current_target m"
  "h_need_shares (hedge_transition m s e) = h_need_shares m"
  "h_connected (hedge_transition m s e) = h_connected m"
  "h_min_hedge_shares (hedge_transition m s e) = h_min_hedge_shares m"
  "h_on_transition (hedge_transition m s e) = h_on_transition m"
  by (simp_all add: hedge_transition_def Let_def)

lemma lookup_and_apply_hit [simp]:
  "hedge_table (h_state m) e = Some s \<Longrightarrow> lookup_and_apply m e = (True, hedge_transition m s e)"
  by (simp add: lookup_and_apply_def)

lemmas hedge_op_defs [fsm_simps] =
  on_cancel_sent_def on_target_def on_try_resync_def on_plan_decide_def on_partial_replan_def
  on_cannot_recover_def on_positions_resynced_def on_order_placed_def on_ack_ok_def on_ack_reject_def
  on_timeout_ack_def on_broker_down_def on_timeout_working_def on_partial_fill_def on_full_fill_def
  on_manual_cancel_def on_risk_trip_def hedge_set_connected_def can_place_order_def

text \<open>
  In every state of the machine at rest, and only there, no target is stored: \<open>EXEC_IDLE\<close> and \<open>FILLED\<close>
  have none, every other state works on one.
\<close>

definition target_inv :: "hedge_fsm \<Rightarrow> bool" where
  "target_inv m \<longleftrightarrow> (h_current_target m = None \<longleftrightarrow> can_place_order m)"

lemma hedge_step_target_inv: "target_inv m \<Longrightarrow> target_inv (hedge_step m c)"
  by (cases c) (auto simp: hedge_step_def target_inv_def hedge_op_defs)

interpretation hedge_target: invariant_machine hedge_step target_inv
  by unfold_locales (rule hedge_step_target_inv)

section \<open>The observer's log\<close>

text \<open>
  The calls to the observer, read as a path through the table: each call starts where the previous one
  ended and is an entry of the table.
\<close>

fun log_path ::
  "hedge_state \<Rightarrow> (hedge_state \<times> hedge_state \<times> hedge_event) list \<Rightarrow> hedge_state option" where
  "log_path s [] = Some s"
| "log_path s ((a, b, e) # l) =
     (if a = s \<and> hedge_table a e = Some b then log_path b l else None)"

lemma log_path_append:
  "log_path s (l @ l') = (case log_path s l of None \<Rightarrow> None | Some s' \<Rightarrow> log_path s' l')"
  by (induction s l rule: log_path.induct) auto

definition count_event :: "hedge_event \<Rightarrow> (hedge_state \<times> hedge_state \<times> hedge_event) list \<Rightarrow> nat" where
  "count_event e l = length (filter (\<lambda>(_, _, e'). e' = e) l)"

lemma count_event_simps [simp]:
  "count_event e [] = 0"
  "count_event e (l @ l') = count_event e l + count_event e l'"
  "count_event e [(a, b, e')] = (if e' = e then 1 else 0)"
  by (simp_all add: count_event_def)

text \<open>
  Every order that is placed answers to a decision: one \<open>PLAN_SEND\<close>, or one working-order timeout that
  asks for a new price. The balance is one ahead exactly while an order is about to be placed.
\<close>

definition log_inv :: "hedge_fsm \<Rightarrow> bool" where
  "log_inv m \<longleftrightarrow>
     h_on_transition m
     \<and> log_path H_EXEC_IDLE (h_calls m) = Some (h_state m)
     \<and> count_event PLAN_SEND (h_calls m) + count_event TIMEOUT_WORKING (h_calls m)
        = count_event PLACE_ORDER (h_calls m) + (if h_state m \<in> {H_SEND, H_REPRICE} then 1 else 0)"

lemma log_inv_transition:
  assumes "log_inv m" and "hedge_table (h_state m) e = Some s"
  shows "log_inv (hedge_transition m s e)"
proof -
  have "((h_state m, e), s) \<in> set hedge_transitions" using assms(2) by (rule hedge_table_Some)
  with assms show ?thesis
    by (auto simp: log_inv_def hedge_transition_def Let_def log_path_append hedge_transitions_def)
qed

lemma log_inv_frame:
  "log_inv (m\<lparr>h_current_target := t, h_need_shares := n\<rparr>) = log_inv m"
  "log_inv (m\<lparr>h_current_target := t\<rparr>) = log_inv m"
  "log_inv (m\<lparr>h_connected := c\<rparr>) = log_inv m"
  by (simp_all add: log_inv_def)

lemma log_inv_lookup: "log_inv m \<Longrightarrow> log_inv (snd (lookup_and_apply m e))"
  by (auto simp: lookup_and_apply_def intro: log_inv_transition split: option.split)

lemma hedge_step_log_inv: "log_inv m \<Longrightarrow> log_inv (hedge_step m c)"
  by (cases c) (auto simp: hedge_step_def hedge_op_defs log_inv_frame
      simp del: lookup_and_apply_hit intro!: log_inv_lookup)

interpretation hedge_log: invariant_machine hedge_step log_inv
  by unfold_locales (rule hedge_step_log_inv)

section \<open>Properties\<close>

text \<open>
  C14. Whatever calls a client makes on a new hedge machine, a target is stored exactly while the
  machine is at work: none in \<open>EXEC_IDLE\<close> and \<open>FILLED\<close>, where a new target is accepted, and one in
  every other state.
\<close>

theorem hedge_target_stored_iff_busy:
  "h_current_target (run_events hedge_step (hedge_init n cb) calls) = None
   \<longleftrightarrow> can_place_order (run_events hedge_step (hedge_init n cb) calls)"
proof -
  have "target_inv (hedge_init n cb)" by (simp add: target_inv_def hedge_init_def can_place_order_def)
  then have "target_inv (run_events hedge_step (hedge_init n cb) calls)" by (rule hedge_target.inv_run)
  then show ?thesis by (simp add: target_inv_def)
qed

text \<open>
  No order without a decision: in every history of calls, the log of the observer is a path of the
  transition table from \<open>EXEC_IDLE\<close> to the current state, and the placed orders never outnumber the
  plans to send plus the working-order timeouts that ask for a new price.
\<close>

theorem hedge_orders_answer_to_decisions:
  "let m = run_events hedge_step (hedge_init n True) calls
   in log_path H_EXEC_IDLE (h_calls m) = Some (h_state m)
      \<and> count_event PLACE_ORDER (h_calls m)
         \<le> count_event PLAN_SEND (h_calls m) + count_event TIMEOUT_WORKING (h_calls m)"
proof -
  have "log_inv (hedge_init n True)" by (simp add: log_inv_def hedge_init_def)
  then have "log_inv (run_events hedge_step (hedge_init n True) calls)" by (rule hedge_log.inv_run)
  then show ?thesis by (simp add: log_inv_def Let_def)
qed

text \<open>
  A target in work is never replaced: from any state that holds a target, whatever the call and
  whatever its arguments, the machine afterwards holds the same target or none.
\<close>

theorem hedge_target_not_replaced:
  assumes "target_inv m" and "h_current_target m = Some t"
  shows "h_current_target (hedge_step m c) \<in> {Some t, None}
    \<and> (h_current_target (hedge_step m c) = None \<longrightarrow> can_place_order (hedge_step m c))"
proof -
  have "target_inv (hedge_step m c)" using assms(1) by (rule hedge_step_target_inv)
  moreover have "h_current_target (hedge_step m c) \<in> {Some t, None}"
    using assms by (cases c) (auto simp: hedge_step_def target_inv_def hedge_op_defs)
  ultimately show ?thesis by (simp add: target_inv_def)
qed

fun recovery_plan :: "hedge_state \<Rightarrow> hedge_call list" where
  "recovery_plan H_EXEC_IDLE = []"
| "recovery_plan H_PLAN = [PlanDecide False]"
| "recovery_plan H_SEND = [OrderPlaced, AckReject, TryResync, PositionsResynced]"
| "recovery_plan H_WAIT_ACK = [AckReject, TryResync, PositionsResynced]"
| "recovery_plan H_WORKING = [ManualCancel, CancelSent, PositionsResynced]"
| "recovery_plan H_PARTIAL = [PartialReplan False]"
| "recovery_plan H_REPRICE = [OrderPlaced, AckReject, TryResync, PositionsResynced]"
| "recovery_plan H_CANCEL = [CancelSent, PositionsResynced]"
| "recovery_plan H_RECOVER = [PositionsResynced]"
| "recovery_plan H_FILLED = []"
| "recovery_plan H_FAIL = [TryResync, PositionsResynced]"

fun all_accepted :: "hedge_fsm \<Rightarrow> hedge_call list \<Rightarrow> bool" where
  "all_accepted m [] = True"
| "all_accepted m (c # cs) = (fst (hedge_apply m c) \<and> all_accepted (hedge_step m c) cs)"

text \<open>
  The machine is never stuck: from every state some calls of at most four bring it to \<open>EXEC_IDLE\<close>
  with no target stored, every one of them accepted. The sequence depends on the state only.
\<close>

theorem hedge_can_always_recover:
  "all_accepted m (recovery_plan (h_state m))
   \<and> can_place_order (run_events hedge_step m (recovery_plan (h_state m)))
   \<and> length (recovery_plan (h_state m)) \<le> 4"
  by (cases "h_state m") (simp_all add: hedge_step_def hedge_op_defs)

text \<open>
  The execution state reported to the composite state is idle exactly when the broker is connected
  and the machine accepts a new target, so a hedge is only planned when it can be taken.
\<close>

theorem effective_idle_iff_ready:
  "effective_execution_state m = E_IDLE \<longleftrightarrow> h_connected m \<and> can_place_order m"
  by (cases "h_state m")
    (auto simp: effective_execution_state_def to_execution_state_def can_place_order_def)

text \<open>A machine that waits for an acknowledgement keeps its target when another one arrives.\<close>

definition sample_target :: "int \<Rightarrow> target_position_event" where
  "sample_target n = \<lparr>tp_target_shares = n, tp_reason = ''delta_hedge'', tp_ts = Fin 0, tp_trace_id = None,
     tp_side = ''SELL'', tp_quantity = 30\<rparr>"

definition sample_waiting :: hedge_fsm where
  "sample_waiting = run_events hedge_step (hedge_init 10 True)
     [Target (sample_target (- 30)) 0, PlanDecide True, OrderPlaced]"

lemma hedge_target_not_replaced_witness:
  "h_current_target (hedge_step sample_waiting (Target (sample_target 500) 0))
   \<in> {Some (sample_target (- 30)), None}"
proof -
  have "target_inv (hedge_init 10 True)" by (simp add: target_inv_def hedge_init_def can_place_order_def)
  then have "target_inv sample_waiting" unfolding sample_waiting_def by (rule hedge_target.inv_run)
  moreover have "h_current_target sample_waiting = Some (sample_target (- 30))" by code_simp
  ultimately show ?thesis using hedge_target_not_replaced by blast
qed

end
