(* ===== verification/OrderExec.thy ===== *)
theory OrderExec imports HedgeFsm begin

text \<open>
  The order manager, \<open>execution/order_manager.py\<close>: it reports the execution state, from the hedge
  machine when one is attached and from its own fields otherwise. The attached machine is a shared
  object; the operations take and return it next to the manager's own fields.
\<close>

record order_manager =
  om_execution_state :: execution_state
  om_connected :: bool
  om_broker_error :: "string option"
  om_has_hedge_fsm :: bool

definition om_init :: order_manager where
  "om_init = \<lparr>om_execution_state = E_IDLE, om_connected = True, om_broker_error = None,
              om_has_hedge_fsm = False\<rparr>"

definition om_set_execution_state :: "order_manager \<Rightarrow> execution_state \<Rightarrow> order_manager" where
  "om_set_execution_state om e = om\<lparr>om_execution_state := e\<rparr>"

definition om_set_hedge_fsm :: "order_manager \<Rightarrow> bool \<Rightarrow> order_manager" where
  "om_set_hedge_fsm om present = om\<lparr>om_has_hedge_fsm := present\<rparr>"

definition om_set_connected ::
  "order_manager \<Rightarrow> hedge_fsm \<Rightarrow> bool \<Rightarrow> order_manager \<times> hedge_fsm" where
  "om_set_connected om m c =
     (om\<lparr>om_connected := c\<rparr>, if om_has_hedge_fsm om then hedge_set_connected m c else m)"

definition om_set_broker_error :: "order_manager \<Rightarrow> string option \<Rightarrow> order_manager" where
  "om_set_broker_error om msg = om\<lparr>om_broker_error := msg\<rparr>"

definition effective_e_state :: "order_manager \<Rightarrow> hedge_fsm \<Rightarrow> execution_state" where
  "effective_e_state om m =
     (if om_has_hedge_fsm om then effective_execution_state m
      else if \<not> om_connected om then E_DISCONNECTED
      else case om_broker_error om of
             Some msg \<Rightarrow> if msg \<noteq> [] then E_BROKER_ERROR else om_execution_state om
           | None \<Rightarrow> om_execution_state om)"

lemma om_disconnect_visible:
  "effective_e_state (fst (om_set_connected om m False)) (snd (om_set_connected om m False))
   = E_DISCONNECTED"
  by (simp add: om_set_connected_def effective_e_state_def effective_execution_state_def
      to_execution_state_def hedge_set_connected_def)

end
