(* ===== verification/Classifier.thy ===== *)
theory Classifier imports Composite RuntimeStore OrderExec begin

text \<open>
  The state classifier, \<open>core/state/classifier.py\<close>: raw runtime objects and the state-space section of
  the configuration to the six discrete dimensions. Thresholds come from untyped configuration, so a
  comparison with one may raise. Every reading of the clock is an argument; the C library's \<open>sqrt\<close> and
  square (\<open>**\<close>) are parameters.
\<close>

section \<open>Configuration with defaults\<close>

definition classifier_defaults :: pydict where
  "classifier_defaults =
     [(''delta'', VDict [(''epsilon_band'', VFloat (Fin 10)),
                         (''threshold_hedge_shares'', VFloat (Fin 25)),
                         (''max_delta_limit'', VFloat (Fin 500))]),
      (''market'', VDict [(''vol_window_min'', VInt 5),
                          (''stale_ts_threshold_ms'', VFloat (Fin 5000))]),
      (''liquidity'', VDict [(''wide_spread_pct'', VFloat (rnd (1 / 10))),
                             (''extreme_spread_pct'', VFloat (Fin (1 / 2)))]),
      (''system'', VDict [(''data_lag_threshold_ms'', VFloat (Fin 1000))])]"

definition cfg_section :: "pydict \<Rightarrow> string \<Rightarrow> pyval res" where
  "cfg_section config section =
     (let top = dget config section VNone
      in if truthy top then Inr top
         else vget (py_or (dget config ''state_space'' VNone) (VDict [])) section (VDict []))"

definition classifier_get_cfg :: "pydict \<Rightarrow> string \<Rightarrow> string \<Rightarrow> pyval \<Rightarrow> pyval res" where
  "classifier_get_cfg config section key dflt =
     rbind (cfg_section config section) (\<lambda>sec.
       if is_dict sec
       then rbind (vget (dget classifier_defaults section (VDict [])) key dflt) (vget sec key)
       else Inr dflt)"

section \<open>The dimensions\<close>

definition classify_o :: "'leg greeks \<Rightarrow> option_position_state" where
  "classify_o g =
     (if \<not> gk_valid g then O_NONE
      else if gk_legs g = [] then O_NONE
      else if Fin 0 < gk_gamma g then O_LONG_GAMMA
      else if gk_gamma g < Fin 0 then O_SHORT_GAMMA
      else O_NONE)"

definition classify_d :: "fl \<Rightarrow> bool \<Rightarrow> pydict \<Rightarrow> delta_deviation_state res" where
  "classify_d net_delta greeks_valid config =
     (if \<not> greeks_valid then Inr D_INVALID
      else
        rbind (classifier_get_cfg config ''delta'' ''epsilon_band'' (VFloat (Fin 10))) (\<lambda>epsilon.
        rbind (cfg_section config ''delta'') (\<lambda>sec.
        rbind (vget sec ''hedge_threshold'' (VFloat (Fin 25))) (\<lambda>legacy.
        rbind (vget sec ''threshold_hedge_shares'' legacy) (\<lambda>threshold.
        rbind (classifier_get_cfg config ''delta'' ''max_delta_limit'' (VFloat (Fin 500))) (\<lambda>max_limit.
        let abs_d = fl_abs net_delta in
        rbind (num_le abs_d epsilon) (\<lambda>in_band.
          if in_band then Inr D_IN_BAND
          else rbind (num_ge abs_d max_limit) (\<lambda>force.
            if force then Inr D_FORCE_HEDGE
            else rbind (num_ge abs_d threshold) (\<lambda>need.
              if need then Inr D_HEDGE_NEEDED else Inr D_MINOR)))))))))"

definition fl_const :: "rat \<Rightarrow> fl" where
  "fl_const q = rnd q"

fun fl_sum :: "fl \<Rightarrow> fl list \<Rightarrow> fl" where
  "fl_sum acc [] = acc"
| "fl_sum acc (x # xs) = fl_sum (acc + x) xs"

fun map_res :: "('a \<Rightarrow> 'b res) \<Rightarrow> 'a list \<Rightarrow> 'b list res" where
  "map_res f [] = Inr []"
| "map_res f (x # xs) = rbind (f x) (\<lambda>y. rbind (map_res f xs) (\<lambda>ys. Inr (y # ys)))"

text \<open>The price-history branch: volatility and slope of at least two prices.\<close>

definition regime_of_history :: "(fl \<Rightarrow> fl res) \<Rightarrow> (fl \<Rightarrow> fl res) \<Rightarrow> fl list \<Rightarrow> market_regime_state res" where
  "regime_of_history sqrt_fn square_fn prices =
     (let n = int (length prices) in
      rbind (fl_of_int n) (\<lambda>fn.
      rbind (fl_div (fl_sum (Fin 0) prices) fn) (\<lambda>mean.
      rbind (map_res (\<lambda>x. square_fn (x - mean)) prices) (\<lambda>sqs.
      rbind (fl_of_int (max (n - 1) 1)) (\<lambda>fm.
      rbind (fl_div (fl_sum (Fin 0) sqs) fm) (\<lambda>var.
      rbind (if fl_truthy mean then rbind (sqrt_fn var) (\<lambda>sd. fl_div sd mean) else Inr (Fin 0)) (\<lambda>vol.
      rbind (fl_div (last prices - hd prices) fn) (\<lambda>slope.
        if fl_const (2 / 100) < vol \<and> fl_abs slope < fl_const (1 / 1000) then Inr M_CHOPPY_HIGHVOL
        else if fl_const (5 / 1000) < fl_abs slope then Inr M_TREND
        else if vol < fl_const (5 / 1000) then Inr M_QUIET
        else Inr M_NORMAL))))))))"

definition classify_m ::
  "(fl \<Rightarrow> fl res) \<Rightarrow> (fl \<Rightarrow> fl res) \<Rightarrow> fl \<Rightarrow> market_data \<Rightarrow> pydict \<Rightarrow> fl list option
   \<Rightarrow> market_regime_state res" where
  "classify_m sqrt_fn square_fn now md config history =
     rbind (classifier_get_cfg config ''market'' ''stale_ts_threshold_ms'' (VFloat (Fin 5000))) (\<lambda>stale_ms.
     rbind (case md_last_ts md of
              None \<Rightarrow> Inr False
            | Some ts \<Rightarrow> num_gt ((now - ts) * Fin 1000) stale_ms) (\<lambda>stale.
       if stale then Inr M_STALE
       else case history of
              None \<Rightarrow> Inr M_NORMAL
            | Some prices \<Rightarrow>
                if 2 \<le> length prices then regime_of_history sqrt_fn square_fn prices
                else Inr M_NORMAL))"

definition classify_l :: "fl option \<Rightarrow> pydict \<Rightarrow> liquidity_state res" where
  "classify_l spread_pct config =
     (case spread_pct of
        None \<Rightarrow> Inr L_NO_QUOTE
      | Some sp \<Rightarrow>
          rbind (classifier_get_cfg config ''liquidity'' ''wide_spread_pct'' (VFloat (fl_const (1 / 10)))) (\<lambda>wide.
          rbind (classifier_get_cfg config ''liquidity'' ''extreme_spread_pct'' (VFloat (Fin (1 / 2)))) (\<lambda>extreme.
          rbind (num_ge sp extreme) (\<lambda>is_extreme.
            if is_extreme then Inr L_EXTREME_WIDE
            else rbind (num_ge sp wide) (\<lambda>is_wide.
              if is_wide then Inr L_WIDE else Inr L_NORMAL)))))"

definition classify_e :: "order_manager \<Rightarrow> hedge_fsm \<Rightarrow> execution_state" where
  "classify_e om hf = effective_e_state om hf"

definition classify_s :: "bool \<Rightarrow> fl option \<Rightarrow> bool \<Rightarrow> pydict \<Rightarrow> system_health_state res" where
  "classify_s greeks_valid data_lag_ms risk_halt config =
     (if risk_halt then Inr S_RISK_HALT
      else if \<not> greeks_valid then Inr S_GREEKS_BAD
      else rbind (classifier_get_cfg config ''system'' ''data_lag_threshold_ms'' (VFloat (Fin 1000))) (\<lambda>lag.
           rbind (case data_lag_ms of None \<Rightarrow> Inr False | Some d \<Rightarrow> num_gt d lag) (\<lambda>late.
             Inr (if late then S_DATA_LAG else S_OK))))"

section \<open>The whole classification\<close>

record classify_clock =
  clk_regime :: fl
  clk_lag :: fl
  clk_ts :: fl

definition classify ::
  "(fl \<Rightarrow> fl res) \<Rightarrow> (fl \<Rightarrow> fl res) \<Rightarrow> classify_clock \<Rightarrow> int \<Rightarrow> 'pos store \<Rightarrow> market_data
   \<Rightarrow> 'leg greeks \<Rightarrow> order_manager \<Rightarrow> hedge_fsm \<Rightarrow> fl option \<Rightarrow> fl option \<Rightarrow> fl option \<Rightarrow> bool
   \<Rightarrow> pydict \<Rightarrow> fl list option \<Rightarrow> composite_state res" where
  "classify sqrt_fn square_fn clk stock_pos st md g om hf last_hedge_price last_hedge_ts data_lag_ms
     risk_halt config history =
     (let ost = classify_o g; greeks_valid = gk_valid g; port_delta = gk_delta g in
      rbind (fl_of_int stock_pos) (\<lambda>fstock.
      rbind (classify_d port_delta greeks_valid config) (\<lambda>dst.
      rbind (classify_m sqrt_fn square_fn (clk_regime clk) md config history) (\<lambda>mst.
      rbind (md_spread_pct st) (\<lambda>spread.
      rbind (classify_l spread config) (\<lambda>lst.
      rbind (classify_s greeks_valid data_lag_ms risk_halt config) (\<lambda>sst.
        Inr \<lparr>cs_O = ost, cs_D = dst, cs_M = mst, cs_L = lst, cs_E = classify_e om hf, cs_S = sst,
             cs_net_delta = port_delta, cs_option_delta = port_delta - fstock, cs_stock_pos = stock_pos,
             cs_last_hedge_price = last_hedge_price, cs_last_hedge_ts = last_hedge_ts,
             cs_spread = spread,
             cs_data_lag_ms =
               (case data_lag_ms of
                  Some d \<Rightarrow> Some d
                | None \<Rightarrow> map_option (\<lambda>ts. (clk_lag clk - ts) * Fin 1000) (md_last_ts md)),
             cs_greeks_valid = greeks_valid, cs_ts = clk_ts clk\<rparr>)))))))"

section \<open>Thresholds\<close>

text \<open>How urgent a deviation is; the two states that ask for nothing share the lowest rank.\<close>

fun deviation_rank :: "delta_deviation_state \<Rightarrow> nat" where
  "deviation_rank D_INVALID = 0"
| "deviation_rank D_IN_BAND = 0"
| "deviation_rank D_MINOR = 1"
| "deviation_rank D_HEDGE_NEEDED = 2"
| "deviation_rank D_FORCE_HEDGE = 3"

text \<open>The decision on a given size of the deviation, the thresholds being read from the configuration.\<close>

definition band_of :: "pyval \<Rightarrow> pyval \<Rightarrow> pyval \<Rightarrow> fl \<Rightarrow> delta_deviation_state res" where
  "band_of epsilon threshold max_limit x =
     rbind (num_le x epsilon) (\<lambda>in_band.
       if in_band then Inr D_IN_BAND
       else rbind (num_ge x max_limit) (\<lambda>force.
         if force then Inr D_FORCE_HEDGE
         else rbind (num_ge x threshold) (\<lambda>need.
           if need then Inr D_HEDGE_NEEDED else Inr D_MINOR)))"

definition delta_thresholds :: "pydict \<Rightarrow> (pyval \<times> pyval \<times> pyval) res" where
  "delta_thresholds config =
     rbind (classifier_get_cfg config ''delta'' ''epsilon_band'' (VFloat (Fin 10))) (\<lambda>epsilon.
     rbind (cfg_section config ''delta'') (\<lambda>sec.
     rbind (vget sec ''hedge_threshold'' (VFloat (Fin 25))) (\<lambda>legacy.
     rbind (vget sec ''threshold_hedge_shares'' legacy) (\<lambda>threshold.
     rbind (classifier_get_cfg config ''delta'' ''max_delta_limit'' (VFloat (Fin 500))) (\<lambda>max_limit.
       Inr (epsilon, threshold, max_limit))))))"

lemma classify_d_valid:
  "classify_d x True config =
     rbind (delta_thresholds config) (\<lambda>(e, t, m). band_of e t m (fl_abs x))"
  by (simp add: classify_d_def delta_thresholds_def band_of_def rbind_assoc Let_def)

lemma band_of_mono:
  assumes "band_of e t m x = Inr a" and "band_of e t m y = Inr b" and "x \<le> y"
  shows "deviation_rank a \<le> deviation_rank b"
proof (cases "num_of e")
  case None
  with assms(1) show ?thesis by (simp add: band_of_def num_cmp_defs)
next
  case (Some e')
  show ?thesis
    using assms fl_le_trans [of x y e'] fl_le_trans [of _ x y]
    by (auto simp: band_of_def num_cmp_defs Some split: option.splits if_splits)
qed

section \<open>Properties\<close>

text \<open>
  A larger deviation is never classified as less urgent: under one configuration, valid or not, the
  rank of the deviation state grows with the absolute net delta whenever both classifications return.
\<close>

theorem deviation_grows_with_delta:
  assumes "classify_d x True config = Inr a" and "classify_d y True config = Inr b"
    and "fl_abs x \<le> fl_abs y"
  shows "deviation_rank a \<le> deviation_rank b"
  using assms by (auto simp: classify_d_valid rbind_Inr_iff intro: band_of_mono)

text \<open>
  With no configuration the deviation state is decided by the documented thresholds: in band up to
  10 shares, minor below 25, hedge needed from 25, forced from 500, and invalid exactly without Greeks.
  A delta that is not a number counts as minor.
\<close>

theorem deviation_on_defaults:
  "classify_d x valid [] =
     Inr (if \<not> valid then D_INVALID
          else if fl_abs x \<le> Fin 10 then D_IN_BAND
          else if Fin 500 \<le> fl_abs x then D_FORCE_HEDGE
          else if Fin 25 \<le> fl_abs x then D_HEDGE_NEEDED
          else D_MINOR)"
  by (simp add: classify_d_def cfg_section_def classifier_get_cfg_def py_or_def num_cmp_defs
      classifier_defaults_def Let_def)

text \<open>
  Bad Greeks close every way to a hedge: a composite state classified with invalid Greeks has no
  option position, an invalid deviation, and a health that is not \<open>OK\<close>.
\<close>

theorem invalid_greeks_classified_unsafe:
  assumes "classify sqrt_fn square_fn clk stock_pos st md g om hf lhp lht lag halt config history = Inr cs"
    and "\<not> gk_valid g"
  shows "cs_O cs = O_NONE \<and> cs_D cs = D_INVALID
    \<and> cs_S cs = (if halt then S_RISK_HALT else S_GREEKS_BAD) \<and> \<not> cs_greeks_valid cs"
  using assms
  by (auto simp: classify_def Let_def rbind_Inr_iff classify_o_def classify_d_def classify_s_def
      split: if_splits)

section \<open>Witnesses\<close>

lemma deviation_grows_with_delta_witness:
  "deviation_rank D_HEDGE_NEEDED \<le> deviation_rank D_FORCE_HEDGE
   \<and> classify_d (Fin 30) True [] = Inr D_HEDGE_NEEDED \<and> classify_d (Fin (- 600)) True [] = Inr D_FORCE_HEDGE"
proof -
  have a: "classify_d (Fin 30) True [] = Inr D_HEDGE_NEEDED"
    and b: "classify_d (Fin (- 600)) True [] = Inr D_FORCE_HEDGE"
    by (simp_all add: classify_d_valid delta_thresholds_def band_of_def cfg_section_def
        classifier_get_cfg_def py_or_def num_cmp_defs classifier_defaults_def)
  then show ?thesis using deviation_grows_with_delta [OF a b] by simp
qed

definition sample_greeks :: "bool \<Rightarrow> nat greeks" where
  "sample_greeks valid =
     \<lparr>gk_legs = [1], gk_stock_shares = 0, gk_spot = Fin 100, gk_r = VInt 0, gk_vol = VInt 1,
      gk_delta = NaN, gk_gamma = Fin 1, gk_valid = valid\<rparr>"

lemma invalid_greeks_classified_unsafe_witness:
  "\<exists>cs. classify Inr Inr \<lparr>clk_regime = Fin 0, clk_lag = Fin 0, clk_ts = Fin 0\<rparr> 0 (store_init :: unit store)
       \<lparr>md_last_ts = None\<rparr> (sample_greeks False) om_init (hedge_init 10 True) None None None False [] None
     = Inr cs \<and> cs_O cs = O_NONE \<and> cs_S cs = S_GREEKS_BAD"
proof -
  obtain cs where cs: "classify Inr Inr \<lparr>clk_regime = Fin 0, clk_lag = Fin 0, clk_ts = Fin 0\<rparr> 0 (store_init :: unit store)
       \<lparr>md_last_ts = None\<rparr> (sample_greeks False) om_init (hedge_init 10 True) None None None False [] None
     = Inr cs"
    by (simp add: classify_def classify_d_def classify_m_def classify_l_def classify_s_def
        classifier_get_cfg_def cfg_section_def classifier_defaults_def py_or_def sample_greeks_def
        fl_of_int_small md_spread_pct_def get_spread_pct_def store_init_def Let_def)
  have "\<not> gk_valid (sample_greeks False)" by (simp add: sample_greeks_def)
  from cs invalid_greeks_classified_unsafe [OF cs this] show ?thesis by simp
qed

end
