(* ===== verification/Strategy.thy ===== *)
theory Strategy imports Classifier ExecGuard begin

text \<open>
  The gamma scalper and the hedge gates, \<open>strategy/gamma_scalper.py\<close> and \<open>strategy/hedge_gate.py\<close>: from
  the portfolio delta to a target position and an intended order, and from an intent to an approved one.
  Shares are converted to floats as Python does in \<open>float - int\<close>.
\<close>

section \<open>Data\<close>

record hedge_order =
  ho_side :: string
  ho_quantity :: int

record target_position =
  tgt_shares :: int
  tgt_reason :: string
  tgt_ts :: fl
  tgt_trace_id :: "string option"

record hedge_intent =
  hi_target_shares :: int
  hi_side :: string
  hi_quantity :: int
  hi_force_hedge :: bool

section \<open>Gamma scalper\<close>

definition compute_target_position :: "fl \<Rightarrow> int \<Rightarrow> int res" where
  "compute_target_position portfolio_delta stock_shares =
     rbind (fl_of_int stock_shares) (\<lambda>stock.
       let opt_delta_shares = portfolio_delta - stock in int_round (- opt_delta_shares))"

definition compute_target_and_need :: "fl \<Rightarrow> int \<Rightarrow> (fl \<times> fl) res" where
  "compute_target_and_need portfolio_delta stock_shares =
     rbind (fl_of_int stock_shares) (\<lambda>stock.
       let opt_delta_shares = portfolio_delta - stock;
           target_shares = - opt_delta_shares;
           need = target_shares - stock
       in Inr (target_shares, need))"

text \<open>Both routines size an order in the same way: rounded need, capped, none when not positive.\<close>

definition order_qty :: "fl \<Rightarrow> int \<Rightarrow> int option res" where
  "order_qty need max_qty =
     rmap (\<lambda>n. let qty = min n max_qty in if qty \<le> 0 then None else Some qty) (int_round need)"

definition gamma_scalper_hedge :: "fl \<Rightarrow> int \<Rightarrow> fl \<Rightarrow> int \<Rightarrow> hedge_order option res" where
  "gamma_scalper_hedge portfolio_delta stock_shares threshold max_qty =
     rbind (compute_target_and_need portfolio_delta stock_shares) (\<lambda>(_, need).
       if threshold < need
         then rmap (map_option (\<lambda>q. \<lparr>ho_side = ''BUY'', ho_quantity = q\<rparr>)) (order_qty need max_qty)
       else if need < - threshold
         then rmap (map_option (\<lambda>q. \<lparr>ho_side = ''SELL'', ho_quantity = q\<rparr>)) (order_qty (- need) max_qty)
       else Inr None)"

text \<open>The optional configuration of the intent routine: overrides of the two keyword arguments.\<close>

record scalper_config =
  sc_threshold :: "fl option"
  sc_max_qty :: "int option"

definition gamma_scalper_intent ::
  "fl \<Rightarrow> int \<Rightarrow> fl \<Rightarrow> int \<Rightarrow> scalper_config option \<Rightarrow> hedge_intent option res" where
  "gamma_scalper_intent portfolio_delta stock_shares threshold_hedge_shares max_hedge_shares config =
     (let threshold = keep threshold_hedge_shares (Option.bind config sc_threshold);
          max_qty = keep max_hedge_shares (Option.bind config sc_max_qty)
      in rbind (compute_target_and_need portfolio_delta stock_shares) (\<lambda>(_, need).
         rbind (compute_target_position portfolio_delta stock_shares) (\<lambda>target.
           if threshold < need
             then rmap (map_option (\<lambda>q. \<lparr>hi_target_shares = target, hi_side = ''BUY'',
                                         hi_quantity = q, hi_force_hedge = False\<rparr>))
                    (order_qty need max_qty)
           else if need < - threshold
             then rmap (map_option (\<lambda>q. \<lparr>hi_target_shares = target, hi_side = ''SELL'',
                                         hi_quantity = q, hi_force_hedge = False\<rparr>))
                    (order_qty (- need) max_qty)
           else Inr None)))"

section \<open>Hedge gates\<close>

definition should_output_target :: "composite_state \<Rightarrow> bool" where
  "should_output_target cs =
     (if cs_L cs \<in> {L_EXTREME_WIDE, L_NO_QUOTE} then False
      else if cs_S cs \<noteq> S_OK then False
      else if cs_E cs \<noteq> E_IDLE then False
      else if cs_O cs \<notin> {O_LONG_GAMMA, O_SHORT_GAMMA} then False
      else if cs_D cs \<notin> {D_HEDGE_NEEDED, D_FORCE_HEDGE} then False
      else True)"

definition gate_request ::
  "fl \<Rightarrow> hedge_intent \<Rightarrow> composite_state \<Rightarrow> fl option \<Rightarrow> fl option \<Rightarrow> fl option \<Rightarrow> hedge_request" where
  "gate_request now intent cs spot last_hedge_price spread_pct =
     \<lparr>rq_now = now, rq_position = cs_stock_pos cs, rq_side = hi_side intent,
      rq_quantity = hi_quantity intent, rq_spot = spot,
      rq_last_hedge_price = or_else fl_truthy last_hedge_price (cs_last_hedge_price cs),
      rq_spread_pct = or_else fl_truthy spread_pct (cs_spread cs),
      rq_force = (hi_force_hedge intent \<or> cs_D cs = D_FORCE_HEDGE)\<rparr>"

definition apply_hedge_gates ::
  "wall_clock \<Rightarrow> fl \<Rightarrow> hedge_intent \<Rightarrow> composite_state \<Rightarrow> exec_guard \<Rightarrow> fl option \<Rightarrow> fl option \<Rightarrow> fl option
   \<Rightarrow> fl option \<Rightarrow> int \<Rightarrow> exec_guard \<times> hedge_intent option res" where
  "apply_hedge_gates wc clock intent cs guard now_ts spot last_hedge_price spread_pct min_hedge_shares =
     (let now = (case or_else fl_truthy now_ts None of Some t \<Rightarrow> t | None \<Rightarrow> clock)
      in if hi_quantity intent < min_hedge_shares then (guard, Inr None)
         else let (guard', answer) =
                    allow_hedge wc guard (gate_request now intent cs spot last_hedge_price spread_pct)
              in (guard', rmap (\<lambda>(allowed, _). if allowed then Some intent else None) answer))"

section \<open>Sizing\<close>

lemma round_half_even_pos_imp: "1 \<le> round_half_even x \<Longrightarrow> 1 / 2 < x"
proof (rule ccontr)
  assume r: "1 \<le> round_half_even x" and "\<not> 1 / 2 < x"
  then have "round_half_even x \<le> round_half_even (1 / 2)" by (intro round_half_even_mono) simp
  moreover have "\<lfloor>1 / 2 :: rat\<rfloor> = 0" by (rule floor_unique) simp_all
  then have "round_half_even (1 / 2) = 0" by (simp add: round_half_even_def)
  ultimately show False using r by simp
qed

lemma order_qty_Some:
  assumes "order_qty (Fin n) max_qty = Inr (Some q)"
  shows "1 \<le> q" "q \<le> max_qty" "1 / 2 < n" "of_int q \<le> n + 1 / 2"
proof -
  from assms have q: "q = min (round_half_even n) max_qty" and pos: "1 \<le> q"
    by (auto simp: order_qty_def Let_def split: if_splits)
  show "1 \<le> q" "q \<le> max_qty" using q pos by simp_all
  from q pos have r: "1 \<le> round_half_even n" by simp
  then show "1 / 2 < n" by (rule round_half_even_pos_imp)
  have "of_int (round_half_even n) \<le> n + 1 / 2"
    using abs_le_D1 [OF round_half_even_near [of n]] by (simp only: diff_le_eq add.commute)
  moreover have "(of_int q :: rat) \<le> of_int (round_half_even n)" using q by (simp only: of_int_le_iff)
  ultimately show "of_int q \<le> n + 1 / 2" by linarith
qed

lemma order_qty_Fin: "order_qty x max_qty = Inr (Some q) \<Longrightarrow> \<exists>n. x = Fin n"
  by (cases x) (simp_all add: order_qty_def)

definition signed_qty :: "hedge_intent \<Rightarrow> int" where
  "signed_qty i = (if hi_side i = ''BUY'' then hi_quantity i else - hi_quantity i)"

lemma gamma_scalper_intent_Some:
  assumes "gamma_scalper_intent pd stock thr mx cfg = Inr (Some i)"
  obtains t n where "compute_target_and_need pd stock = Inr (t, Fin n)"
    and "1 \<le> hi_quantity i" and "hi_quantity i \<le> keep mx (Option.bind cfg sc_max_qty)"
    and "hi_side i = (if 0 < n then ''BUY'' else ''SELL'')"
    and "1 / 2 < \<bar>n\<bar>" and "of_int (hi_quantity i) \<le> \<bar>n\<bar> + 1 / 2"
    and "\<not> hi_force_hedge i"
proof -
  let ?m = "keep mx (Option.bind cfg sc_max_qty)"
  obtain t need where c: "compute_target_and_need pd stock = Inr (t, need)"
    using assms by (auto simp: gamma_scalper_intent_def Let_def rbind_Inr_iff)
  have eq: "(Some i = map_option f x) = (\<exists>y. x = Some y \<and> i = f y)" for f :: "int \<Rightarrow> hedge_intent" and x
    by (cases x) auto
  from assms c have alt: "hi_side i = ''BUY'' \<and> \<not> hi_force_hedge i \<and> order_qty need ?m = Inr (Some (hi_quantity i))
      \<or> hi_side i = ''SELL'' \<and> \<not> hi_force_hedge i \<and> order_qty (- need) ?m = Inr (Some (hi_quantity i))"
    by (auto simp: gamma_scalper_intent_def Let_def rbind_Inr_iff rmap_Inr_iff eq split: if_splits)
  from alt show ?thesis
  proof
    assume b: "hi_side i = ''BUY'' \<and> \<not> hi_force_hedge i \<and> order_qty need ?m = Inr (Some (hi_quantity i))"
    then obtain n where n: "need = Fin n" using order_qty_Fin by blast
    from that [of t n] c b n order_qty_Some [of n ?m "hi_quantity i"] show ?thesis by simp
  next
    assume s: "hi_side i = ''SELL'' \<and> \<not> hi_force_hedge i \<and> order_qty (- need) ?m = Inr (Some (hi_quantity i))"
    then obtain m where "- need = Fin m" using order_qty_Fin by blast
    then have n: "need = Fin (- m)" by (cases need) auto
    from that [of t "- m"] c s n order_qty_Some [of m ?m "hi_quantity i"] show ?thesis by simp
  qed
qed

section \<open>Properties\<close>

text \<open>
  C11. An intended hedge never overshoots into a larger exposure: its quantity is positive and within the
  cap, its side is that of the need, and executing it leaves a strictly smaller need, at most half a
  share beyond zero. It holds for every delta, threshold and configuration.
\<close>

theorem hedge_intent_reduces_need:
  assumes "gamma_scalper_intent pd stock thr mx cfg = Inr (Some i)"
    and "compute_target_and_need pd stock = Inr (t, Fin n)"
  shows "1 \<le> hi_quantity i \<and> hi_quantity i \<le> keep mx (Option.bind cfg sc_max_qty)
    \<and> (hi_side i = ''BUY'' \<longleftrightarrow> 0 < n)
    \<and> \<bar>n - of_int (signed_qty i)\<bar> < \<bar>n\<bar>
    \<and> (if 0 < n then - (1 / 2) \<le> n - of_int (signed_qty i) else n - of_int (signed_qty i) \<le> 1 / 2)"
proof -
  from assms have q: "1 \<le> hi_quantity i" "hi_quantity i \<le> keep mx (Option.bind cfg sc_max_qty)"
    and side: "hi_side i = (if 0 < n then ''BUY'' else ''SELL'')"
    and n: "1 / 2 < \<bar>n\<bar>" "of_int (hi_quantity i) \<le> \<bar>n\<bar> + 1 / 2"
    by (auto elim!: gamma_scalper_intent_Some)
  have q1: "(1::rat) \<le> of_int (hi_quantity i)" using q(1) by simp
  show ?thesis
  proof (cases "0 < n")
    case True
    then have "n - of_int (signed_qty i) = n - of_int (hi_quantity i)" using side by (simp add: signed_qty_def)
    with True q q1 side n show ?thesis by (auto simp: abs_if)
  next
    case False
    then have "n - of_int (signed_qty i) = n + of_int (hi_quantity i)" using side by (simp add: signed_qty_def)
    with False q q1 side n show ?thesis by (auto simp: abs_if)
  qed
qed

text \<open>
  On whole shares the need is exactly the negated portfolio delta, and the target is the stock
  position that makes it zero: nothing is lost in the conversions while the figures stay below
  $2^{52}$.
\<close>

theorem need_is_negated_delta:
  assumes "\<bar>d\<bar> \<le> 2 ^ 52" and "\<bar>stock\<bar> \<le> 2 ^ 52"
  shows "compute_target_and_need (Fin (of_int d)) stock = Inr (Fin (of_int (stock - d)), Fin (of_int (- d)))
    \<and> compute_target_position (Fin (of_int d)) stock = Inr (stock - d)"
proof -
  have "\<bar>stock\<bar> \<le> 2 ^ 53" "\<bar>d - stock\<bar> \<le> 2 ^ 53" "\<bar>- d\<bar> \<le> 2 ^ 53" using assms by simp_all
  then have "fl_of_int stock = Inr (Fin (of_int stock))" "rnd (of_int (d - stock)) = Fin (of_int (d - stock))"
    "rnd (of_int (- d)) = Fin (of_int (- d))"
    by (simp_all only: fl_of_int_small rnd_of_int)
  then show ?thesis
    using round_half_even_of_int [of "stock - d"]
    by (simp add: compute_target_and_need_def compute_target_position_def Let_def)
qed

text \<open>
  The two routines agree: without configuration, the intent carries the order that
  \<open>gamma_scalper_hedge\<close> proposes, and there is an intent exactly when there is an order, wherever the
  target position is defined.
\<close>

theorem intent_carries_the_order:
  assumes "compute_target_position pd stock = Inr target"
  shows "gamma_scalper_intent pd stock thr mx None =
    rmap (map_option (\<lambda>ord. \<lparr>hi_target_shares = target, hi_side = ho_side ord,
                             hi_quantity = ho_quantity ord, hi_force_hedge = False\<rparr>))
      (gamma_scalper_hedge pd stock thr mx)"
proof -
  from assms obtain t need where c: "compute_target_and_need pd stock = Inr (t, need)"
    by (auto simp: compute_target_position_def compute_target_and_need_def rbind_Inr_iff Let_def)
  have map: "rmap (map_option f) (rmap (map_option g) m) = rmap (map_option (f \<circ> g)) m"
    for f :: "hedge_order \<Rightarrow> hedge_intent" and g :: "int \<Rightarrow> hedge_order" and m
    by (cases m) (simp_all add: option.map_comp)
  show ?thesis
    by (simp add: gamma_scalper_intent_def gamma_scalper_hedge_def c assms keep_def Let_def map comp_def)
qed


text \<open>
  A composite state lets a target out only from \<open>OK\<close> health, idle execution, a live quote, a gamma
  position and a deviation beyond the threshold; a state classified with invalid Greeks never does.
\<close>

theorem target_output_condition:
  "should_output_target cs \<longleftrightarrow>
     cs_L cs \<in> {L_NORMAL, L_WIDE} \<and> cs_S cs = S_OK \<and> cs_E cs = E_IDLE
     \<and> cs_O cs \<in> {O_LONG_GAMMA, O_SHORT_GAMMA} \<and> 2 \<le> deviation_rank (cs_D cs)"
  by (cases "cs_L cs"; cases "cs_D cs") (auto simp: should_output_target_def)

section \<open>Witnesses\<close>

definition sample_intent :: hedge_intent where
  "sample_intent = \<lparr>hi_target_shares = - 60, hi_side = ''SELL'', hi_quantity = 60, hi_force_hedge = False\<rparr>"

lemma sample_need: "compute_target_and_need (Fin 60) 0 = Inr (Fin (- 60), Fin (- 60))"
  using need_is_negated_delta [of 60 0] by simp

lemma sample_scalp: "gamma_scalper_intent (Fin 60) 0 (Fin 25) 500 None = Inr (Some sample_intent)"
  using need_is_negated_delta [of 60 0]
  by (simp add: gamma_scalper_intent_def keep_def order_qty_def sample_intent_def)

lemma hedge_intent_reduces_need_witness:
  "1 \<le> hi_quantity sample_intent \<and> \<bar>(- 60 :: rat) - of_int (signed_qty sample_intent)\<bar> < \<bar>- 60\<bar>"
  using hedge_intent_reduces_need [OF sample_scalp sample_need] by simp

lemma need_is_negated_delta_witness:
  "compute_target_position (Fin (of_int 60)) 40 = Inr (- 20)"
  using need_is_negated_delta [of 60 40] by simp

lemma intent_carries_the_order_witness:
  "rmap (map_option (\<lambda>ord. \<lparr>hi_target_shares = - 60, hi_side = ho_side ord,
                             hi_quantity = ho_quantity ord, hi_force_hedge = False\<rparr>))
      (gamma_scalper_hedge (Fin 60) 0 (Fin 25) 500) = Inr (Some sample_intent)"
proof -
  have "compute_target_position (Fin 60) 0 = Inr (- 60)" using need_is_negated_delta [of 60 0] by simp
  from intent_carries_the_order [OF this, of "Fin 25" 500] show ?thesis by (simp add: sample_scalp)
qed

definition sample_composite :: "delta_deviation_state \<Rightarrow> composite_state" where
  "sample_composite d =
     \<lparr>cs_O = O_LONG_GAMMA, cs_D = d, cs_M = M_NORMAL, cs_L = L_NORMAL, cs_E = E_IDLE, cs_S = S_OK,
      cs_net_delta = Fin 60, cs_option_delta = Fin 60, cs_stock_pos = 0, cs_last_hedge_price = None,
      cs_last_hedge_ts = None, cs_spread = None, cs_data_lag_ms = None, cs_greeks_valid = True,
      cs_ts = Fin 0\<rparr>"

lemma sample_gates:
  "apply_hedge_gates sample_clock (Fin 1000) sample_intent (sample_composite D_HEDGE_NEEDED) sample_guard
     (Some (Fin 1000)) (Some (Fin 100)) None None 10 = (sample_guard, Inr (Some sample_intent))"
  by code_simp


end
