(* ===== verification/Observability.thy ===== *)
theory Observability
  imports PyValue "HOL-Library.Char_ord" "HOL-Library.List_Lexorder" "HOL-Library.Product_Lexorder"
begin

text \<open>
  Liveness and the metrics page, \<open>app/observability.py\<close>: the process-wide health record, its HTTP
  answers, the log level and the port. The lock of the record makes each method atomic; the clock is an
  argument. How Python prints a float is the parameter \<open>fl_repr\<close>.
\<close>

section \<open>Logging level\<close>

text \<open>The level names that \<open>logging.getLevelName\<close> maps to numbers.\<close>

definition level_names :: "(string \<times> int) list" where
  "level_names = [(''CRITICAL'', 50), (''FATAL'', 50), (''ERROR'', 40), (''WARN'', 30),
     (''WARNING'', 30), (''INFO'', 20), (''DEBUG'', 10), (''NOTSET'', 0)]"

definition configure_logging :: "string option \<Rightarrow> string option \<Rightarrow> int" where
  "configure_logging level env =
     (let name = upper (strip (case or_else (\<lambda>s. s \<noteq> []) level (or_else (\<lambda>s. s \<noteq> []) env None) of
                                 Some s \<Rightarrow> s | None \<Rightarrow> ''INFO''))
      in case map_of level_names name of Some lvl \<Rightarrow> lvl | None \<Rightarrow> 20)"

section \<open>The health record\<close>

type_synonym request_key = "string \<times> string \<times> string"

record daemon_health =
  dh_leader_since :: "fl option"
  dh_heartbeat_ts :: "fl option"
  dh_write_ts :: "fl option"
  dh_accounts_written :: int
  dh_write_failures :: int
  dh_requests :: "(request_key \<times> int) list"

definition health_init :: daemon_health where
  "health_init =
     \<lparr>dh_leader_since = None, dh_heartbeat_ts = None, dh_write_ts = None, dh_accounts_written = 0,
      dh_write_failures = 0, dh_requests = [((''/health'', ''GET'', ''2xx''), 0)]\<rparr>"

definition mark_leading :: "fl \<Rightarrow> daemon_health \<Rightarrow> daemon_health" where
  "mark_leading now h = h\<lparr>dh_leader_since := Some now\<rparr>"

definition mark_heartbeat :: "fl \<Rightarrow> daemon_health \<Rightarrow> daemon_health" where
  "mark_heartbeat now h = h\<lparr>dh_heartbeat_ts := Some now\<rparr>"

definition mark_raw_broker_write :: "int \<Rightarrow> fl \<Rightarrow> daemon_health \<Rightarrow> daemon_health" where
  "mark_raw_broker_write accounts now h =
     h\<lparr>dh_write_ts := Some now, dh_accounts_written := dh_accounts_written h + accounts\<rparr>"

definition mark_raw_broker_failure :: "daemon_health \<Rightarrow> daemon_health" where
  "mark_raw_broker_failure h = h\<lparr>dh_write_failures := dh_write_failures h + 1\<rparr>"

definition count_request :: "string \<Rightarrow> string \<Rightarrow> int \<Rightarrow> daemon_health \<Rightarrow> daemon_health" where
  "count_request handler meth code h =
     (let key = (handler, meth, show_int (code div 100) @ ''xx'');
          n = (case map_of (dh_requests h) key of None \<Rightarrow> 0 | Some n \<Rightarrow> n)
      in h\<lparr>dh_requests := AList.update key (n + 1) (dh_requests h)\<rparr>)"

definition heartbeat_max_age :: fl where
  "heartbeat_max_age = Fin 600"

text \<open>The reason text with its number left as a value.\<close>

datatype live_reason = Standby | NoHeartbeatFor bool fl | HeartbeatAgo fl

definition live :: "fl \<Rightarrow> daemon_health \<Rightarrow> bool \<times> live_reason" where
  "live now h =
     (case dh_leader_since h of
        None \<Rightarrow> (True, Standby)
      | Some leader_since \<Rightarrow>
          let hb = dh_heartbeat_ts h;
              last_ts = py_max leader_since (case or_else fl_truthy hb None of Some t \<Rightarrow> t | None \<Rightarrow> Fin 0);
              age = now - last_ts
          in if heartbeat_max_age < age then (False, NoHeartbeatFor (hb \<noteq> None) age)
             else (True, HeartbeatAgo age))"

section \<open>The metrics page\<close>

definition metric_lines :: "(fl \<Rightarrow> string) \<Rightarrow> string \<Rightarrow> string \<Rightarrow> string \<Rightarrow> fl option \<Rightarrow> string list" where
  "metric_lines fl_repr name kind help_text v =
     [''# HELP '' @ name @ '' '' @ help_text, ''# TYPE '' @ name @ '' '' @ kind]
     @ (case v of None \<Rightarrow> [] | Some x \<Rightarrow> [name @ '' '' @ fl_repr x])"

definition request_line :: "(fl \<Rightarrow> string) \<Rightarrow> request_key \<times> int \<Rightarrow> string res" where
  "request_line fl_repr r =
     (let ((handler, meth, status), n) = r
      in rmap (\<lambda>x. ''http_requests_total{handler='' @ [CHR 0x22] @ handler @ [CHR 0x22] @ '',method=''
                   @ [CHR 0x22] @ meth @ [CHR 0x22] @ '',status='' @ [CHR 0x22] @ status @ [CHR 0x22]
                   @ ''} '' @ fl_repr x) (fl_of_int n))"

fun map_ok :: "('a \<Rightarrow> 'b res) \<Rightarrow> 'a list \<Rightarrow> 'b list res" where
  "map_ok f [] = Inr []"
| "map_ok f (x # xs) = rbind (f x) (\<lambda>y. rmap (Cons y) (map_ok f xs))"

definition newline :: char where
  "newline = CHR 0x0A"

definition join_lines :: "string list \<Rightarrow> string" where
  "join_lines ls = concat (map (\<lambda>l. l @ [newline]) ls)"

definition render_metrics :: "(fl \<Rightarrow> string) \<Rightarrow> daemon_health \<Rightarrow> string res" where
  "render_metrics fl_repr h =
     rbind (fl_of_int (dh_accounts_written h)) (\<lambda>written.
     rbind (fl_of_int (dh_write_failures h)) (\<lambda>failed.
     rbind (map_ok (request_line fl_repr) (sort_key fst (dh_requests h))) (\<lambda>requests.
       Inr (join_lines
         (metric_lines fl_repr ''bifrost_daemon_leader'' ''gauge''
            ''1 while this pod holds the daemon lease and runs the FSM.''
            (Some (if dh_leader_since h \<noteq> None then Fin 1 else Fin 0))
          @ metric_lines fl_repr ''bifrost_daemon_heartbeat_timestamp_seconds'' ''gauge''
              ''Unix time of the last heartbeat-loop pass (leader only).'' (dh_heartbeat_ts h)
          @ metric_lines fl_repr ''bifrost_daemon_raw_broker_last_write_timestamp_seconds'' ''gauge''
              ''Unix time of the last successful raw_broker.account/positions write (leader only).''
              (dh_write_ts h)
          @ metric_lines fl_repr ''bifrost_daemon_raw_broker_accounts_written_total'' ''counter''
              ''Accounts written to raw_broker.account/positions by this process.'' (Some written)
          @ metric_lines fl_repr ''bifrost_daemon_raw_broker_write_failures_total'' ''counter''
              ''Failed raw_broker.account/positions writes by this process.'' (Some failed)
          @ [''# HELP http_requests_total Requests served by the daemon's HTTP endpoint.'',
             ''# TYPE http_requests_total counter'']
          @ requests)))))"

section \<open>The endpoint\<close>

datatype http_body = MetricsPage string | HealthReason live_reason | NotFound

definition do_get ::
  "(fl \<Rightarrow> string) \<Rightarrow> fl \<Rightarrow> string \<Rightarrow> daemon_health \<Rightarrow> daemon_health \<times> (int \<times> http_body) res" where
  "do_get fl_repr now request_path h =
     (let path = fst (split_at (\<lambda>c. c = CHR ''?'') request_path)
      in if path = ''/metrics'' then (h, rmap (\<lambda>page. (200, MetricsPage page)) (render_metrics fl_repr h))
         else let (path', code, body) =
                (if path = ''/health''
                 then let (ok, reason) = live now h
                      in (path, if ok then 200 else 503, HealthReason reason)
                 else (''none'', 404, NotFound))
              in (count_request path' ''GET'' code h, Inr (code, body)))"

text \<open>The port the server binds to, \<open>None\<close> when it stays off; binding may fail.\<close>

definition metrics_port :: "int option \<Rightarrow> string option \<Rightarrow> int option" where
  "metrics_port port env =
     (case port of
        Some p \<Rightarrow> Some p
      | None \<Rightarrow>
          (case parse_int (strip (case env of Some s \<Rightarrow> s | None \<Rightarrow> show_int 9108)) of
             None \<Rightarrow> None
           | Some p \<Rightarrow> if p = 0 then None else Some p))"

definition start_http_server :: "(int \<Rightarrow> bool) \<Rightarrow> int option \<Rightarrow> string option \<Rightarrow> int option" where
  "start_http_server binds port env =
     Option.bind (metrics_port port env) (\<lambda>p. if binds p then Some p else None)"

lemmas health_defs = mark_leading_def mark_heartbeat_def mark_raw_broker_write_def
  mark_raw_broker_failure_def

section \<open>Properties\<close>

definition requests_total :: "daemon_health \<Rightarrow> int" where
  "requests_total h = sum_list (map snd (dh_requests h))"

lemma sum_list_update:
  "distinct (map fst l) \<Longrightarrow>
     sum_list (map snd (AList.update k v l)) =
       sum_list (map snd l) + v - (case map_of l k of None \<Rightarrow> (0::int) | Some n \<Rightarrow> n)"
  by (induction l) (auto split: option.splits)

lemma count_request_total:
  "distinct (map fst (dh_requests h)) \<Longrightarrow>
     requests_total (count_request p me c h) = requests_total h + 1"
  by (simp add: requests_total_def count_request_def Let_def sum_list_update)

lemma count_request_distinct:
  "distinct (map fst (dh_requests h)) \<Longrightarrow> distinct (map fst (dh_requests (count_request p me c h)))"
  by (simp add: count_request_def Let_def distinct_update)

text \<open>
  The liveness probe fails exactly when this pod leads and neither the start of its leadership nor
  the last pass of the heartbeat loop is within the limit; a standby pod is always live.
\<close>

theorem live_iff_recent_sign:
  assumes "dh_leader_since h = Some l" and "dh_heartbeat_ts h = Some b"
    and "isfinite now" and "isfinite l" and "isfinite b" and "Fin 0 \<le> l"
  shows "fst (live now h) \<longleftrightarrow> now - l \<le> heartbeat_max_age \<or> now - b \<le> heartbeat_max_age"
proof -
  obtain n l' b' where fin: "now = Fin n" "l = Fin l'" "b = Fin b'"
    using assms(3-5) by (auto simp: isfinite_iff)
  have nn: "now - x \<noteq> NaN" if "isfinite x" for x using that fin by (auto simp: isfinite_iff)
  have or0: "py_max l (case or_else fl_truthy (Some b) None of Some t \<Rightarrow> t | None \<Rightarrow> Fin 0) = py_max l b"
    using assms(6) fin by (cases "fl_truthy b") (auto simp: fl_truthy_def py_max_def)
  have "fst (live now h) \<longleftrightarrow> \<not> heartbeat_max_age < now - py_max l b"
    using assms(1,2) or0 by (simp add: live_def Let_def)
  also have "\<dots> \<longleftrightarrow> now - py_max l b \<le> heartbeat_max_age"
    using nn [of "py_max l b"] fin by (intro fl_not_less) (simp_all add: heartbeat_max_age_def py_max_def)
  also have "\<dots> \<longleftrightarrow> now - l \<le> heartbeat_max_age \<or> now - b \<le> heartbeat_max_age"
  proof (cases "l < b")
    case True
    then have "now - b \<le> now - l" using fl_diff_antimono [of l b now] assms(3) fl_less_imp_le by blast
    with True show ?thesis using fl_le_trans by (auto simp: py_max_def)
  next
    case False
    then have "b \<le> l" using fin by simp
    then have "now - l \<le> now - b" using fl_diff_antimono [of b l now] assms(3) by blast
    with False show ?thesis using fl_le_trans by (auto simp: py_max_def)
  qed
  finally show ?thesis .
qed

lemma live_iff_recent_sign_witness:
  "\<not> fst (live (Fin 2000) (mark_heartbeat (Fin 1300) (mark_leading (Fin 1000) health_init)))
   \<and> fst (live (Fin 1900) (mark_heartbeat (Fin 1300) (mark_leading (Fin 1000) health_init)))"
  using live_iff_recent_sign
      [of "mark_heartbeat (Fin 1300) (mark_leading (Fin 1000) health_init)" "Fin 1000" "Fin 1300" "Fin 2000"]
    live_iff_recent_sign
      [of "mark_heartbeat (Fin 1300) (mark_leading (Fin 1000) health_init)" "Fin 1000" "Fin 1300" "Fin 1900"]
  by (simp add: health_defs heartbeat_max_age_def)

definition serve :: "(fl \<Rightarrow> string) \<Rightarrow> daemon_health \<Rightarrow> fl \<times> string \<Rightarrow> daemon_health" where
  "serve fl_repr h req = fst (do_get fl_repr (fst req) (snd req) h)"

definition is_scrape :: "string \<Rightarrow> bool" where
  "is_scrape p = (fst (split_at (\<lambda>c. c = CHR ''?'') p) = ''/metrics'')"

lemma serve_step:
  "serve fl_repr h req = h \<and> is_scrape (snd req)
   \<or> (\<exists>p c. serve fl_repr h req = count_request p ''GET'' c h) \<and> \<not> is_scrape (snd req)"
  by (auto simp: serve_def do_get_def is_scrape_def Let_def split: prod.splits if_splits)

text \<open>
  The endpoint counts every request but a scrape of the metrics page exactly once, and never loses
  a count: after any sequence of requests the sum of the counters is the number of requests for other
  pages.
\<close>

theorem every_request_counted_once:
  "requests_total (run_events (serve fl_repr) health_init reqs)
   = int (length (filter (\<lambda>r. \<not> is_scrape (snd r)) reqs))"
proof -
  have "distinct (map fst (dh_requests h)) \<Longrightarrow>
      requests_total (run_events (serve fl_repr) h reqs)
      = requests_total h + int (length (filter (\<lambda>r. \<not> is_scrape (snd r)) reqs))" for h
  proof (induction reqs arbitrary: h)
    case Nil
    show ?case by simp
  next
    case (Cons r rs)
    from serve_step [of fl_repr h r] show ?case
    proof
      assume "serve fl_repr h r = h \<and> is_scrape (snd r)"
      with Cons show ?thesis by simp
    next
      assume "(\<exists>p c. serve fl_repr h r = count_request p ''GET'' c h) \<and> \<not> is_scrape (snd r)"
      then obtain p c where "serve fl_repr h r = count_request p ''GET'' c h" "\<not> is_scrape (snd r)"
        by blast
      with Cons count_request_total count_request_distinct show ?thesis by simp
    qed
  qed
  from this [of health_init] show ?thesis by (simp add: health_init_def requests_total_def)
qed

end
