(* ===== verification/AccountPush.thy ===== *)
theory AccountPush imports Observability begin

text \<open>
  The push-driven account tables, \<open>app/account_push.py\<close>: freshness of the plugin's snapshot, the
  change test by fingerprint, the refusal of degraded reads, and the write with its bookkeeping. JSON
  and the digest are the parameter \<open>digest\<close> of the canonical body; \<open>rep\<close> is Python's \<open>repr\<close>. The
  accounts handed to \<open>sync_accounts_snapshot_to_tables\<close> and committed are logged in the writer.
\<close>

section \<open>The plugin's snapshot\<close>

definition fingerprint :: "(pyval \<Rightarrow> string) \<Rightarrow> pydict \<Rightarrow> string" where
  "fingerprint digest account =
     digest (VDict [(''summary'', dget account ''summary'' VNone),
                    (''positions'', dget account ''positions'' VNone)])"

definition snapshot_max_age :: fl where
  "snapshot_max_age = Fin 120"

fun dicts_in :: "pyval list \<Rightarrow> pydict list" where
  "dicts_in [] = []"
| "dicts_in (VDict d # vs) = d # dicts_in vs"
| "dicts_in (v # vs) = dicts_in vs"

text \<open>\<open>[a for a in (v or []) if isinstance(a, dict)]\<close>: keys and characters are not dictionaries.\<close>

definition dict_items :: "pyval \<Rightarrow> pydict list res" where
  "dict_items v =
     (if \<not> truthy v then Inr []
      else case v of
             VList vs \<Rightarrow> Inr (dicts_in vs)
           | VStr _ \<Rightarrow> Inr []
           | VDict _ \<Rightarrow> Inr []
           | _ \<Rightarrow> Inl TypeError)"

definition fresh_accounts :: "fl \<Rightarrow> pyval \<Rightarrow> pydict list option res" where
  "fresh_accounts now data =
     (if \<not> truthy data then Inr None
      else
        rbind (vget data ''updated_at'' VNone) (\<lambda>raw.
        rbind (case py_float (py_or raw (VInt 0)) of
                 Inl TypeError \<Rightarrow> Inr (Fin 0)
               | Inl ValueError \<Rightarrow> Inr (Fin 0)
               | r \<Rightarrow> r) (\<lambda>updated_at.
          if snapshot_max_age < now - updated_at then Inr None
          else rbind (vget data ''accounts_snapshot'' VNone) (\<lambda>v. rmap Some (dict_items v)))))"

text \<open>The key's text, absent or empty as \<open>None\<close>; invalid JSON reads as nothing.\<close>

definition read_plugin_snapshot :: "(string \<Rightarrow> pyval option) \<Rightarrow> string option res \<Rightarrow> pyval res" where
  "read_plugin_snapshot loads fetched =
     rmap (\<lambda>raw. case raw of
                   None \<Rightarrow> VNone
                 | Some s \<Rightarrow> if s = [] then VNone else (case loads s of None \<Rightarrow> VNone | Some v \<Rightarrow> v))
       fetched"

section \<open>The writer\<close>

record account_writer =
  aw_conn :: "bool option"
  aw_written :: "string \<Rightarrow> string option"
  aw_positions_nonempty :: "string \<Rightarrow> bool option"
  aw_summary_since :: fl
  aw_summary_writes :: int
  aw_summary_accounts :: int
  aw_committed :: "pydict list list"

definition writer_init :: "fl \<Rightarrow> account_writer" where
  "writer_init t0 =
     \<lparr>aw_conn = None, aw_written = (\<lambda>_. None), aw_positions_nonempty = (\<lambda>_. None),
      aw_summary_since = t0, aw_summary_writes = 0, aw_summary_accounts = 0, aw_committed = []\<rparr>"

definition account_id :: "(pyval \<Rightarrow> string) \<Rightarrow> pydict \<Rightarrow> string" where
  "account_id rep a =
     strip (py_str rep
       (py_or (py_or (dget a ''account_id'' VNone) (dget a ''account'' VNone)) (VStr [])))"

definition changed_accounts ::
  "(pyval \<Rightarrow> string) \<Rightarrow> (pyval \<Rightarrow> string) \<Rightarrow> account_writer \<Rightarrow> pydict list \<Rightarrow> pydict list" where
  "changed_accounts rep digest w accounts =
     filter (\<lambda>a. let aid = account_id rep a
                 in aid \<noteq> [] \<and> aw_written w aid \<noteq> Some (fingerprint digest a)) accounts"

text \<open>
  A connection is \<open>None\<close> or some open or closed one (the flag is \<open>closed\<close>). Opening may fail, and then
  there is none.
\<close>

definition ensure_conn :: "bool \<Rightarrow> account_writer \<Rightarrow> account_writer" where
  "ensure_conn connects w =
     (if aw_conn w = Some False then w
      else w\<lparr>aw_conn := (if connects then Some False else None)\<rparr>)"

datatype refusal = LacksNetLiquidation | EmptyWithoutRead

definition refuse_reason :: "(pyval \<Rightarrow> string) \<Rightarrow> account_writer \<Rightarrow> pydict \<Rightarrow> refusal option" where
  "refuse_reason rep w account =
     (let summary = dget account ''summary'' VNone;
          net = (case summary of VDict d \<Rightarrow> dget d ''NetLiquidation'' VNone | _ \<Rightarrow> VNone)
      in if \<not> is_dict summary \<or> strip (py_str rep (py_or net (VStr []))) = []
           then Some LacksNetLiquidation
         else
           let aid = account_id rep account;
               positions = dget account ''positions'' VNone;
               had_positions = (case aw_positions_nonempty w aid of None \<Rightarrow> False | Some b \<Rightarrow> b);
               empty_now = (map_of account ''positions'' = None \<or> positions = VList [])
           in if had_positions \<and> empty_now \<and> dget account ''positions_ok'' VNone \<noteq> VBool True
              then Some EmptyWithoutRead else None)"

definition nonempty_list :: "pyval \<Rightarrow> bool" where
  "nonempty_list v = (case v of VList vs \<Rightarrow> vs \<noteq> [] | _ \<Rightarrow> False)"

definition note_written ::
  "(pyval \<Rightarrow> string) \<Rightarrow> (pyval \<Rightarrow> string) \<Rightarrow> pydict \<Rightarrow> account_writer \<Rightarrow> account_writer" where
  "note_written rep digest a w =
     (let aid = account_id rep a
      in if aid = [] then w
         else w\<lparr>aw_written := (aw_written w)(aid \<mapsto> fingerprint digest a),
                aw_positions_nonempty :=
                  (aw_positions_nonempty w)(aid \<mapsto> nonempty_list (dget a ''positions'' VNone))\<rparr>)"

definition log_summary :: "fl \<Rightarrow> fl \<Rightarrow> int \<Rightarrow> account_writer \<Rightarrow> account_writer" where
  "log_summary mono1 mono2 accounts w0 =
     (let w = w0\<lparr>aw_summary_writes := aw_summary_writes w0 + 1,
                 aw_summary_accounts := aw_summary_accounts w0 + accounts\<rparr>
      in if mono1 - aw_summary_since w < Fin 600 then w
         else w\<lparr>aw_summary_since := mono2, aw_summary_writes := 0, aw_summary_accounts := 0\<rparr>)"

text \<open>What one write meets outside: the flag, the outcomes of the database calls, the clocks.\<close>

record write_env =
  we_writes_off :: bool
  we_connects :: bool
  we_sync_ok :: bool
  we_rollback_ok :: bool
  we_now :: fl
  we_mono1 :: fl
  we_mono2 :: fl

text \<open>The accounts of a write that are neither refused nor, without \<open>force\<close>, unchanged.\<close>

definition write_batch ::
  "(pyval \<Rightarrow> string) \<Rightarrow> (pyval \<Rightarrow> string) \<Rightarrow> pydict list \<Rightarrow> bool \<Rightarrow> account_writer \<Rightarrow> pydict list" where
  "write_batch rep digest accounts force w =
     (let accepted = filter (\<lambda>a. refuse_reason rep w a = None) accounts
      in if force then accepted else changed_accounts rep digest w accepted)"

definition writer_write ::
  "(pyval \<Rightarrow> string) \<Rightarrow> (pyval \<Rightarrow> string) \<Rightarrow> write_env \<Rightarrow> pydict list \<Rightarrow> bool
   \<Rightarrow> account_writer \<times> daemon_health \<Rightarrow> (account_writer \<times> daemon_health) \<times> int" where
  "writer_write rep digest e accounts force s =
     (let (w, h) = s in
      if we_writes_off e then ((w, h), 0)
      else
        let todo = write_batch rep digest accounts force w
        in if todo = [] then ((w, h), 0)
           else
             let w1 = ensure_conn (we_connects e) w
             in if aw_conn w1 = None then ((w1, mark_raw_broker_failure h), 0)
                else if \<not> we_sync_ok e
                  then ((if we_rollback_ok e then w1 else w1\<lparr>aw_conn := None\<rparr>,
                         mark_raw_broker_failure h), 0)
                else
                  let w2 = w1\<lparr>aw_committed := aw_committed w1 @ [todo]\<rparr>;
                      w3 = fold (note_written rep digest) todo w2;
                      n = int (length todo)
                  in ((log_summary (we_mono1 e) (we_mono2 e) n w3,
                       mark_raw_broker_write n (we_now e) h), n))"

definition writer_close :: "account_writer \<Rightarrow> account_writer" where
  "writer_close w = (if aw_conn w \<noteq> None then w\<lparr>aw_conn := None\<rparr> else w)"

text \<open>One round of the listener or the heartbeat; a failing read of the snapshot writes nothing.\<close>

definition sync_once ::
  "(pyval \<Rightarrow> string) \<Rightarrow> (pyval \<Rightarrow> string) \<Rightarrow> write_env \<Rightarrow> fl \<Rightarrow> pyval res \<Rightarrow> bool
   \<Rightarrow> account_writer option \<times> daemon_health
   \<Rightarrow> (account_writer option \<times> daemon_health) \<times> int res" where
  "sync_once rep digest e now snapshot force s =
     (case s of
        (None, h) \<Rightarrow> (s, Inr 0)
      | (Some w, h) \<Rightarrow>
          (case snapshot of
             Inl _ \<Rightarrow> (s, Inr 0)
           | Inr data \<Rightarrow>
               (case fresh_accounts now data of
                  Inl err \<Rightarrow> (s, Inl err)
                | Inr None \<Rightarrow> (s, Inr 0)
                | Inr (Some accounts) \<Rightarrow>
                    if accounts = [] then (s, Inr 0)
                    else let ((w', h'), n) = writer_write rep digest e accounts force (w, h)
                         in ((Some w', h'), Inr n))))"

section \<open>The listener\<close>

text \<open>
  Coalescing of notifications: each turn of the inner loop waits for a message for at most the minimal
  interval and syncs when one is pending and the interval has passed. A turn is whether a message came
  and the two readings of the monotonic clock; the result says whether it synced.
\<close>

record push_state =
  ps_last_sync :: fl
  ps_pending :: bool

definition min_sync_interval :: fl where
  "min_sync_interval = Fin 1"

definition push_turn :: "push_state \<Rightarrow> bool \<times> fl \<times> fl \<Rightarrow> push_state \<times> bool" where
  "push_turn s turn =
     (let (msg, mono1, mono2) = turn;
          pending = (if msg then True else ps_pending s)
      in if pending \<and> min_sync_interval \<le> mono1 - ps_last_sync s
         then (\<lparr>ps_last_sync = mono2, ps_pending = False\<rparr>, True)
         else (\<lparr>ps_last_sync = ps_last_sync s, ps_pending = pending\<rparr>, False))"

section \<open>What the writer remembers\<close>

definition last_for :: "(pyval \<Rightarrow> string) \<Rightarrow> string \<Rightarrow> pydict list \<Rightarrow> pydict option" where
  "last_for rep aid accounts =
     (let own = filter (\<lambda>a. account_id rep a = aid) accounts
      in if own = [] then None else Some (last own))"

lemma last_for_simps [simp]:
  "last_for rep aid [] = None"
  "last_for rep aid (xs @ [a]) = (if account_id rep a = aid then Some a else last_for rep aid xs)"
  by (simp_all add: last_for_def Let_def)

lemma last_for_append:
  "last_for rep aid (xs @ ys) =
     (case last_for rep aid ys of Some a \<Rightarrow> Some a | None \<Rightarrow> last_for rep aid xs)"
  by (simp add: last_for_def Let_def)

lemma last_for_None: "last_for rep aid xs = None \<longleftrightarrow> (\<forall>a\<in>set xs. account_id rep a \<noteq> aid)"
  by (simp add: last_for_def Let_def filter_empty_conv)

lemma last_for_distinct:
  assumes "distinct (map (account_id rep) xs)" and "a \<in> set xs"
  shows "last_for rep (account_id rep a) xs = Some a"
proof -
  have "filter (\<lambda>b. account_id rep b = account_id rep a) xs = [a]"
    using assms by (induction xs) (auto simp: filter_empty_conv image_iff)
  then show ?thesis by (simp add: last_for_def)
qed

text \<open>The memory of the writer is the last committed state of each account.\<close>

definition remembers ::
  "(pyval \<Rightarrow> string) \<Rightarrow> (pyval \<Rightarrow> string) \<Rightarrow> pydict list \<Rightarrow> account_writer \<Rightarrow> bool" where
  "remembers rep digest committed w \<longleftrightarrow>
     (\<forall>aid. aid \<noteq> [] \<longrightarrow>
        aw_written w aid = map_option (fingerprint digest) (last_for rep aid committed)
        \<and> aw_positions_nonempty w aid =
            map_option (\<lambda>a. nonempty_list (dget a ''positions'' VNone)) (last_for rep aid committed))"

lemma note_written_remembers:
  "remembers rep digest seen w \<Longrightarrow> remembers rep digest (seen @ [a]) (note_written rep digest a w)"
  by (auto simp: remembers_def note_written_def Let_def)

lemma fold_note_remembers:
  "remembers rep digest seen w \<Longrightarrow> remembers rep digest (seen @ xs) (fold (note_written rep digest) xs w)"
proof (induction xs arbitrary: seen w)
  case Nil
  then show ?case by simp
next
  case (Cons a xs)
  from Cons.IH [OF note_written_remembers [OF Cons.prems]] show ?case by simp
qed

lemma note_written_frame [simp]:
  "aw_committed (note_written rep digest a w) = aw_committed w"
  "aw_conn (note_written rep digest a w) = aw_conn w"
  by (simp_all add: note_written_def Let_def)

lemma fold_note_frame [simp]:
  "aw_committed (fold (note_written rep digest) xs w) = aw_committed w"
  by (induction xs arbitrary: w) simp_all

lemma ensure_conn_frame [simp]:
  "aw_written (ensure_conn c w) = aw_written w"
  "aw_positions_nonempty (ensure_conn c w) = aw_positions_nonempty w"
  "aw_committed (ensure_conn c w) = aw_committed w"
  by (simp_all add: ensure_conn_def)

lemma log_summary_frame [simp]:
  "aw_written (log_summary t1 t2 n w) = aw_written w"
  "aw_positions_nonempty (log_summary t1 t2 n w) = aw_positions_nonempty w"
  "aw_committed (log_summary t1 t2 n w) = aw_committed w"
  by (simp_all add: log_summary_def Let_def)

lemma remembers_cong:
  "aw_written w = aw_written w' \<Longrightarrow> aw_positions_nonempty w = aw_positions_nonempty w'
   \<Longrightarrow> remembers rep digest seen w = remembers rep digest seen w'"
  by (simp add: remembers_def)

lemma fold_note_cong:
  "aw_written v = aw_written u \<Longrightarrow> aw_positions_nonempty v = aw_positions_nonempty u \<Longrightarrow>
     aw_written (fold (note_written rep digest) xs v) = aw_written (fold (note_written rep digest) xs u)
     \<and> aw_positions_nonempty (fold (note_written rep digest) xs v)
       = aw_positions_nonempty (fold (note_written rep digest) xs u)"
proof (induction xs arbitrary: u v)
  case Nil
  then show ?case by simp
next
  case (Cons a xs)
  have "aw_written (note_written rep digest a v) = aw_written (note_written rep digest a u)"
    "aw_positions_nonempty (note_written rep digest a v) = aw_positions_nonempty (note_written rep digest a u)"
    using Cons.prems by (simp_all add: note_written_def Let_def)
  from Cons.IH [OF this] show ?case by (simp only: fold_simps)
qed

definition same_memory :: "account_writer \<Rightarrow> account_writer \<Rightarrow> bool" where
  "same_memory w w' \<longleftrightarrow> aw_committed w' = aw_committed w \<and> aw_written w' = aw_written w
     \<and> aw_positions_nonempty w' = aw_positions_nonempty w"

lemma writer_write_cases:
  assumes "writer_write rep digest e accounts force (w, h) = ((w', h'), n)"
  obtains (quiet) "same_memory w w'" "n = 0"
  | (wrote) "write_batch rep digest accounts force w \<noteq> []"
      "aw_committed w' = aw_committed w @ [write_batch rep digest accounts force w]"
      "aw_written w' = aw_written (fold (note_written rep digest) (write_batch rep digest accounts force w) w)"
      "aw_positions_nonempty w'
        = aw_positions_nonempty (fold (note_written rep digest) (write_batch rep digest accounts force w) w)"
      "n = int (length (write_batch rep digest accounts force w))"
proof -
  define b where "b = write_batch rep digest accounts force w"
  define w1 where "w1 = ensure_conn (we_connects e) w"
  have w1: "same_memory w w1" by (simp add: w1_def same_memory_def)
  note ww = assms [unfolded writer_write_def Let_def prod.case, folded b_def w1_def]
  consider (a) "we_writes_off e \<or> b = []" | (b) "\<not> (we_writes_off e \<or> b = [])" "aw_conn w1 = None"
    | (c) "\<not> (we_writes_off e \<or> b = [])" "aw_conn w1 \<noteq> None" "\<not> we_sync_ok e"
    | (d) "\<not> (we_writes_off e \<or> b = [])" "aw_conn w1 \<noteq> None" "we_sync_ok e" by blast
  then show ?thesis
  proof cases
    case a
    with ww have "w' = w" "n = 0" by (auto split: if_splits)
    then show ?thesis by (intro quiet) (simp_all add: same_memory_def)
  next
    case b
    with ww have "w' = w1" "n = 0" by simp_all
    with w1 show ?thesis by (intro quiet) simp_all
  next
    case c
    then obtain y where "aw_conn w1 = Some y" by blast
    with c ww have "w' = (if we_rollback_ok e then w1 else w1\<lparr>aw_conn := None\<rparr>)" "n = 0" by auto
    with w1 show ?thesis by (intro quiet) (simp_all add: same_memory_def)
  next
    case d
    let ?v = "fold (note_written rep digest) b (w1\<lparr>aw_committed := aw_committed w1 @ [b]\<rparr>)"
    from d obtain y where "aw_conn w1 = Some y" by blast
    with d ww have w': "w' = log_summary (we_mono1 e) (we_mono2 e) (int (length b)) ?v"
      and n: "n = int (length b)" by auto
    have v: "aw_written ?v = aw_written (fold (note_written rep digest) b w)
        \<and> aw_positions_nonempty ?v = aw_positions_nonempty (fold (note_written rep digest) b w)"
      using w1 by (intro fold_note_cong) (simp_all add: same_memory_def)
    show ?thesis
    proof (rule wrote [folded b_def])
      show "b \<noteq> []" using d(1) by blast
      show "aw_committed w' = aw_committed w @ [b]" using w1 by (simp add: w' same_memory_def)
    qed (simp_all add: w' v n)
  qed
qed

section \<open>Histories of the writer\<close>

datatype writer_call = WriterWrite write_env "pydict list" bool | WriterClose

fun writer_step ::
  "(pyval \<Rightarrow> string) \<Rightarrow> (pyval \<Rightarrow> string) \<Rightarrow> account_writer \<times> daemon_health \<Rightarrow> writer_call
   \<Rightarrow> account_writer \<times> daemon_health" where
  "writer_step rep digest s (WriterWrite e accounts force) =
     fst (writer_write rep digest e accounts force s)"
| "writer_step rep digest s WriterClose = (writer_close (fst s), snd s)"

definition degraded :: "pydict \<Rightarrow> bool" where
  "degraded a \<longleftrightarrow> (map_of a ''positions'' = None \<or> dget a ''positions'' VNone = VList [])
     \<and> dget a ''positions_ok'' VNone \<noteq> VBool True"

definition holds_positions :: "(pyval \<Rightarrow> string) \<Rightarrow> pydict list \<Rightarrow> string \<Rightarrow> bool" where
  "holds_positions rep seen aid =
     (case last_for rep aid seen of None \<Rightarrow> False
      | Some a \<Rightarrow> nonempty_list (dget a ''positions'' VNone))"

text \<open>No batch replaces the stored positions of an account by a degraded read of none.\<close>

fun no_flat_book :: "(pyval \<Rightarrow> string) \<Rightarrow> pydict list \<Rightarrow> pydict list list \<Rightarrow> bool" where
  "no_flat_book rep seen [] = True"
| "no_flat_book rep seen (b # bs) =
     ((\<forall>a\<in>set b. account_id rep a \<noteq> [] \<longrightarrow> holds_positions rep seen (account_id rep a) \<longrightarrow> \<not> degraded a)
      \<and> no_flat_book rep (seen @ b) bs)"

lemma no_flat_book_snoc:
  "no_flat_book rep seen (bs @ [b]) \<longleftrightarrow>
     no_flat_book rep seen bs
     \<and> (\<forall>a\<in>set b. account_id rep a \<noteq> [] \<longrightarrow>
           holds_positions rep (seen @ concat bs) (account_id rep a) \<longrightarrow> \<not> degraded a)"
  by (induction bs arbitrary: seen) auto

lemma refuse_degraded:
  assumes "remembers rep digest seen w" and "account_id rep a \<noteq> []"
    and "holds_positions rep seen (account_id rep a)" and "degraded a"
  shows "refuse_reason rep w a \<noteq> None"
  using assms
  by (auto simp: refuse_reason_def remembers_def holds_positions_def degraded_def Let_def
      split: option.splits)

definition writer_inv :: "(pyval \<Rightarrow> string) \<Rightarrow> (pyval \<Rightarrow> string) \<Rightarrow> account_writer \<times> daemon_health \<Rightarrow> bool" where
  "writer_inv rep digest s \<longleftrightarrow>
     remembers rep digest (concat (aw_committed (fst s))) (fst s)
     \<and> no_flat_book rep [] (aw_committed (fst s))"

lemma write_batch_accepted: "a \<in> set (write_batch rep digest accounts force w) \<Longrightarrow>
    a \<in> set accounts \<and> refuse_reason rep w a = None"
  by (auto simp: write_batch_def changed_accounts_def Let_def split: if_splits)

interpretation account_tables: invariant_machine "writer_step rep digest" "writer_inv rep digest"
proof unfold_locales
  fix s :: "account_writer \<times> daemon_health" and c
  assume inv: "writer_inv rep digest s"
  obtain w h where s: "s = (w, h)" by fastforce
  show "writer_inv rep digest (writer_step rep digest s c)"
  proof (cases c)
    case WriterClose
    with inv show ?thesis by (simp add: s writer_inv_def writer_close_def remembers_def)
  next
    case (WriterWrite e accounts force)
    obtain w' h' n where ww: "writer_write rep digest e accounts force (w, h) = ((w', h'), n)"
      by (metis prod.collapse)
    have step: "fst (writer_step rep digest s c) = w'" by (simp add: s WriterWrite ww)
    have rem: "remembers rep digest (concat (aw_committed w)) w" using inv by (simp add: s writer_inv_def)
    from ww show ?thesis
    proof (cases rule: writer_write_cases)
      case quiet
      with inv step show ?thesis by (simp add: s writer_inv_def remembers_def same_memory_def)
    next
      case wrote
      let ?b = "write_batch rep digest accounts force w"
      have "remembers rep digest (concat (aw_committed w) @ ?b) (fold (note_written rep digest) ?b w)"
        using rem by (rule fold_note_remembers)
      moreover have "\<not> degraded a" if "a \<in> set ?b" "account_id rep a \<noteq> []"
        "holds_positions rep (concat (aw_committed w)) (account_id rep a)" for a
        using that refuse_degraded [OF rem] write_batch_accepted by blast
      ultimately show ?thesis
        using inv wrote(2-4) step by (simp add: s writer_inv_def no_flat_book_snoc remembers_def)
    qed
  qed
qed

lemma writer_inv_init: "writer_inv rep digest (writer_init t0, h)"
  by (simp add: writer_inv_def writer_init_def remembers_def)

section \<open>Properties\<close>


lemma fold_note_lookup:
  assumes "aid \<noteq> []"
  shows "aw_written (fold (note_written rep digest) xs w) aid =
      (case last_for rep aid xs of Some a \<Rightarrow> Some (fingerprint digest a) | None \<Rightarrow> aw_written w aid)
    \<and> aw_positions_nonempty (fold (note_written rep digest) xs w) aid =
      (case last_for rep aid xs of Some a \<Rightarrow> Some (nonempty_list (dget a ''positions'' VNone))
       | None \<Rightarrow> aw_positions_nonempty w aid)"
  using assms
  by (induction xs rule: rev_induct) (auto simp: note_written_def Let_def)

lemma write_batch_filter: "\<exists>P. write_batch rep digest accounts force w = filter P accounts"
  by (auto simp: write_batch_def changed_accounts_def Let_def)

lemma refuse_reason_memory:
  "aw_positions_nonempty w (account_id rep a) = aw_positions_nonempty w' (account_id rep a)
   \<Longrightarrow> refuse_reason rep w a = refuse_reason rep w' a"
  by (simp add: refuse_reason_def Let_def)

lemma batch_after_commit:
  assumes dist: "distinct (map (account_id rep) accounts)"
    and wr: "aw_written w' = aw_written (fold (note_written rep digest) (write_batch rep digest accounts force w) w)"
    and pos: "aw_positions_nonempty w' =
      aw_positions_nonempty (fold (note_written rep digest) (write_batch rep digest accounts force w) w)"
  shows "write_batch rep digest accounts False w' = []"
proof (rule ccontr)
  let ?b = "write_batch rep digest accounts force w"
  assume "write_batch rep digest accounts False w' \<noteq> []"
  then obtain a where "a \<in> set (write_batch rep digest accounts False w')"
    by (cases "write_batch rep digest accounts False w'") auto
  then have a: "a \<in> set accounts" "account_id rep a \<noteq> []" "refuse_reason rep w' a = None"
    and ch: "aw_written w' (account_id rep a) \<noteq> Some (fingerprint digest a)"
    by (auto simp: write_batch_def changed_accounts_def Let_def)
  obtain P where P: "?b = filter P accounts" using write_batch_filter by blast
  show False
  proof (cases "a \<in> set ?b")
    case True
    moreover have "distinct (map (account_id rep) ?b)" using dist by (simp add: P distinct_map_filter)
    ultimately have "last_for rep (account_id rep a) ?b = Some a" by (rule last_for_distinct [rotated])
    with ch show False using a(2) by (simp add: wr fold_note_lookup)
  next
    case False
    then have "last_for rep (account_id rep a) ?b = None"
      using dist a(1) by (auto simp: last_for_None P distinct_map dest: inj_onD)
    then have same: "aw_written w' (account_id rep a) = aw_written w (account_id rep a)"
      "aw_positions_nonempty w' (account_id rep a) = aw_positions_nonempty w (account_id rep a)"
      using a(2) by (simp_all add: wr pos fold_note_lookup)
    then have "refuse_reason rep w a = None" using a(3) refuse_reason_memory by metis
    with False ch same(1) a(1,2) show False
      by (auto simp: write_batch_def changed_accounts_def Let_def split: if_splits)
  qed
qed

text \<open>
  An unchanged account is not rewritten: after a write that committed, forced or not, writing the
  same accounts again without \<open>force\<close> commits nothing and returns zero, whatever the database does.
\<close>

theorem unchanged_accounts_not_rewritten:
  assumes "distinct (map (account_id rep) accounts)"
    and "writer_write rep digest e accounts force (w, h) = ((w', h'), n)" and "0 < n"
  shows "writer_write rep digest e2 accounts False (w', h2) = ((w', h2), 0)"
proof -
  from assms(2) have "write_batch rep digest accounts False w' = []"
  proof (cases rule: writer_write_cases)
    case quiet
    with assms(3) show ?thesis by simp
  next
    case wrote
    with assms(1) show ?thesis by (intro batch_after_commit)
  qed
  then show ?thesis by (simp add: writer_write_def)
qed

text \<open>
  A stale snapshot is never written: when the plugin's snapshot is more than 120 seconds old the
  round leaves the writer, the tables and the health record as they were.
\<close>

theorem stale_snapshot_writes_nothing:
  assumes "data \<noteq> []" and "dget data ''updated_at'' VNone = VFloat t" and "t \<noteq> Fin 0"
    and "snapshot_max_age < now - t"
  shows "sync_once rep digest e now (Inr (VDict data)) force (Some w, h) = ((Some w, h), Inr 0)"
  using assms by (simp add: sync_once_def fresh_accounts_def py_or_def fl_truthy_def)

text \<open>
  Null positions pass the refusal and erase its memory: an account read with \<open>positions: null\<close> is
  accepted even when positions are stored, and once it is committed a later read of an empty list is
  accepted too, with no successful read of positions in between.
\<close>

theorem null_positions_erase_memory:
  assumes "map_of a ''positions'' = Some VNone" and "dget a ''summary'' VNone = VDict s"
    and "dget s ''NetLiquidation'' VNone = VStr net" and "strip net \<noteq> []"
    and "account_id rep b = account_id rep a" and "account_id rep a \<noteq> []" and "degraded b"
    and "dget b ''summary'' VNone = VDict s"
  shows "refuse_reason rep w a = None \<and> refuse_reason rep (note_written rep digest a w) b = None"
proof -
  have pos: "dget a ''positions'' VNone = VNone" using assms(1) by (simp add: dget_def)
  have "net \<noteq> []" using assms(4) by (auto simp: strip_def)
  with assms pos show ?thesis
    by (simp add: refuse_reason_def note_written_def py_or_def nonempty_list_def Let_def)
qed

section \<open>Witnesses\<close>

definition sample_env :: write_env where
  "sample_env = \<lparr>we_writes_off = False, we_connects = True, we_sync_ok = True, we_rollback_ok = True,
     we_now = Fin 5, we_mono1 = Fin 5, we_mono2 = Fin 5\<rparr>"

definition sample_account :: "string \<Rightarrow> pyval \<Rightarrow> pydict" where
  "sample_account aid positions =
     [(''account_id'', VStr aid), (''summary'', VDict [(''NetLiquidation'', VStr ''100'')]),
      (''positions'', positions)]"

definition no_repr :: "pyval \<Rightarrow> string" where
  "no_repr v = ''?''"

lemma unchanged_accounts_not_rewritten_witness:
  "\<exists>w' h'. writer_write no_repr no_repr sample_env [sample_account ''U1'' (VList [VInt 1])] False
      (writer_init (Fin 0), health_init) = ((w', h'), 1)
    \<and> writer_write no_repr no_repr sample_env [sample_account ''U1'' (VList [VInt 1])] False (w', h')
      = ((w', h'), 0)"
proof -
  let ?accts = "[sample_account ''U1'' (VList [VInt 1])]"
  have "snd (writer_write no_repr no_repr sample_env ?accts False (writer_init (Fin 0), health_init)) = 1"
    by code_simp
  then obtain w' h' where w: "writer_write no_repr no_repr sample_env ?accts False
      (writer_init (Fin 0), health_init) = ((w', h'), 1)" by (metis prod.collapse)
  have "distinct (map (account_id no_repr) ?accts)" by simp
  from unchanged_accounts_not_rewritten [OF this w] w show ?thesis by simp
qed

lemma stale_snapshot_writes_nothing_witness:
  "sync_once no_repr no_repr sample_env (Fin 1000) (Inr (VDict [(''updated_at'', VFloat (Fin 500))])) True
     (Some (writer_init (Fin 0)), health_init) = ((Some (writer_init (Fin 0)), health_init), Inr 0)"
  by (rule stale_snapshot_writes_nothing [where t = "Fin 500"]) (simp_all add: snapshot_max_age_def)

lemma null_positions_erase_memory_witness:
  "refuse_reason no_repr (writer_init (Fin 0)) (sample_account ''U1'' VNone) = None
   \<and> refuse_reason no_repr (note_written no_repr no_repr (sample_account ''U1'' VNone) (writer_init (Fin 0)))
       (sample_account ''U1'' (VList [])) = None"
proof (rule null_positions_erase_memory [where s = "[(''NetLiquidation'', VStr ''100'')]" and net = "''100''"])
  show "account_id no_repr (sample_account ''U1'' (VList [])) = account_id no_repr (sample_account ''U1'' VNone)"
    by code_simp
  show "account_id no_repr (sample_account ''U1'' VNone) \<noteq> []" by code_simp
  show "strip ''100'' \<noteq> []" by code_simp
qed (simp_all add: sample_account_def degraded_def)

end
