(* ===== verification/DaemonFsm.thy ===== *)
theory DaemonFsm imports StateEnums begin

text \<open>
  The daemon's lifecycle machine, \<open>fsm/daemon_fsm.py\<close>: states, the table of allowed transitions, and
  the operations of \<open>DaemonFSM\<close>. The optional \<open>on_transition\<close> callback is an observer whose exceptions
  are swallowed; the machine records the calls it makes to it.
\<close>

section \<open>States and table\<close>

datatype daemon_state =
    DS_IDLE | DS_CONNECTING | DS_CONNECTED | DS_RUNNING | DS_RUNNING_SUSPENDED | DS_STOPPING
  | DS_STOPPED

fun daemon_state_value :: "daemon_state \<Rightarrow> string" where
  "daemon_state_value DS_IDLE = ''idle''"
| "daemon_state_value DS_CONNECTING = ''connecting''"
| "daemon_state_value DS_CONNECTED = ''connected''"
| "daemon_state_value DS_RUNNING = ''running''"
| "daemon_state_value DS_RUNNING_SUSPENDED = ''running_suspended''"
| "daemon_state_value DS_STOPPING = ''stopping''"
| "daemon_state_value DS_STOPPED = ''stopped''"

fun daemon_allowed :: "daemon_state \<Rightarrow> daemon_state set" where
  "daemon_allowed DS_IDLE = {DS_CONNECTING, DS_STOPPED}"
| "daemon_allowed DS_CONNECTING = {DS_CONNECTED, DS_STOPPING}"
| "daemon_allowed DS_CONNECTED = {DS_RUNNING, DS_STOPPING}"
| "daemon_allowed DS_RUNNING = {DS_STOPPING, DS_RUNNING_SUSPENDED}"
| "daemon_allowed DS_RUNNING_SUSPENDED = {DS_RUNNING, DS_STOPPING}"
| "daemon_allowed DS_STOPPING = {DS_STOPPED}"
| "daemon_allowed DS_STOPPED = {}"

section \<open>The machine\<close>

record daemon_fsm =
  d_current :: daemon_state
  d_on_transition :: bool
  d_calls :: "(daemon_state \<times> daemon_state) list"

definition daemon_init :: "bool \<Rightarrow> daemon_fsm" where
  "daemon_init cb = \<lparr>d_current = DS_IDLE, d_on_transition = cb, d_calls = []\<rparr>"

definition daemon_can_transition_to :: "daemon_fsm \<Rightarrow> daemon_state \<Rightarrow> bool" where
  "daemon_can_transition_to m to_state = (to_state \<in> daemon_allowed (d_current m))"

definition daemon_transition :: "daemon_fsm \<Rightarrow> daemon_state \<Rightarrow> bool \<times> daemon_fsm" where
  "daemon_transition m to_state =
     (if \<not> daemon_can_transition_to m to_state then (False, m)
      else let from_state = d_current m;
               m' = m\<lparr>d_current := to_state\<rparr>
           in (True, if d_on_transition m
                     then m'\<lparr>d_calls := d_calls m' @ [(from_state, to_state)]\<rparr> else m'))"

definition daemon_is_running :: "daemon_fsm \<Rightarrow> bool" where
  "daemon_is_running m = (d_current m \<in> {DS_RUNNING, DS_RUNNING_SUSPENDED})"

definition daemon_is_active :: "daemon_fsm \<Rightarrow> bool" where
  "daemon_is_active m = (d_current m \<in> {DS_CONNECTED, DS_RUNNING})"

definition daemon_request_stop :: "daemon_fsm \<Rightarrow> bool \<times> daemon_fsm" where
  "daemon_request_stop m =
     (if d_current m \<in> {DS_RUNNING, DS_RUNNING_SUSPENDED, DS_CONNECTING, DS_CONNECTED}
      then daemon_transition m DS_STOPPING
      else if d_current m = DS_IDLE then daemon_transition m DS_STOPPED
      else (False, m))"

definition daemon_table :: "daemon_state \<Rightarrow> daemon_state \<Rightarrow> daemon_state option" where
  "daemon_table s to_state = (if to_state \<in> daemon_allowed s then Some to_state else None)"

interpretation dfsm: table_machine d_current daemon_transition daemon_table
  by unfold_locales
    (auto simp: daemon_table_def daemon_transition_def daemon_can_transition_to_def Let_def
          split: if_splits)

section \<open>The order of the lifecycle\<close>

text \<open>
  How far a state is along the lifecycle. The two running states share a rank, because suspension
  goes back and forth between them.
\<close>

fun lifecycle_rank :: "daemon_state \<Rightarrow> nat" where
  "lifecycle_rank DS_IDLE = 0"
| "lifecycle_rank DS_CONNECTING = 1"
| "lifecycle_rank DS_CONNECTED = 2"
| "lifecycle_rank DS_RUNNING = 3"
| "lifecycle_rank DS_RUNNING_SUSPENDED = 3"
| "lifecycle_rank DS_STOPPING = 4"
| "lifecycle_rank DS_STOPPED = 5"

lemma daemon_allowed_rank: "s' \<in> daemon_allowed s \<Longrightarrow> lifecycle_rank s \<le> lifecycle_rank s'"
  by (cases s) auto

lemma daemon_transition_current:
  "d_current (snd (daemon_transition m s)) = (if s \<in> daemon_allowed (d_current m) then s else d_current m)"
  by (simp add: daemon_transition_def daemon_can_transition_to_def Let_def)

lemma daemon_transition_ok [simp]:
  "fst (daemon_transition m s) \<longleftrightarrow> s \<in> daemon_allowed (d_current m)"
  by (simp add: daemon_transition_def daemon_can_transition_to_def Let_def)

lemma daemon_can_transition_iff [simp]:
  "daemon_can_transition_to m s \<longleftrightarrow> s \<in> daemon_allowed (d_current m)"
  by (simp add: daemon_can_transition_to_def)

text \<open>What a stop request does to each state.\<close>

fun stop_target :: "daemon_state \<Rightarrow> daemon_state" where
  "stop_target DS_IDLE = DS_STOPPED"
| "stop_target DS_STOPPING = DS_STOPPING"
| "stop_target DS_STOPPED = DS_STOPPED"
| "stop_target _ = DS_STOPPING"

lemma daemon_request_stop_current:
  "d_current (snd (daemon_request_stop m)) = stop_target (d_current m)"
  by (cases "d_current m") (simp_all add: daemon_request_stop_def daemon_transition_current)

lemma daemon_request_stop_ok:
  "fst (daemon_request_stop m) \<longleftrightarrow> d_current m \<notin> {DS_STOPPING, DS_STOPPED}"
  by (cases "d_current m") (simp_all add: daemon_request_stop_def)

lemmas daemon_fsm_simps [fsm_simps] =
  daemon_transition_current daemon_request_stop_current daemon_is_running_def daemon_is_active_def

interpretation lifecycle: monotone_machine
  "\<lambda>m s. snd (daemon_transition m s)" "\<lambda>m. lifecycle_rank (d_current m)"
  by unfold_locales (simp add: daemon_transition_current daemon_allowed_rank)

end
