(* ===== verification/App.thy ===== *)
theory App imports TradingFsm Strategy AccountPush DaemonFsm begin

text \<open>
  The daemon object \<open>GsTrading\<close> of \<open>app/gs_trading.py\<close>: its fields, its construction from a configuration
  and the hot reload. What the core library, Redis, Postgres and the pricing code provide is gathered in
  the record \<open>ext\<close>; every definition that uses it takes it as an argument.
\<close>

section \<open>The object\<close>

text \<open>The dictionary that \<open>get_hedge_config\<close> returns, by the keys the daemon reads.\<close>

record hedge_config =
  hc_cooldown_sec :: int
  hc_max_daily_hedge_count :: int
  hc_max_position_shares :: int
  hc_max_daily_loss_usd :: fl
  hc_max_net_delta_shares :: "fl option"
  hc_max_spread_pct :: "fl option"
  hc_min_price_move_pct :: fl
  hc_earnings_dates :: "string list option"
  hc_blackout_days_before :: int
  hc_blackout_days_after :: int
  hc_trading_hours_only :: bool
  hc_min_hedge_shares :: int
  hc_threshold_hedge_shares :: fl
  hc_max_hedge_shares_per_order :: int

text \<open>The calls of the status sink, logged in order. The sink may raise in any of them.\<close>

record heartbeat_fields =
  hf_hedge_running :: bool
  hf_ib_connected :: bool
  hf_ib_client_id :: pyval
  hf_interval :: fl
  hf_quotes_connected :: bool
  hf_mock_hedging :: bool
  hf_listener :: pydict

datatype sink_call =
    WriteSnapshot pydict
  | WriteDaemonHeartbeat heartbeat_fields
  | WriteControlMessage "string option"
  | WriteSubscribedTickers "string list"
  | SinkClose
  | GracefulShutdown

record 'pos app =
  ap_config :: pydict
  ap_structure_cfg :: pydict
  ap_risk_cfg :: pydict
  ap_greeks_cfg :: pyval
  ap_hedge_cfg :: hedge_config
  ap_host_account_id :: "string option"
  ap_symbol :: string
  ap_paper_trade :: bool
  ap_mock_hedging :: bool
  ap_guard :: exec_guard
  ap_daemon :: daemon_fsm
  ap_hedge :: hedge_fsm
  ap_trading :: trading_fsm
  ap_store :: "'pos store"
  ap_market_data :: market_data
  ap_orders :: order_manager
  ap_metrics :: metrics
  ap_heartbeat_interval :: fl
  ap_interval_from_db :: "fl option"
  ap_accounts_interval :: fl
  ap_last_accounts_ts :: fl
  ap_last_positions_ts :: fl
  ap_last_config_mtime :: "fl option"
  ap_has_sink :: bool
  ap_sink_calls :: "sink_call list"
  ap_reader :: "bool option"
  ap_writer :: "account_writer option"
  ap_health :: daemon_health

text \<open>
  The parameters: configuration readers, the sink's and the reader's constructors, the pricing code, the
  shares of the position book, a quote by symbol, the refresh helpers of the core library (arbitrary
  actions on the object), whether a call of the sink raises, and which optional methods the sink has.
\<close>

record ('pos, 'leg) ext =
  x_structure :: "pydict \<Rightarrow> pydict"
  x_risk :: "pydict \<Rightarrow> pydict"
  x_hedge :: "pydict \<Rightarrow> hedge_config"
  x_guards :: gates_config
  x_state_space :: "pydict \<Rightarrow> pydict"
  x_sink_opens :: "pydict \<Rightarrow> bool"
  x_db_ib :: "pydict option"
  x_reader :: "pydict \<Rightarrow> bool option"
  x_sink :: "sink_call \<Rightarrow> unit res"
  x_sink_can :: "string \<Rightarrow> bool"
  x_quote :: "string \<Rightarrow> pydict res"
  x_option_legs :: "'pos list \<Rightarrow> string \<Rightarrow> pyval \<Rightarrow> pyval \<Rightarrow> pyval \<Rightarrow> fl \<Rightarrow> 'leg list res"
  x_delta :: "'leg delta_fn"
  x_gamma :: "'leg gamma_fn"
  x_sqrt :: "fl \<Rightarrow> fl res"
  x_square :: "fl \<Rightarrow> fl res"
  x_book_stock :: "'pos store \<Rightarrow> int"
  x_refresh_positions :: "('pos app, unit) act"
  x_refresh_accounts :: "('pos app, unit) act"
  x_refresh_executions :: "('pos app, unit) act"
  x_refresh_edge :: "('pos app, unit) act"
  x_rep :: "pyval \<Rightarrow> string"
  x_digest :: "pyval \<Rightarrow> string"

section \<open>Construction\<close>

definition guard_of_config :: "hedge_config \<Rightarrow> exec_guard" where
  "guard_of_config hc =
     mk_exec_guard (hc_cooldown_sec hc) (hc_max_daily_hedge_count hc) (hc_max_position_shares hc)
       (hc_max_daily_loss_usd hc) (hc_max_net_delta_shares hc) (hc_max_spread_pct hc)
       (hc_min_price_move_pct hc) (hc_earnings_dates hc) (hc_blackout_days_before hc)
       (hc_blackout_days_after hc) (hc_trading_hours_only hc)"

definition host_account_of :: "(pyval \<Rightarrow> string) \<Rightarrow> pydict option \<Rightarrow> string option" where
  "host_account_of rep db_ib =
     (case db_ib of
        None \<Rightarrow> None
      | Some d \<Rightarrow> let v = dget d ''host_account_id'' VNone
                 in if truthy v then Some (strip (py_str rep v)) else None)"

text \<open>
  \<open>GsTrading(config)\<close>; \<open>pghost\<close> tells whether the environment names a database, \<open>mono\<close> is the monotonic
  clock. The configuration of the trading machine is resolved once, here.
\<close>

definition mk_app :: "('pos, 'leg) ext \<Rightarrow> pydict \<Rightarrow> bool \<Rightarrow> fl \<Rightarrow> daemon_health \<Rightarrow> 'pos app res" where
  "mk_app x config pghost t0 health =
     (let postgres = py_or (dget config ''postgres'' (VDict [])) (VDict []);
          has_sink = (truthy postgres \<or> pghost) \<and> x_sink_opens x config;
          hc = x_hedge x config
      in rbind (x_guards x config) (\<lambda>gates.
         rbind (vget (py_or (dget config ''daemon'' VNone) (VDict [])) ''heartbeat_interval'' (VFloat (Fin 10)))
           (\<lambda>raw.
         rbind (py_float raw) (\<lambda>interval.
           Inr \<lparr>ap_config = config, ap_structure_cfg = x_structure x config, ap_risk_cfg = x_risk x config,
                ap_greeks_cfg = dget config ''greeks'' (VDict []), ap_hedge_cfg = hc,
                ap_host_account_id =
                  (if has_sink then host_account_of (x_rep x) (x_db_ib x) else None),
                ap_symbol = [], ap_paper_trade = True, ap_mock_hedging = True,
                ap_guard = guard_of_config hc, ap_daemon = daemon_init False,
                ap_hedge = hedge_init (hc_min_hedge_shares hc) False,
                ap_trading = trading_init (Some gates) False, ap_store = store_init,
                ap_market_data = \<lparr>md_last_ts = None\<rparr>,
                ap_orders = om_set_hedge_fsm om_init True, ap_metrics = metrics_init,
                ap_heartbeat_interval = interval, ap_interval_from_db = None,
                ap_accounts_interval = Fin 3600, ap_last_accounts_ts = Fin 0, ap_last_positions_ts = Fin 0,
                ap_last_config_mtime = None, ap_has_sink = has_sink, ap_sink_calls = [],
                ap_reader = x_reader x config,
                ap_writer = (if has_sink then Some (writer_init t0) else None),
                ap_health = health\<rparr>))))"

section \<open>Hot reload\<close>

definition guard_update_of :: "hedge_config \<Rightarrow> guard_update" where
  "guard_update_of hc =
     \<lparr>gu_cooldown_sec = Some (hc_cooldown_sec hc),
      gu_max_daily_hedge_count = Some (hc_max_daily_hedge_count hc),
      gu_max_position_shares = Some (hc_max_position_shares hc),
      gu_max_daily_loss_usd = Some (hc_max_daily_loss_usd hc),
      gu_max_net_delta_shares = hc_max_net_delta_shares hc, gu_max_spread_pct = hc_max_spread_pct hc,
      gu_min_price_move_pct = Some (hc_min_price_move_pct hc),
      gu_earnings_dates = hc_earnings_dates hc,
      gu_blackout_days_before = Some (hc_blackout_days_before hc),
      gu_blackout_days_after = Some (hc_blackout_days_after hc),
      gu_trading_hours_only = Some (hc_trading_hours_only hc)\<rparr>"

definition reload_config :: "('pos, 'leg) ext \<Rightarrow> pydict \<Rightarrow> 'pos app \<Rightarrow> 'pos app" where
  "reload_config x config a =
     (let hc = x_hedge x config
      in a\<lparr>ap_config := config, ap_structure_cfg := x_structure x config, ap_hedge_cfg := hc,
           ap_greeks_cfg := dget config ''greeks'' (ap_greeks_cfg a), ap_risk_cfg := x_risk x config,
           ap_paper_trade := True, ap_mock_hedging := True,
           ap_guard := update_config (ap_guard a) (guard_update_of hc),
           ap_reader := x_reader x config\<rparr>)"

text \<open>
  One turn of \<open>_reload_config_loop\<close> after its sleep: the result says whether the loop goes on. The file's
  time and its content may fail to be read; a failure changes nothing and is only logged.
\<close>

definition reload_turn ::
  "('pos, 'leg) ext \<Rightarrow> fl res \<Rightarrow> pydict res \<Rightarrow> 'pos app \<Rightarrow> 'pos app \<times> bool" where
  "reload_turn x mtime file a =
     (if \<not> daemon_is_running (ap_daemon a) then (a, False)
      else case mtime of
             Inl _ \<Rightarrow> (a, True)
           | Inr t \<Rightarrow>
               (case ap_last_config_mtime a of
                  None \<Rightarrow> (a\<lparr>ap_last_config_mtime := Some t\<rparr>, True)
                | Some t0 \<Rightarrow>
                    if t0 < t
                    then (case file of
                            Inl _ \<Rightarrow> (a, True)
                          | Inr config \<Rightarrow>
                              ((reload_config x config a)\<lparr>ap_last_config_mtime := Some t\<rparr>, True))
                    else (a, True)))"

section \<open>Writing to the sink\<close>

definition sink_write :: "('pos, 'leg) ext \<Rightarrow> sink_call \<Rightarrow> ('pos app, unit) act" where
  "sink_write x c a = (a\<lparr>ap_sink_calls := ap_sink_calls a @ [c]\<rparr>, x_sink x c)"

definition upd_daemon :: "(daemon_fsm \<Rightarrow> bool \<times> daemon_fsm) \<Rightarrow> 'pos app \<Rightarrow> 'pos app" where
  "upd_daemon f a = a\<lparr>ap_daemon := snd (f (ap_daemon a))\<rparr>"

definition upd_hedge :: "(hedge_fsm \<Rightarrow> bool \<times> hedge_fsm) \<Rightarrow> 'pos app \<Rightarrow> 'pos app" where
  "upd_hedge f a = a\<lparr>ap_hedge := snd (f (ap_hedge a))\<rparr>"

definition upd_store :: "('pos store \<Rightarrow> 'pos store) \<Rightarrow> 'pos app \<Rightarrow> 'pos app" where
  "upd_store f a = a\<lparr>ap_store := f (ap_store a)\<rparr>"

definition upd_metrics :: "(metrics \<Rightarrow> metrics) \<Rightarrow> 'pos app \<Rightarrow> 'pos app" where
  "upd_metrics f a = a\<lparr>ap_metrics := f (ap_metrics a)\<rparr>"

definition upd_guard :: "(exec_guard \<Rightarrow> exec_guard) \<Rightarrow> 'pos app \<Rightarrow> 'pos app" where
  "upd_guard f a = a\<lparr>ap_guard := f (ap_guard a)\<rparr>"

definition upd_market :: "(market_data \<Rightarrow> market_data) \<Rightarrow> 'pos app \<Rightarrow> 'pos app" where
  "upd_market f a = a\<lparr>ap_market_data := f (ap_market_data a)\<rparr>"

text \<open>\<open>app._fsm_trading.apply_transition(event, snapshot)\<close>; the machine shares the order gate's guard.\<close>

definition app_trading ::
  "('pos, 'leg) ext \<Rightarrow> trading_event \<Rightarrow> state_snapshot \<Rightarrow> ('pos app, unit) act" where
  "app_trading x ev snap a =
     (case apply_transition (x_guards x) (Some (ap_guard a)) (ap_trading a) ev snap of
        Inl e \<Rightarrow> (a, Inl e)
      | Inr (m', _) \<Rightarrow> (a\<lparr>ap_trading := m'\<rparr>, Inr ()))"

lemmas upd_defs [simp] = upd_daemon_def upd_hedge_def upd_store_def upd_metrics_def upd_guard_def
  upd_market_def

section \<open>Properties\<close>

lemma reload_turn_calls:
  "reload_turn x mtime file a = (a', go) \<Longrightarrow>
     ap_trading a' = ap_trading a \<and> ap_hedge a' = ap_hedge a \<and> ap_daemon a' = ap_daemon a
     \<and> ap_store a' = ap_store a
     \<and> (ap_guard a' = ap_guard a \<or> (\<exists>u. ap_guard a' = guard_step (ap_guard a) (Reload u)))"
  by (auto simp: reload_turn_def reload_config_def Let_def split: if_splits sum.splits option.splits)

text \<open>
  A hot reload does not reach the state machines: the trading machine goes on with the thresholds
  resolved at start and the hedge machine with the minimal order at start, while the classifier, the
  scalper and the order gate use the new configuration.
\<close>

theorem reload_leaves_machines:
  "ap_trading (reload_config x config a) = ap_trading a
   \<and> ap_hedge (reload_config x config a) = ap_hedge a
   \<and> ap_config (reload_config x config a) = config
   \<and> ap_hedge_cfg (reload_config x config a) = x_hedge x config
   \<and> eg_cooldown_sec (ap_guard (reload_config x config a)) = hc_cooldown_sec (x_hedge x config)"
  by (simp add: reload_config_def update_config_def guard_update_of_def keep_def Let_def)

text \<open>
  A reload cannot lift an optional limit: when the new configuration has no spread limit or no net
  delta limit, the guard keeps the one it had; every other setting follows the configuration.
\<close>

theorem reload_cannot_lift_limits:
  assumes "hc_max_spread_pct (x_hedge x config) = None"
    and "hc_max_net_delta_shares (x_hedge x config) = None"
  shows "eg_max_spread_pct (ap_guard (reload_config x config a)) = eg_max_spread_pct (ap_guard a)
   \<and> eg_max_net_delta_shares (ap_guard (reload_config x config a)) = eg_max_net_delta_shares (ap_guard a)
   \<and> eg_max_position_shares (ap_guard (reload_config x config a)) = hc_max_position_shares (x_hedge x config)"
  using assms
  by (simp add: reload_config_def update_config_def guard_update_of_def keep_def keep_opt_def Let_def)

section \<open>A sample object\<close>

text \<open>Concrete parameters for the witnesses: a fixed hedge configuration and helpers that do nothing.\<close>

definition sample_hedge_config :: hedge_config where
  "sample_hedge_config =
     \<lparr>hc_cooldown_sec = 60, hc_max_daily_hedge_count = 2, hc_max_position_shares = 100,
      hc_max_daily_loss_usd = Fin 5000, hc_max_net_delta_shares = None, hc_max_spread_pct = None,
      hc_min_price_move_pct = Fin 0, hc_earnings_dates = None, hc_blackout_days_before = 3,
      hc_blackout_days_after = 1, hc_trading_hours_only = True, hc_min_hedge_shares = 10,
      hc_threshold_hedge_shares = Fin 25, hc_max_hedge_shares_per_order = 500\<rparr>"

definition sample_ext :: "(unit, unit) ext" where
  "sample_ext =
     \<lparr>x_structure = (\<lambda>c. []), x_risk = (\<lambda>c. []), x_hedge = (\<lambda>c. sample_hedge_config), x_guards = Inr,
      x_state_space = (\<lambda>c. []), x_sink_opens = (\<lambda>c. True), x_db_ib = None, x_reader = (\<lambda>c. Some True),
      x_sink = (\<lambda>c. Inr ()), x_sink_can = (\<lambda>_. True), x_quote = (\<lambda>s. Inr []), x_option_legs = (\<lambda>_ _ _ _ _ _. Inr [()]),
      x_delta = (\<lambda>_ _ _ _ _. Inr (Fin 60)), x_gamma = (\<lambda>_ _ _ _. Inr (Fin 1)), x_sqrt = Inr,
      x_square = Inr, x_book_stock = (\<lambda>s. st_stock_position s), x_refresh_positions = act_return (),
      x_refresh_accounts = act_return (), x_refresh_executions = act_return (),
      x_refresh_edge = act_return (), x_rep = no_repr, x_digest = no_repr\<rparr>"

definition sample_app :: "trading_state \<Rightarrow> unit app" where
  "sample_app s =
     \<lparr>ap_config = [], ap_structure_cfg = [], ap_risk_cfg = [], ap_greeks_cfg = VDict [],
      ap_hedge_cfg = sample_hedge_config, ap_host_account_id = None, ap_symbol = ''NVDA'',
      ap_paper_trade = True, ap_mock_hedging = True, ap_guard = guard_of_config sample_hedge_config,
      ap_daemon = daemon_init False, ap_hedge = hedge_init 10 False, ap_trading = sample_trading s,
      ap_store = set_underlying_price store_init (Some (Fin 100)),
      ap_market_data = \<lparr>md_last_ts = Some (Fin 1000)\<rparr>, ap_orders = om_set_hedge_fsm om_init True,
      ap_metrics = metrics_init, ap_heartbeat_interval = Fin 10, ap_interval_from_db = None,
      ap_accounts_interval = Fin 3600, ap_last_accounts_ts = Fin 0, ap_last_positions_ts = Fin 0,
      ap_last_config_mtime = None, ap_has_sink = False, ap_sink_calls = [], ap_reader = Some True,
      ap_writer = None, ap_health = health_init\<rparr>"

lemma reload_cannot_lift_limits_witness:
  "eg_max_spread_pct (ap_guard (reload_config sample_ext []
     (upd_guard (\<lambda>g. g\<lparr>eg_max_spread_pct := Some (Fin 1)\<rparr>) (sample_app T_MONITOR)))) = Some (Fin 1)"
  using reload_cannot_lift_limits
    [of sample_ext "[]" "upd_guard (\<lambda>g. g\<lparr>eg_max_spread_pct := Some (Fin 1)\<rparr>) (sample_app T_MONITOR)"]
  by (simp add: sample_ext_def sample_hedge_config_def)

end
