(* ===== verification/AppSnapshot.thy ===== *)
theory AppSnapshot imports App begin

text \<open>
  Building snapshots, \<open>app/snapshot.py\<close>: the trading snapshot from a composite state, the two dictionaries
  for the status sink, and \<open>refresh_and_build_snapshot\<close>, which refreshes positions and the spot price,
  prices the legs, classifies and builds the snapshot.
\<close>

section \<open>The trading snapshot\<close>

definition build_snapshot :: "composite_state \<Rightarrow> fl option \<Rightarrow> 'leg greeks option \<Rightarrow> int \<Rightarrow> state_snapshot" where
  "build_snapshot cs spot greeks legs_count =
     from_composite_state cs spot
       (map_option (\<lambda>g. \<lparr>gs_delta = gk_delta g, gs_gamma = gk_gamma g, gs_theta = Fin 0, gs_vega = Fin 0,
                         gs_valid = gk_valid g\<rparr>) greeks)
       None None legs_count"

section \<open>Dictionaries for the sink\<close>

definition vfloat :: "fl option \<Rightarrow> pyval" where
  "vfloat x = (case x of None \<Rightarrow> VNone | Some y \<Rightarrow> VFloat y)"

definition vstr :: "string option \<Rightarrow> pyval" where
  "vstr s = (case s of None \<Rightarrow> VNone | Some t \<Rightarrow> VStr t)"

text \<open>\<open>float(v) if v else None\<close>, a \<open>TypeError\<close> or \<open>ValueError\<close> counting as \<open>None\<close>.\<close>

definition float_or_none :: "pyval \<Rightarrow> pyval res" where
  "float_or_none v =
     (if \<not> truthy v then Inr VNone
      else case py_float v of
             Inr x \<Rightarrow> Inr (VFloat x)
           | Inl TypeError \<Rightarrow> Inr VNone
           | Inl ValueError \<Rightarrow> Inr VNone
           | Inl e \<Rightarrow> Inl e)"

definition account_entries :: "'pos store \<Rightarrow> pydict res" where
  "account_entries st =
     (case get_account_summary st of
        Some acc \<Rightarrow>
          rbind (float_or_none (dget acc ''NetLiquidation'' VNone)) (\<lambda>net.
          rbind (float_or_none (dget acc ''TotalCashValue'' VNone)) (\<lambda>cash.
          rbind (float_or_none (dget acc ''BuyingPower'' VNone)) (\<lambda>power.
            Inr [(''account_id'', vstr (st_account_id st)), (''account_net_liquidation'', net),
                 (''account_total_cash'', cash), (''account_buying_power'', power)])))
      | None \<Rightarrow> Inr [(''account_id'', VNone), (''account_net_liquidation'', VNone),
                     (''account_total_cash'', VNone), (''account_buying_power'', VNone)])"

definition symbol_entry :: "string \<Rightarrow> pyval" where
  "symbol_entry s = (if s = [] then VNone else VStr s)"

definition config_summary :: "bool \<Rightarrow> pyval" where
  "config_summary paper = VStr (''paper_trade='' @ (if paper then ''True'' else ''False''))"

definition build_snapshot_dict ::
  "fl \<Rightarrow> 'pos app \<Rightarrow> state_snapshot \<Rightarrow> fl \<Rightarrow> composite_state \<Rightarrow> fl option \<Rightarrow> pydict res" where
  "build_snapshot_dict now a snap spot cs data_lag_ms =
     rmap (\<lambda>acc.
       [(''daemon_state'', VStr (daemon_state_value (d_current (ap_daemon a)))),
        (''trading_state'', VStr (trading_state_value (tf_state (ap_trading a)))),
        (''symbol'', symbol_entry (ap_symbol a)), (''spot'', VFloat spot),
        (''bid'', vfloat (st_bid (ap_store a))), (''ask'', vfloat (st_ask (ap_store a))),
        (''net_delta'', VFloat (cs_net_delta cs)), (''stock_position'', VInt (cs_stock_pos cs)),
        (''option_legs_count'', VInt (ss_option_legs_count snap)),
        (''daily_hedge_count'', VInt (st_daily_hedge_count (ap_store a))),
        (''daily_pnl'', VFloat (st_daily_pnl (ap_store a))),
        (''data_lag_ms'', vfloat data_lag_ms),
        (''config_summary'', config_summary (ap_paper_trade a)), (''ts'', VFloat now)] @ acc)
       (account_entries (ap_store a))"

definition build_heartbeat_minimal_dict :: "fl \<Rightarrow> 'pos app \<Rightarrow> pydict res" where
  "build_heartbeat_minimal_dict now a =
     rmap (\<lambda>acc.
       [(''daemon_state'', VStr (daemon_state_value (d_current (ap_daemon a)))),
        (''trading_state'', VStr (trading_state_value (tf_state (ap_trading a)))),
        (''symbol'', symbol_entry (ap_symbol a)), (''spot'', VNone),
        (''bid'', vfloat (st_bid (ap_store a))), (''ask'', vfloat (st_ask (ap_store a))),
        (''net_delta'', VNone),
        (''stock_position'',
          if st_stock_position (ap_store a) = 0 then VNone else VInt (st_stock_position (ap_store a))),
        (''option_legs_count'', VInt 0),
        (''daily_hedge_count'', VInt (st_daily_hedge_count (ap_store a))),
        (''daily_pnl'', VFloat (st_daily_pnl (ap_store a))),
        (''data_lag_ms'', VNone),
        (''config_summary'', config_summary (ap_paper_trade a)), (''ts'', VFloat now)] @ acc)
       (account_entries (ap_store a))"

section \<open>Refreshing\<close>

definition no_number_error :: "pyexc \<Rightarrow> bool" where
  "no_number_error e \<longleftrightarrow> e = TypeError \<or> e = ValueError"

definition opt_float :: "pyval \<Rightarrow> fl option res" where
  "opt_float v = (if v = VNone then Inr None else rmap Some (py_float v))"

text \<open>
  The \<open>try\<close> block that takes a Redis quote over into the store: each assignment made before a value that
  is no number stays. The local \<open>spot\<close> is carried next to the object.
\<close>

definition take_last :: "pyval \<Rightarrow> ('pos app \<times> fl option, unit) act" where
  "take_last v =
     act_bind (act_lift (opt_float v)) (\<lambda>last_f.
       case last_f of
         None \<Rightarrow> act_return ()
       | Some x \<Rightarrow>
           act_when (isfinite x \<and> Fin 0 < x)
             (act_modify (\<lambda>(a, spot). (upd_store (\<lambda>s. set_underlying_price s (Some x)) a, Some x))))"

definition take_bid_ask :: "pyval \<Rightarrow> pyval \<Rightarrow> ('pos app \<times> fl option, unit) act" where
  "take_bid_ask bid ask =
     act_bind (act_lift (opt_float bid)) (\<lambda>bid_f.
     act_bind (act_lift (opt_float ask)) (\<lambda>ask_f.
       case (bid_f, ask_f) of
         (Some b, Some k) \<Rightarrow>
           act_when (isfinite b \<and> isfinite k)
             (act_modify (\<lambda>(a, spot). (upd_store (\<lambda>s. set_underlying_quote s (Some b) (Some k)) a, spot)))
       | _ \<Rightarrow> act_return ()))"

definition take_ts :: "fl \<Rightarrow> pyval \<Rightarrow> ('pos app \<times> fl option, unit) act" where
  "take_ts now qts =
     (let touch = act_modify (\<lambda>(a, spot). (upd_market (\<lambda>m. md_touch_ts m now) a, spot))
      in if qts = VNone then touch
         else act_catch no_number_error
                (act_bind (act_lift (py_float qts)) (\<lambda>t.
                   act_modify (\<lambda>(a, spot). (upd_market (\<lambda>m. md_set_last_ts m (Some t)) a, spot))))
                touch)"

definition take_quote :: "fl \<Rightarrow> pydict \<Rightarrow> ('pos app \<times> fl option, unit) act" where
  "take_quote now q =
     act_catch no_number_error
       (act_seq (take_last (dget q ''last'' VNone))
         (act_seq (take_bid_ask (dget q ''bid'' VNone) (dget q ''ask'' VNone))
           (take_ts now (dget q ''ts'' VNone))))
       (act_return ())"

definition no_spot :: "fl option \<Rightarrow> bool" where
  "no_spot spot = (case spot of None \<Rightarrow> True | Some x \<Rightarrow> x \<le> Fin 0)"

text \<open>The spot in the store, or else from the reader's quote for the symbol.\<close>

definition refresh_spot :: "('pos, 'leg) ext \<Rightarrow> fl \<Rightarrow> ('pos app, fl option) act" where
  "refresh_spot x now a =
     (let spot = st_price (ap_store a); sym = strip (ap_symbol a) in
      if no_spot spot \<and> ap_reader a = Some True \<and> sym \<noteq> []
      then case x_quote x sym of
             Inl e \<Rightarrow> (a, Inl e)
           | Inr q \<Rightarrow>
               if q = [] then (a, Inr spot)
               else let ((a', spot'), r) = take_quote now q (a, spot) in (a', rmap (\<lambda>_. spot') r)
      else (a, Inr spot))"

record refresh_clock =
  rc_now :: fl
  rc_touch :: fl
  rc_lag :: fl
  rc_classify :: classify_clock

type_synonym refreshed = "(state_snapshot \<times> fl \<times> composite_state \<times> fl option) option"

text \<open>Everything after the spot is known: legs, Greeks, lag, classification, snapshot.\<close>

definition classify_at :: "('pos, 'leg) ext \<Rightarrow> refresh_clock \<Rightarrow> int \<Rightarrow> fl \<Rightarrow> 'pos app \<Rightarrow> refreshed res" where
  "classify_at x clk stock_shares spot a =
     (let cfg = ap_structure_cfg a in
      rbind (x_option_legs x (st_positions (ap_store a)) (ap_symbol a)
               (dget cfg ''min_dte'' (VInt 21)) (dget cfg ''max_dte'' (VInt 35))
               (dget cfg ''atm_band_pct'' (VFloat (fl_const (3 / 100)))) spot) (\<lambda>legs.
      rbind (vget (ap_greeks_cfg a) ''risk_free_rate'' (VFloat (fl_const (5 / 100)))) (\<lambda>r.
      rbind (vget (ap_greeks_cfg a) ''volatility'' (VFloat (fl_const (35 / 100)))) (\<lambda>vol.
      let greeks = mk_greeks (x_delta x) (x_gamma x) legs stock_shares spot r vol;
          data_lag = map_option (\<lambda>ts. (rc_lag clk - ts) * Fin 1000) (md_last_ts (ap_market_data a))
      in rbind (classify (x_sqrt x) (x_square x) (rc_classify clk) (x_book_stock x (ap_store a))
                  (ap_store a) (ap_market_data a) greeks (ap_orders a) (ap_hedge a)
                  (st_last_hedge_price (ap_store a)) (st_last_hedge_time (ap_store a)) data_lag
                  (eg_circuit_breaker (ap_guard a)) (x_state_space x (ap_config a)) None) (\<lambda>cs.
         Inr (Some (build_snapshot cs (Some spot) (Some greeks) (int (length legs)), spot, cs, data_lag)))))))"

definition refresh_positions_if_due :: "('pos, 'leg) ext \<Rightarrow> fl \<Rightarrow> ('pos app, unit) act" where
  "refresh_positions_if_due x now a =
     (if ap_accounts_interval a \<le> now - ap_last_positions_ts a
      then act_seq (x_refresh_positions x) (act_modify (\<lambda>a. a\<lparr>ap_last_positions_ts := now\<rparr>)) a
      else (a, Inr ()))"

definition refresh_and_build_snapshot ::
  "('pos, 'leg) ext \<Rightarrow> refresh_clock \<Rightarrow> ('pos app, refreshed) act" where
  "refresh_and_build_snapshot x clk =
     act_seq (refresh_positions_if_due x (rc_now clk))
       (act_bind (act_get ap_symbol) (\<lambda>symbol.
          if symbol = [] then act_return None
          else act_bind (act_get (\<lambda>a. st_stock_position (ap_store a))) (\<lambda>stock_shares.
               act_bind (refresh_spot x (rc_touch clk)) (\<lambda>spot.
                 case spot of
                   None \<Rightarrow> act_return None
                 | Some s \<Rightarrow>
                     if s \<le> Fin 0 then act_return None
                     else (\<lambda>a. (a, classify_at x clk stock_shares s a))))))"

section \<open>What a refresh touches\<close>

text \<open>
  A refresh reads the machines, the guard and the counters and never moves them, as long as the helper
  that fetches positions does not either.
\<close>

definition same_machines :: "'pos app \<Rightarrow> 'pos app \<Rightarrow> bool" where
  "same_machines a b \<longleftrightarrow>
     ap_daemon b = ap_daemon a \<and> ap_trading b = ap_trading a \<and> ap_hedge b = ap_hedge a
     \<and> ap_guard b = ap_guard a \<and> ap_hedge_cfg b = ap_hedge_cfg a \<and> ap_metrics b = ap_metrics a
     \<and> ap_mock_hedging b = ap_mock_hedging a
     \<and> st_daily_hedge_count (ap_store b) = st_daily_hedge_count (ap_store a)"

text \<open>
  A relation on the daemon object that allows at least these changes, and what the object keeps of it
  because it keeps the machines.
\<close>

locale app_keeps = keeps_order R
  for R :: "'pos app \<Rightarrow> 'pos app \<Rightarrow> bool" +
  assumes same_R: "same_machines a b \<Longrightarrow> R a b"
begin

lemma keeps_same: "act_keeps same_machines m \<Longrightarrow> act_keeps R m"
  by (erule act_keeps_weaken) (rule same_R)

lemma keeps_sink_write: "act_keeps R (sink_write x c)"
  by (simp add: act_keeps_def sink_write_def same_R same_machines_def)

lemma keeps_modify: "(\<And>a. same_machines a (f a)) \<Longrightarrow> act_keeps R (act_modify f)"
  by (intro act_keeps_modify same_R)

end

interpretation same: app_keeps same_machines
  by unfold_locales (auto simp: same_machines_def)

definition quote_keeps :: "'pos app \<times> fl option \<Rightarrow> 'pos app \<times> fl option \<Rightarrow> bool" where
  "quote_keeps p q \<longleftrightarrow> same_machines (fst p) (fst q)"

interpretation quote: keeps_order quote_keeps
  by unfold_locales (auto simp: quote_keeps_def same_machines_def)

lemma modify_quote_keeps:
  "(\<And>a. same_machines a (f a)) \<Longrightarrow> act_keeps quote_keeps (act_modify (\<lambda>(a, spot). (f a, g a spot)))"
  by (intro act_keeps_modify) (auto simp: quote_keeps_def)

lemma take_quote_keeps: "act_keeps quote_keeps (take_quote now q)"
proof -
  note m = modify_quote_keeps
  have "act_keeps quote_keeps (take_last v)" for v
    unfolding take_last_def
    by (intro quote.rules) (auto simp: same_machines_def set_underlying_price_def set_underlying_quote_def Let_def
        split: option.split intro!: quote.rules m)
  moreover have "act_keeps quote_keeps (take_bid_ask b k)" for b k
    unfolding take_bid_ask_def
    by (intro quote.rules) (auto simp: same_machines_def set_underlying_price_def set_underlying_quote_def Let_def
        split: option.split intro!: quote.rules m)
  moreover have "act_keeps quote_keeps (take_ts now v)" for v
    unfolding take_ts_def Let_def
    by (auto simp: same_machines_def intro!: quote.rules m)
  ultimately show ?thesis
    unfolding take_quote_def by (intro quote.rules)
qed

lemma refresh_spot_keeps: "act_keeps same_machines (refresh_spot x now)"
  unfolding act_keeps_def
proof
  fix a :: "'a app"
  have q: "same_machines a a'" if "take_quote now q (a, st_price (ap_store a)) = ((a', spot'), r)"
    for q a' spot' r
    using act_keepsD [OF take_quote_keeps, of "(a, st_price (ap_store a))" now q] that
    by (simp add: quote_keeps_def)
  have "same_machines a a" by (simp add: same_machines_def)
  with q show "same_machines a (fst (refresh_spot x now a))"
    by (auto simp: refresh_spot_def Let_def split: sum.split prod.split)
qed

context app_keeps
begin

lemma keeps_refresh:
  assumes pos: "act_keeps R (x_refresh_positions x)"
  shows "act_keeps R (refresh_and_build_snapshot x clk)"
proof -
  have "act_keeps R (act_seq (x_refresh_positions x)
      (act_modify (\<lambda>a. a\<lparr>ap_last_positions_ts := now\<rparr>)))" for now
    by (intro rules pos keeps_modify) (simp add: same_machines_def)
  then have "act_keeps R (refresh_positions_if_due x now)" for now
    by (auto simp: act_keeps_def refresh_positions_if_due_def)
  moreover have "act_keeps R (refresh_spot x now)" for now
    by (rule keeps_same [OF refresh_spot_keeps])
  ultimately show ?thesis
    unfolding refresh_and_build_snapshot_def
    by (intro rules) (auto split: option.split intro!: rules)
qed

end

section \<open>Properties\<close>

text \<open>
  C36. The spot is taken from Redis once: while the store holds a positive price and no refresh of the
  positions is due, \<open>refresh_and_build_snapshot\<close> leaves the price, the quote and the time of the last
  tick as they are, whatever quote Redis has, so the reported data lag only grows with the clock.
\<close>

theorem stored_spot_never_refreshed:
  assumes "st_price (ap_store a) = Some p" and "Fin 0 < p"
    and "\<not> ap_accounts_interval a \<le> rc_now clk - ap_last_positions_ts a"
  shows "fst (refresh_and_build_snapshot x clk a) = a
    \<and> (\<forall>snap spot cs lag. snd (refresh_and_build_snapshot x clk a) = Inr (Some (snap, spot, cs, lag)) \<longrightarrow>
          spot = p \<and> lag = map_option (\<lambda>ts. (rc_lag clk - ts) * Fin 1000) (md_last_ts (ap_market_data a)))"
proof -
  have pos: "\<not> p \<le> Fin 0" using assms(2) fl_less_not_le by blast
  have due: "refresh_positions_if_due x (rc_now clk) a = (a, Inr ())"
    using assms(3) by (simp add: refresh_positions_if_due_def)
  have spot: "refresh_spot x (rc_touch clk) a = (a, Inr (Some p))"
    using assms(1) pos by (simp add: refresh_spot_def no_spot_def Let_def)
  show ?thesis
    using pos
    by (auto simp: refresh_and_build_snapshot_def act_seq_def act_bind_def due spot classify_at_def Let_def
        rbind_Inr_iff)
qed

definition clock_at :: "int \<Rightarrow> refresh_clock" where
  "clock_at t = \<lparr>rc_now = Fin (of_int t), rc_touch = Fin (of_int t), rc_lag = Fin (of_int t),
     rc_classify = \<lparr>clk_regime = Fin (of_int t), clk_lag = Fin (of_int t), clk_ts = Fin (of_int t)\<rparr>\<rparr>"

lemma stored_spot_never_refreshed_witness:
  "fst (refresh_and_build_snapshot sample_ext (clock_at 3000) (sample_app T_MONITOR)) = sample_app T_MONITOR"
  using stored_spot_never_refreshed [of "sample_app T_MONITOR" "Fin 100" "clock_at 3000" sample_ext]
  by (simp add: sample_app_def set_underlying_price_def clock_at_def)

end
