(* ===== verification/TickerRedis.thy ===== *)
theory TickerRedis imports AppSnapshot begin

text \<open>
  Tick callbacks and quote payloads, \<open>app/ticker_redis.py\<close>. A ticker is an object whose missing
  attributes read as \<open>None\<close>.
\<close>

section \<open>Ticks\<close>

record ticker =
  tk_bid :: pyval
  tk_ask :: pyval
  tk_last :: pyval

definition tick_quote :: "pyval \<Rightarrow> pyval \<Rightarrow> ('pos app, unit) act" where
  "tick_quote bid ask =
     act_catch no_number_error
       (act_bind (act_lift (py_float bid)) (\<lambda>b.
        act_bind (act_lift (py_float ask)) (\<lambda>k.
          act_when (isfinite b \<and> isfinite k)
            (act_modify (upd_store (\<lambda>s. set_underlying_quote s (Some b) (Some k)))))))
       (act_return ())"

definition tick_last :: "pyval \<Rightarrow> ('pos app, unit) act" where
  "tick_last v =
     act_catch no_number_error
       (act_bind (act_lift (py_float v)) (\<lambda>l.
          act_when (isfinite l) (act_modify (upd_store (\<lambda>s. set_underlying_price s (Some l))))))
       (act_return ())"

definition on_ticker_for_symbol :: "fl \<Rightarrow> string \<Rightarrow> ticker \<Rightarrow> ('pos app, unit) act" where
  "on_ticker_for_symbol now symbol tk =
     act_catch (\<lambda>_. True)
       (act_bind (act_get ap_symbol) (\<lambda>own.
          act_when (symbol = own)
            (act_seq (act_modify (upd_market (\<lambda>m. md_touch_ts m now)))
              (if tk_bid tk \<noteq> VNone \<and> tk_ask tk \<noteq> VNone then tick_quote (tk_bid tk) (tk_ask tk)
               else act_when (tk_last tk \<noteq> VNone) (tick_last (tk_last tk))))))
       (act_return ())"

definition on_ticker :: "fl \<Rightarrow> ticker \<Rightarrow> ('pos app, unit) act" where
  "on_ticker now tk = act_bind (act_get ap_symbol) (\<lambda>own. on_ticker_for_symbol now own tk)"

section \<open>Quote payloads\<close>

record quote =
  qt_symbol :: string
  qt_bid :: "fl option"
  qt_ask :: "fl option"
  qt_last :: fl
  qt_ts :: fl

definition finite_only :: "fl option \<Rightarrow> fl option" where
  "finite_only x = (case x of None \<Rightarrow> None | Some y \<Rightarrow> if isfinite y then Some y else None)"

definition mid_price :: "fl \<Rightarrow> fl \<Rightarrow> fl" where
  "mid_price b k = fl_mid b k"

definition quote_payload_from_ticker :: "fl \<Rightarrow> string \<Rightarrow> ticker \<Rightarrow> quote option res" where
  "quote_payload_from_ticker now symbol tk =
     (let parsed = rbind (opt_float (tk_bid tk)) (\<lambda>b. rbind (opt_float (tk_ask tk)) (\<lambda>k.
                   rbind (opt_float (tk_last tk)) (\<lambda>l. Inr (b, k, l))))
      in rbind (case parsed of
                  Inl e \<Rightarrow> if no_number_error e then Inr (None, None, None) else Inl e
                | Inr v \<Rightarrow> Inr v) (\<lambda>(b0, k0, l0).
           let bid = finite_only b0; ask = finite_only k0; last_p = finite_only l0
           in if last_p = None \<and> (bid = None \<or> ask = None) then Inr None
              else
                let last_q = (case last_p of
                                Some l \<Rightarrow> Some l
                              | None \<Rightarrow> (case (bid, ask) of
                                          (Some b, Some k) \<Rightarrow> Some (mid_price b k)
                                        | _ \<Rightarrow> None))
                in case last_q of
                     None \<Rightarrow> Inr None
                   | Some l \<Rightarrow>
                       if \<not> isfinite l then Inr None
                       else Inr (Some \<lparr>qt_symbol = symbol, qt_bid = bid, qt_ask = ask, qt_last = l,
                                       qt_ts = now\<rparr>)))"

definition quote_payload :: "fl \<Rightarrow> 'pos app \<Rightarrow> quote option" where
  "quote_payload now a =
     (if ap_symbol a = [] then None
      else
        let bid = st_bid (ap_store a); ask = st_ask (ap_store a);
            last_p = (case st_price (ap_store a) of
                        Some l \<Rightarrow> Some l
                      | None \<Rightarrow> (case (bid, ask) of
                                  (Some b, Some k) \<Rightarrow> Some (mid_price b k)
                                | _ \<Rightarrow> None))
        in case last_p of
             None \<Rightarrow> None
           | Some l \<Rightarrow>
               if \<not> isfinite l then None
               else Some \<lparr>qt_symbol = ap_symbol a, qt_bid = finite_only bid, qt_ask = finite_only ask,
                          qt_last = l, qt_ts = now\<rparr>)"

text \<open>Scheduling a tick from another thread happens only while the daemon and its loop run.\<close>

definition eval_hedge_threadsafe :: "bool \<Rightarrow> bool \<Rightarrow> 'pos app \<Rightarrow> bool" where
  "eval_hedge_threadsafe has_loop loop_running a =
     (daemon_is_running (ap_daemon a) \<and> has_loop \<and> loop_running)"

section \<open>Properties\<close>

lemma finite_only_finite: "finite_only x = Some y \<Longrightarrow> isfinite y"
  by (auto simp: finite_only_def split: option.splits if_splits)

text \<open>
  Nothing infinite or undefined is published: every number of a payload built from a ticker is
  finite, and a payload is withheld only when there is neither a finite last price nor a finite mid.
\<close>

theorem payload_is_finite:
  assumes "quote_payload_from_ticker now symbol tk = Inr (Some q)"
  shows "isfinite (qt_last q) \<and> (\<forall>b. qt_bid q = Some b \<longrightarrow> isfinite b)
    \<and> (\<forall>k. qt_ask q = Some k \<longrightarrow> isfinite k) \<and> qt_symbol q = symbol"
  using assms
  by (auto simp: quote_payload_from_ticker_def Let_def rbind_Inr_iff finite_only_finite
      split: option.splits if_splits prod.splits)

text \<open>The callback as its three cases; it never raises.\<close>

lemma on_ticker_ok: "snd (on_ticker_for_symbol now symbol tk a) = Inr ()"
  by (auto simp: on_ticker_for_symbol_def act_catch_def split: prod.split sum.split)

definition stores_finite :: "'pos app \<Rightarrow> bool" where
  "stores_finite a \<longleftrightarrow> (\<forall>b. st_bid (ap_store a) = Some b \<longrightarrow> isfinite b)
     \<and> (\<forall>k. st_ask (ap_store a) = Some k \<longrightarrow> isfinite k)"

lemma tick_quote_finite: "stores_finite a \<Longrightarrow> stores_finite (fst (tick_quote bid ask a))"
  by (cases "py_float bid"; cases "py_float ask")
    (auto simp: tick_quote_def act_catch_def act_bind_def act_when_def act_lift_def act_return_def
      act_modify_def stores_finite_def set_underlying_quote_def Let_def split: if_splits)

lemma tick_last_finite: "stores_finite a \<Longrightarrow> stores_finite (fst (tick_last v a))"
  by (cases "py_float v")
    (auto simp: tick_last_def act_catch_def act_bind_def act_when_def act_lift_def act_return_def
      act_modify_def stores_finite_def set_underlying_price_def split: if_splits)

text \<open>
  A tick never raises and never stores a bid or an ask that is not finite, whatever the ticker
  carries; a tick of another symbol changes nothing at all.
\<close>

theorem tick_keeps_quotes_finite:
  assumes "stores_finite a"
  shows "stores_finite (fst (on_ticker_for_symbol now symbol tk a))
    \<and> snd (on_ticker_for_symbol now symbol tk a) = Inr ()
    \<and> (symbol \<noteq> ap_symbol a \<longrightarrow> fst (on_ticker_for_symbol now symbol tk a) = a)"
proof -
  have touched: "stores_finite (upd_market f a)" for f using assms by (simp add: stores_finite_def)
  have "stores_finite (fst (on_ticker_for_symbol now symbol tk a))"
    using tick_quote_finite [OF touched] tick_last_finite [OF touched] touched assms
    by (auto simp: on_ticker_for_symbol_def act_catch_def act_when_def act_return_def act_seq_def
        act_bind_def act_get_def act_modify_def split: sum.split prod.split)
      (metis fst_conv)+
  moreover have "symbol \<noteq> ap_symbol a \<Longrightarrow> fst (on_ticker_for_symbol now symbol tk a) = a"
    by (simp add: on_ticker_for_symbol_def act_catch_def)
  ultimately show ?thesis using on_ticker_ok by blast
qed

definition sample_ticker :: ticker where
  "sample_ticker = \<lparr>tk_bid = VFloat NaN, tk_ask = VStr ''x'', tk_last = VInt 100\<rparr>"

lemma payload_is_finite_witness:
  "isfinite (qt_last \<lparr>qt_symbol = ''NVDA'', qt_bid = None, qt_ask = None, qt_last = Fin 100, qt_ts = Fin 7\<rparr>)"
proof -
  have "quote_payload_from_ticker (Fin 7) ''NVDA'' \<lparr>tk_bid = VFloat NaN, tk_ask = VNone, tk_last = VInt 100\<rparr>
     = Inr (Some \<lparr>qt_symbol = ''NVDA'', qt_bid = None, qt_ask = None, qt_last = Fin 100, qt_ts = Fin 7\<rparr>)"
    using fl_of_int_small [of 100]
    by (simp add: quote_payload_from_ticker_def opt_float_def finite_only_def Let_def)
  from payload_is_finite [OF this] show ?thesis by blast
qed

lemma tick_keeps_quotes_finite_witness:
  "stores_finite (fst (on_ticker_for_symbol (Fin 7) ''NVDA'' sample_ticker (sample_app T_MONITOR)))"
  using tick_keeps_quotes_finite [of "sample_app T_MONITOR" "Fin 7" "''NVDA''" sample_ticker]
  by (simp add: stores_finite_def sample_app_def set_underlying_price_def store_init_def)

end
