(* ===== verification/Lease.thy ===== *)
theory Lease imports PyValue begin

text \<open>
  Leader election over a Kubernetes Lease, \<open>lease.py\<close>: the record, the backend protocol and its in-memory
  implementation, the conversions of the Kubernetes backend, the elector with its two loops, and the
  settings. The Kubernetes client and the event loop are outside: an answer of the API server is an
  argument, a turn of a loop is the readings it takes.
\<close>

section \<open>Lease record\<close>

definition default_lease_duration :: fl where "default_lease_duration = Fin 15"
definition default_renew_deadline :: fl where "default_renew_deadline = Fin 10"
definition default_retry_period :: fl where "default_retry_period = Fin 2"

record lease_record =
  lr_holder :: string
  lr_duration :: fl
  lr_acquire :: fl
  lr_renew :: fl
  lr_transitions :: int
  lr_version :: "string option"

definition is_expired :: "lease_record \<Rightarrow> fl \<Rightarrow> bool" where
  "is_expired r now = (lr_duration r < now - lr_renew r)"

section \<open>Backends\<close>

record 'b backend_ops =
  lb_get :: "'b \<Rightarrow> 'b \<times> lease_record option res"
  lb_create :: "'b \<Rightarrow> lease_record \<Rightarrow> 'b \<times> lease_record res"
  lb_update :: "'b \<Rightarrow> lease_record \<Rightarrow> 'b \<times> lease_record res"

record mem_backend =
  mb_record :: "lease_record option"
  mb_version :: int

definition mem_init :: mem_backend where
  "mem_init = \<lparr>mb_record = None, mb_version = 0\<rparr>"

definition mem_get :: "mem_backend \<Rightarrow> mem_backend \<times> lease_record option res" where
  "mem_get b = (b, Inr (mb_record b))"

definition mem_store :: "mem_backend \<Rightarrow> lease_record \<Rightarrow> mem_backend \<times> lease_record res" where
  "mem_store b r =
     (let v = mb_version b + 1; stored = r\<lparr>lr_version := Some (show_int v)\<rparr>
      in (\<lparr>mb_record = Some stored, mb_version = v\<rparr>, Inr stored))"

definition mem_create :: "mem_backend \<Rightarrow> lease_record \<Rightarrow> mem_backend \<times> lease_record res" where
  "mem_create b r = (if mb_record b \<noteq> None then (b, Inl LeaseConflict) else mem_store b r)"

definition mem_update :: "mem_backend \<Rightarrow> lease_record \<Rightarrow> mem_backend \<times> lease_record res" where
  "mem_update b r =
     (case mb_record b of
        None \<Rightarrow> (b, Inl LeaseConflict)
      | Some cur \<Rightarrow>
          if lr_version r \<noteq> lr_version cur then (b, Inl LeaseConflict) else mem_store b r)"

definition mem_ops :: "mem_backend backend_ops" where
  "mem_ops = \<lparr>lb_get = mem_get, lb_create = mem_create, lb_update = mem_update\<rparr>"

subsection \<open>The Kubernetes backend\<close>

text \<open>
  A timestamp of the API is an aware datetime: its microseconds since the epoch. \<open>fromtimestamp\<close> rounds
  the fraction to microseconds, halves to even, and raises outside the years 1 to 9999.
\<close>

definition to_dt :: "fl \<Rightarrow> int res" where
  "to_dt epoch =
     (case epoch of
        Fin x \<Rightarrow>
          rbind (int_trunc (Fin x)) (\<lambda>sec.
          rbind (int_round (Fin (x - of_int sec) * Fin 1000000)) (\<lambda>us.
            let total = sec * 1000000 + us
            in if - 62135596800000000 \<le> total \<and> total < 253402300800000000 then Inr total
               else Inl ValueError))
      | PInf \<Rightarrow> Inl OverflowError | NInf \<Rightarrow> Inl OverflowError | NaN \<Rightarrow> Inl ValueError)"

definition to_epoch :: "int option \<Rightarrow> fl" where
  "to_epoch dt = (case dt of None \<Rightarrow> Fin 0 | Some us \<Rightarrow> rnd (of_int us / 1000000))"

record k8s_lease =
  kl_holder :: "string option"
  kl_duration :: "int option"
  kl_acquire :: "int option"
  kl_renew :: "int option"
  kl_transitions :: "int option"
  kl_version :: "string option"

definition from_k8s :: "k8s_lease \<Rightarrow> lease_record res" where
  "from_k8s k =
     rbind (case or_else (\<lambda>n. n \<noteq> 0) (kl_duration k) None of
              None \<Rightarrow> Inr default_lease_duration | Some n \<Rightarrow> fl_of_int n) (\<lambda>duration.
       Inr \<lparr>lr_holder = (case kl_holder k of None \<Rightarrow> [] | Some h \<Rightarrow> h), lr_duration = duration,
            lr_acquire = to_epoch (kl_acquire k), lr_renew = to_epoch (kl_renew k),
            lr_transitions = (case kl_transitions k of None \<Rightarrow> 0 | Some n \<Rightarrow> n),
            lr_version = Some (case kl_version k of None \<Rightarrow> ''None'' | Some v \<Rightarrow> v)\<rparr>)"

text \<open>The body of a create or replace request: the spec, and the version on a replace.\<close>

definition k8s_spec :: "lease_record \<Rightarrow> string option \<Rightarrow> k8s_lease res" where
  "k8s_spec r version =
     rbind (int_round (lr_duration r)) (\<lambda>duration.
     rbind (to_dt (lr_acquire r)) (\<lambda>acq.
     rbind (to_dt (lr_renew r)) (\<lambda>ren.
       Inr \<lparr>kl_holder = Some (lr_holder r), kl_duration = Some duration, kl_acquire = Some acq,
            kl_renew = Some ren, kl_transitions = Some (lr_transitions r), kl_version = version\<rparr>)))"

text \<open>An answer of the API server: the HTTP status of an \<open>ApiException\<close>, or the Lease.\<close>

definition api_exception :: pyexc where
  "api_exception = OtherException ''ApiException''"

definition k8s_get :: "int + k8s_lease \<Rightarrow> lease_record option res" where
  "k8s_get answer =
     (case answer of
        Inl status \<Rightarrow> if status = 404 then Inr None else Inl api_exception
      | Inr k \<Rightarrow> rmap Some (from_k8s k))"

definition k8s_write :: "int + k8s_lease \<Rightarrow> lease_record res" where
  "k8s_write answer =
     (case answer of
        Inl status \<Rightarrow> Inl (if status = 409 then LeaseConflict else api_exception)
      | Inr k \<Rightarrow> from_k8s k)"

definition k8s_create :: "(k8s_lease \<Rightarrow> int + k8s_lease) \<Rightarrow> lease_record \<Rightarrow> lease_record res" where
  "k8s_create api r = rbind (k8s_spec r None) (\<lambda>body. k8s_write (api body))"

definition k8s_update :: "(k8s_lease \<Rightarrow> int + k8s_lease) \<Rightarrow> lease_record \<Rightarrow> lease_record res" where
  "k8s_update api r = rbind (k8s_spec r (lr_version r)) (\<lambda>body. k8s_write (api body))"

section \<open>The elector\<close>

datatype lease_attempt = ACQUIRED | RENEWED | HELD_BY_OTHER | FAILED

fun lease_attempt_value :: "lease_attempt \<Rightarrow> string" where
  "lease_attempt_value ACQUIRED = ''acquired''"
| "lease_attempt_value RENEWED = ''renewed''"
| "lease_attempt_value HELD_BY_OTHER = ''held_by_other''"
| "lease_attempt_value FAILED = ''failed''"

text \<open>The callbacks that the elector fires; \<open>_safe_call\<close> swallows what they raise.\<close>

datatype leading_call = StartedLeading | StoppedLeading

record elector =
  el_identity :: string
  el_duration :: fl
  el_deadline :: fl
  el_retry :: fl
  el_is_leader :: bool
  el_last_renew :: fl
  el_calls :: "leading_call list"

definition mk_elector :: "string \<Rightarrow> fl \<Rightarrow> fl \<Rightarrow> fl \<Rightarrow> elector" where
  "mk_elector identity duration deadline retry =
     \<lparr>el_identity = identity, el_duration = duration, el_deadline = deadline, el_retry = retry,
      el_is_leader = False, el_last_renew = Fin 0, el_calls = []\<rparr>"

definition mark_leader :: "fl \<Rightarrow> bool \<Rightarrow> elector \<Rightarrow> elector \<times> lease_attempt" where
  "mark_leader now acquired e =
     (let was_leader = el_is_leader e;
          e' = e\<lparr>el_last_renew := now, el_is_leader := True\<rparr>
      in (if was_leader then e' else e'\<lparr>el_calls := el_calls e' @ [StartedLeading]\<rparr>,
          if acquired \<or> \<not> was_leader then ACQUIRED else RENEWED))"

definition expire_self :: "elector \<Rightarrow> elector" where
  "expire_self e =
     (if el_is_leader e
      then e\<lparr>el_is_leader := False, el_calls := el_calls e @ [StoppedLeading]\<rparr> else e)"

definition mark_not_leader :: "bool \<Rightarrow> elector \<Rightarrow> elector \<times> lease_attempt" where
  "mark_not_leader definitive e =
     (if el_is_leader e
      then e\<lparr>el_is_leader := False, el_calls := el_calls e @ [StoppedLeading]\<rparr> else e,
      if definitive then HELD_BY_OTHER else FAILED)"

text \<open>
  One tick reads the Lease and then either stands by or writes. The decision after the read is separate,
  because other pods act between the two calls of the backend.
\<close>

datatype lease_plan = StandBy | CreateLease lease_record | ReplaceLease lease_record bool

definition lease_decide :: "elector \<Rightarrow> fl \<Rightarrow> lease_record option \<Rightarrow> lease_plan" where
  "lease_decide e now observed =
     (case observed of
        None \<Rightarrow>
          CreateLease \<lparr>lr_holder = el_identity e, lr_duration = el_duration e, lr_acquire = now,
                       lr_renew = now, lr_transitions = 0, lr_version = None\<rparr>
      | Some r \<Rightarrow>
          let held_by_us = (lr_holder r = el_identity e) in
          if \<not> held_by_us \<and> \<not> is_expired r now then StandBy
          else
            let candidate = r\<lparr>lr_holder := el_identity e, lr_duration := el_duration e, lr_renew := now\<rparr>
            in if held_by_us then ReplaceLease candidate False
               else ReplaceLease (candidate\<lparr>lr_acquire := now,
                                            lr_transitions := lr_transitions r + 1\<rparr>) True)"

definition lease_act ::
  "'b backend_ops \<Rightarrow> fl \<Rightarrow> lease_plan \<Rightarrow> elector \<times> 'b \<Rightarrow> (elector \<times> 'b) \<times> lease_attempt" where
  "lease_act ops now plan s =
     (let (e, b) = s in
      case plan of
        StandBy \<Rightarrow> (let (e', att) = mark_not_leader True e in ((e', b), att))
      | CreateLease r \<Rightarrow>
          (case lb_create ops b r of
             (b', Inl _) \<Rightarrow> ((e, b'), FAILED)
           | (b', Inr _) \<Rightarrow> (let (e', att) = mark_leader now True e in ((e', b'), att)))
      | ReplaceLease r acquired \<Rightarrow>
          (case lb_update ops b r of
             (b', Inl _) \<Rightarrow> ((e, b'), FAILED)
           | (b', Inr _) \<Rightarrow> (let (e', att) = mark_leader now acquired e in ((e', b'), att))))"

definition try_acquire_or_renew ::
  "'b backend_ops \<Rightarrow> fl \<Rightarrow> elector \<times> 'b \<Rightarrow> (elector \<times> 'b) \<times> lease_attempt" where
  "try_acquire_or_renew ops now s =
     (let (e, b) = s in
      case lb_get ops b of
        (b', Inl _) \<Rightarrow> ((e, b'), FAILED)
      | (b', Inr observed) \<Rightarrow> lease_act ops now (lease_decide e now observed) (e, b'))"

subsection \<open>The two loops\<close>

text \<open>
  A turn is the readings of one pass: whether \<open>stop\<close> is set before and after the wait, the clock before
  the attempt and after it, and what other pods did to the backend meanwhile. A loop that uses up its
  turns is still running.
\<close>

record 'b lease_turn =
  lt_stop :: bool
  lt_stop_after :: bool
  lt_now :: fl
  lt_now2 :: fl
  lt_others :: "'b \<Rightarrow> 'b"

definition leads :: "lease_attempt \<Rightarrow> bool" where
  "leads att \<longleftrightarrow> att = ACQUIRED \<or> att = RENEWED"

fun acquire ::
  "'b backend_ops \<Rightarrow> 'b lease_turn list \<Rightarrow> elector \<times> 'b \<Rightarrow> (elector \<times> 'b) \<times> bool option" where
  "acquire ops [] s = (s, None)"
| "acquire ops (t # ts) s =
     (if lt_stop t then (s, Some False)
      else let (s', att) = try_acquire_or_renew ops (lt_now t) (fst s, lt_others t (snd s))
           in if leads att then (s', Some True) else acquire ops ts s')"

datatype renew_end = StoppedByRequest | LostToOther | DeadlineExceeded

fun renew_until_lost ::
  "'b backend_ops \<Rightarrow> 'b lease_turn list \<Rightarrow> elector \<times> 'b \<Rightarrow> (elector \<times> 'b) \<times> renew_end option" where
  "renew_until_lost ops [] s = (s, None)"
| "renew_until_lost ops (t # ts) s =
     (if lt_stop t \<or> lt_stop_after t then (s, Some StoppedByRequest)
      else let (s', att) = try_acquire_or_renew ops (lt_now t) (fst s, lt_others t (snd s))
           in if leads att then renew_until_lost ops ts s'
              else if att = HELD_BY_OTHER then (s', Some LostToOther)
              else if el_deadline (fst s') < lt_now2 t - el_last_renew (fst s')
                then ((expire_self (fst s'), snd s'), Some DeadlineExceeded)
              else renew_until_lost ops ts s')"

text \<open>
  \<open>run_with_leadership\<close> after the wait for the first of the two tasks: which tasks are cancelled, and what
  is raised. The service task ends with \<open>None\<close> or an exception.
\<close>

record leadership_exit =
  le_cancel_service :: bool
  le_cancel_renew :: bool
  le_raises :: "pyexc option"

definition run_with_leadership :: "bool \<Rightarrow> pyexc option option \<Rightarrow> bool \<Rightarrow> leadership_exit option" where
  "run_with_leadership acquired service_done renew_done =
     (if \<not> acquired then None
      else Some \<lparr>le_cancel_service = (service_done = None), le_cancel_renew = (\<not> renew_done),
                 le_raises = (case service_done of Some (Some e) \<Rightarrow> Some e | _ \<Rightarrow> None)\<rparr>)"

section \<open>Settings\<close>

definition lease_truthy :: "string \<Rightarrow> bool" where
  "lease_truthy v = (lower (strip v) \<in> {''1'', ''true'', ''yes'', ''on''})"

record daemon_lease_settings =
  ls_enabled :: bool
  ls_namespace :: string
  ls_name :: string
  ls_identity :: string
  ls_lease_duration :: fl
  ls_renew_deadline :: fl
  ls_retry_period :: fl

record lease_environment =
  env_enabled :: "string option"
  env_namespace :: "string option"
  env_name :: "string option"
  env_pod_name :: "string option"
  env_hostname :: "string option"

definition env_text :: "string option \<Rightarrow> string" where
  "env_text v = strip (case v of None \<Rightarrow> [] | Some s \<Rightarrow> s)"

definition first_text :: "string list \<Rightarrow> string \<Rightarrow> string" where
  "first_text xs dflt = (case filter (\<lambda>s. s \<noteq> []) xs of [] \<Rightarrow> dflt | s # _ \<Rightarrow> s)"

definition lease_section :: "pydict \<Rightarrow> pydict" where
  "lease_section config =
     (case dget config ''daemon'' VNone of
        VDict d \<Rightarrow> (case dget d ''lease'' VNone of VDict l \<Rightarrow> l | _ \<Rightarrow> [])
      | _ \<Rightarrow> [])"

definition get_daemon_lease_settings ::
  "(pyval \<Rightarrow> string) \<Rightarrow> lease_environment \<Rightarrow> string \<Rightarrow> pydict \<Rightarrow> daemon_lease_settings res" where
  "get_daemon_lease_settings rep env gethostname config =
     (let raw = lease_section config;
          text = (\<lambda>k. strip (py_str rep (py_or (dget raw k VNone) (VStr []))));
          secs = (\<lambda>k dflt. py_float (py_or (dget raw k VNone) (VFloat dflt)));
          enabled = (if env_text (env_enabled env) \<noteq> [] then lease_truthy (env_text (env_enabled env))
                     else truthy (dget raw ''enabled'' (VBool False)))
      in rbind (secs ''lease_duration_sec'' default_lease_duration) (\<lambda>duration.
         rbind (secs ''renew_deadline_sec'' default_renew_deadline) (\<lambda>deadline.
         rbind (secs ''retry_period_sec'' default_retry_period) (\<lambda>retry.
           Inr \<lparr>ls_enabled = enabled,
                ls_namespace = first_text [env_text (env_namespace env), text ''namespace''] ''default'',
                ls_name = first_text [env_text (env_name env), text ''name''] ''bifrost-daemon'',
                ls_identity = first_text [env_text (env_pod_name env), env_text (env_hostname env)] gethostname,
                ls_lease_duration = duration, ls_renew_deadline = deadline,
                ls_retry_period = retry\<rparr>))))"

definition build_daemon_elector :: "daemon_lease_settings \<Rightarrow> elector" where
  "build_daemon_elector st =
     mk_elector (ls_identity st) (ls_lease_duration st) (ls_renew_deadline st) (ls_retry_period st)"

section \<open>The contract of a backend\<close>

text \<open>
  What the elector relies on: a read returns what is stored, a create succeeds only on an empty store
  and an update only over the version it names, both then store the given record under a version of
  their own, and a failing call leaves the store alone.
\<close>

definition stores :: "lease_record \<Rightarrow> lease_record \<Rightarrow> bool" where
  "stores r x \<longleftrightarrow> lr_holder x = lr_holder r \<and> lr_duration x = lr_duration r
     \<and> lr_acquire x = lr_acquire r \<and> lr_renew x = lr_renew r \<and> lr_transitions x = lr_transitions r"

locale lease_store =
  fixes ops :: "'b backend_ops"
    and contents :: "'b \<Rightarrow> lease_record option"
  assumes get_reads: "lb_get ops b = (b', q) \<Longrightarrow> contents b' = contents b \<and> (\<forall>c. q = Inr c \<longrightarrow> c = contents b)"
    and create_empty: "lb_create ops b r = (b', Inr x) \<Longrightarrow> contents b = None \<and> stores r x \<and> contents b' = Some x"
    and create_fails: "lb_create ops b r = (b', Inl err) \<Longrightarrow> contents b' = contents b"
    and update_swaps: "lb_update ops b r = (b', Inr x) \<Longrightarrow>
      map_option lr_version (contents b) = Some (lr_version r) \<and> stores r x \<and> contents b' = Some x"
    and update_fails: "lb_update ops b r = (b', Inl err) \<Longrightarrow> contents b' = contents b"
begin

lemma tick_leads:
  assumes "try_acquire_or_renew ops now (e, b) = ((e', b'), att)" and "leads att"
  shows "\<exists>x. contents b' = Some x \<and> lr_holder x = el_identity e \<and> lr_renew x = now
    \<and> lr_duration x = el_duration e \<and> el_is_leader e' \<and> el_last_renew e' = now
    \<and> (case contents b of
          None \<Rightarrow> True
        | Some r \<Rightarrow> (lr_holder r = el_identity e \<or> is_expired r now)
            \<and> lr_transitions x = lr_transitions r + (if lr_holder r = el_identity e then 0 else 1))"
proof -
  from assms obtain b1 obs where g: "lb_get ops b = (b1, Inr obs)"
    and act: "lease_act ops now (lease_decide e now obs) (e, b1) = ((e', b'), att)"
    by (auto simp: try_acquire_or_renew_def leads_def split: prod.splits sum.splits)
  have obs: "obs = contents b" "contents b1 = contents b" using get_reads [OF g] by simp_all
  show ?thesis
  proof (cases "contents b")
    case None
    with act assms(2) obs show ?thesis
      by (auto simp: lease_act_def lease_decide_def mark_leader_def leads_def stores_def Let_def
          dest!: create_empty split: prod.splits sum.splits if_splits)
  next
    case (Some r)
    with act assms(2) obs show ?thesis
      by (auto simp: lease_act_def lease_decide_def mark_leader_def mark_not_leader_def leads_def stores_def Let_def
          dest!: update_swaps split: prod.splits sum.splits if_splits)
  qed
qed

lemma tick_held:
  assumes "try_acquire_or_renew ops now (e, b) = ((e', b'), HELD_BY_OTHER)"
  shows "contents b' = contents b \<and> \<not> el_is_leader e'
    \<and> (\<exists>r. contents b = Some r \<and> lr_holder r \<noteq> el_identity e \<and> \<not> is_expired r now)"
proof -
  from assms obtain b1 obs where g: "lb_get ops b = (b1, Inr obs)"
    and act: "lease_act ops now (lease_decide e now obs) (e, b1) = ((e', b'), HELD_BY_OTHER)"
    by (auto simp: try_acquire_or_renew_def split: prod.splits sum.splits)
  have obs: "obs = contents b" "contents b1 = contents b" using get_reads [OF g] by simp_all
  show ?thesis
  proof (cases "contents b")
    case None
    with act obs show ?thesis
      by (auto simp: lease_act_def lease_decide_def mark_leader_def Let_def
          split: prod.splits sum.splits if_splits)
  next
    case (Some r)
    with act obs show ?thesis
      by (auto simp: lease_act_def lease_decide_def mark_leader_def mark_not_leader_def Let_def
          split: prod.splits sum.splits if_splits)
  qed
qed

lemma tick_failed:
  assumes "try_acquire_or_renew ops now (e, b) = ((e', b'), FAILED)"
  shows "contents b' = contents b \<and> e' = e"
proof (cases "snd (lb_get ops b)")
  case (Inl err)
  with assms show ?thesis
    using get_reads [of b "fst (lb_get ops b)" "snd (lb_get ops b)"]
    by (auto simp: try_acquire_or_renew_def split: prod.splits sum.splits)
next
  case (Inr obs)
  obtain b1 where g: "lb_get ops b = (b1, Inr obs)" using Inr by (metis prod.collapse)
  with assms have act: "lease_act ops now (lease_decide e now obs) (e, b1) = ((e', b'), FAILED)"
    by (simp add: try_acquire_or_renew_def)
  have "contents b1 = contents b" using get_reads [OF g] by simp
  show ?thesis
  proof (cases obs)
    case None
    with act \<open>contents b1 = contents b\<close> show ?thesis
      by (auto simp: lease_act_def lease_decide_def mark_leader_def Let_def
          dest: create_fails split: prod.splits sum.splits if_splits)
  next
    case (Some r)
    with act \<open>contents b1 = contents b\<close> show ?thesis
      by (auto simp: lease_act_def lease_decide_def mark_leader_def mark_not_leader_def Let_def
          dest: update_fails split: prod.splits sum.splits if_splits)
  qed
qed

end

interpretation mem_lease: lease_store mem_ops mb_record
  by unfold_locales
    (auto simp: mem_ops_def mem_get_def mem_create_def mem_update_def mem_store_def stores_def Let_def
      split: if_splits option.splits)

section \<open>Leadership and its callbacks\<close>

lemma lease_act_frame:
  "lease_act ops now plan (e, b) = ((e', b'), att) \<Longrightarrow>
     el_identity e' = el_identity e \<and> el_duration e' = el_duration e \<and> el_deadline e' = el_deadline e
     \<and> (e' = e \<or> (\<exists>acq. e' = fst (mark_leader now acq e)) \<or> e' = fst (mark_not_leader True e))"
  by (cases plan)
    (auto simp: lease_act_def mark_leader_def mark_not_leader_def Let_def split: prod.splits sum.splits if_splits)

lemma tick_frame:
  assumes "try_acquire_or_renew ops now (e, b) = ((e', b'), att)"
  shows "el_identity e' = el_identity e \<and> el_duration e' = el_duration e \<and> el_deadline e' = el_deadline e
     \<and> (e' = e \<or> (\<exists>acq. e' = fst (mark_leader now acq e)) \<or> e' = fst (mark_not_leader True e))"
proof (cases "lb_get ops b")
  case (Pair b1 q)
  show ?thesis
  proof (cases q)
    case (Inl err)
    with assms Pair show ?thesis by (simp add: try_acquire_or_renew_def)
  next
    case (Inr obs)
    with assms Pair have "lease_act ops now (lease_decide e now obs) (e, b1) = ((e', b'), att)"
      by (simp add: try_acquire_or_renew_def)
    then show ?thesis by (rule lease_act_frame)
  qed
qed

text \<open>Replaying the callbacks: each is fired only from the other side, \<open>None\<close> marks a misfire.\<close>

fun leading_after :: "bool \<Rightarrow> leading_call list \<Rightarrow> bool option" where
  "leading_after l [] = Some l"
| "leading_after l (StartedLeading # cs) = (if l then None else leading_after True cs)"
| "leading_after l (StoppedLeading # cs) = (if l then leading_after False cs else None)"

lemma leading_after_append:
  "leading_after l (cs @ ds) = Option.bind (leading_after l cs) (\<lambda>l'. leading_after l' ds)"
  by (induction l cs rule: leading_after.induct) auto

definition calls_match :: "elector \<Rightarrow> bool" where
  "calls_match e \<longleftrightarrow> leading_after False (el_calls e) = Some (el_is_leader e)"

lemma calls_match_marks:
  "calls_match e \<Longrightarrow> calls_match (fst (mark_leader now acq e))"
  "calls_match e \<Longrightarrow> calls_match (fst (mark_not_leader d e))"
  "calls_match e \<Longrightarrow> calls_match (expire_self e)"
  by (auto simp: calls_match_def mark_leader_def mark_not_leader_def expire_self_def leading_after_append Let_def)

datatype 'b elector_call = Attempt fl "'b \<Rightarrow> 'b" | ExpireSelf

fun elector_step :: "'b backend_ops \<Rightarrow> elector \<times> 'b \<Rightarrow> 'b elector_call \<Rightarrow> elector \<times> 'b" where
  "elector_step ops s (Attempt now others) = fst (try_acquire_or_renew ops now (fst s, others (snd s)))"
| "elector_step ops s ExpireSelf = (expire_self (fst s), snd s)"

interpretation callbacks: invariant_machine "elector_step ops" "\<lambda>s. calls_match (fst s)"
proof unfold_locales
  fix s :: "elector \<times> 'a" and c :: "'a elector_call"
  assume m: "calls_match (fst s)"
  show "calls_match (fst (elector_step ops s c))"
  proof (cases c)
    case (Attempt now others)
    obtain e' b' att where t: "try_acquire_or_renew ops now (fst s, others (snd s)) = ((e', b'), att)"
      by (metis prod.collapse)
    have "calls_match e'" using tick_frame [OF t] calls_match_marks m by auto
    with t show ?thesis by (simp add: Attempt)
  next
    case ExpireSelf
    with m calls_match_marks(3) show ?thesis by simp
  qed
qed

section \<open>What the loops guarantee\<close>

lemma acquire_True:
  "acquire ops ts s = (s', Some True) \<Longrightarrow>
     \<exists>t\<in>set ts. \<exists>e b att. try_acquire_or_renew ops (lt_now t) (e, b) = (s', att) \<and> leads att
       \<and> el_identity e = el_identity (fst s)"
proof (induction ts arbitrary: s)
  case Nil
  then show ?case by simp
next
  case (Cons t ts)
  obtain e' b' att where t: "try_acquire_or_renew ops (lt_now t) (fst s, lt_others t (snd s)) = ((e', b'), att)"
    by (metis prod.collapse)
  show ?case
  proof (cases "lt_stop t \<or> leads att")
    case True
    with Cons.prems t show ?thesis by (auto split: if_splits)
  next
    case False
    with Cons.prems t have "acquire ops ts (e', b') = (s', Some True)" by simp
    from Cons.IH [OF this] tick_frame [OF t] show ?thesis by auto
  qed
qed

lemma renew_cases:
  assumes "\<not> lt_stop t" and "\<not> lt_stop_after t"
    and "try_acquire_or_renew ops (lt_now t) (fst s, lt_others t (snd s)) = (s1, att)"
  shows "renew_until_lost ops (t # ts) s =
     (if leads att then renew_until_lost ops ts s1
      else if att = HELD_BY_OTHER then (s1, Some LostToOther)
      else if el_deadline (fst s1) < lt_now2 t - el_last_renew (fst s1)
        then ((expire_self (fst s1), snd s1), Some DeadlineExceeded)
      else renew_until_lost ops ts s1)"
  using assms by simp

lemma renew_loop:
  "renew_until_lost ops ts s = (s', r) \<Longrightarrow> ts \<noteq> [] \<Longrightarrow>
     (r = Some DeadlineExceeded \<longrightarrow> \<not> el_is_leader (fst s'))
     \<and> (r = Some LostToOther \<longrightarrow> \<not> el_is_leader (fst s'))
     \<and> (r = None \<longrightarrow> el_last_renew (fst s') = lt_now (last ts)
          \<or> \<not> el_deadline (fst s') < lt_now2 (last ts) - el_last_renew (fst s'))"
  if held: "\<And>now e b e' b'. try_acquire_or_renew ops now (e, b) = ((e', b'), HELD_BY_OTHER) \<Longrightarrow> \<not> el_is_leader e'"
    and leads: "\<And>now e b e' b' att. try_acquire_or_renew ops now (e, b) = ((e', b'), att) \<Longrightarrow> leads att
      \<Longrightarrow> el_last_renew e' = now"
  for ops :: "'b backend_ops"
proof (induction ts arbitrary: s)
  case Nil
  then show ?case by simp
next
  case (Cons t ts)
  obtain e' b' att where tick: "try_acquire_or_renew ops (lt_now t) (fst s, lt_others t (snd s)) = ((e', b'), att)"
    by (metis prod.collapse)
  show ?case
  proof (cases "lt_stop t \<or> lt_stop_after t")
    case True
    with Cons.prems show ?thesis by auto
  next
    case False
    note run = renew_cases [OF _ _ tick, of ts] Cons.prems(1)
    have exp: "\<not> el_is_leader (expire_self e)" for e by (simp add: expire_self_def)
    show ?thesis
    proof (cases "ts = []")
      case True
      with run False held [OF _] leads [OF tick] tick exp show ?thesis by (auto split: if_splits)
    next
      case ne: False
      with run False Cons.IH [of "(e', b')"] held tick exp show ?thesis by (auto split: if_splits)
    qed
  qed
qed

section \<open>Properties\<close>


text \<open>
  Standing by ends with leadership or a stop request: when \<open>acquire\<close> returns true, the pod leads and
  the store names it, whatever the other pods did in between.
\<close>

theorem acquired_means_holder:
  assumes "acquire mem_ops ts (e, b) = ((e', b'), Some True)"
  shows "el_is_leader e' \<and> (\<exists>x. mb_record b' = Some x \<and> lr_holder x = el_identity e
    \<and> lr_renew x = el_last_renew e')"
proof -
  from acquire_True [OF assms] obtain t :: "mem_backend lease_turn" and e0 b0 att where
    "try_acquire_or_renew mem_ops (lt_now t) (e0, b0) = ((e', b'), att)" "leads att"
    "el_identity e0 = el_identity e"
    unfolding fst_conv by blast
  then show ?thesis using mem_lease.tick_leads [of "lt_now t" e0 b0 e' b' att] by auto
qed

text \<open>
  The renew loop gives leadership up: when it returns because the lease was lost or the deadline
  passed, the pod does not lead; and while it is still running, the last check found the last successful
  renewal within the deadline, or the last tick renewed.
\<close>

theorem renew_loop_gives_up:
  assumes "renew_until_lost mem_ops ts s = (s', r)" and "ts \<noteq> []"
  shows "(r = Some DeadlineExceeded \<or> r = Some LostToOther \<longrightarrow> \<not> el_is_leader (fst s'))
     \<and> (r = None \<longrightarrow> el_last_renew (fst s') = lt_now (last ts)
          \<or> \<not> el_deadline (fst s') < lt_now2 (last ts) - el_last_renew (fst s'))"
proof -
  have "\<not> el_is_leader e'" if "try_acquire_or_renew mem_ops now (e, b) = ((e', b'), HELD_BY_OTHER)" for now e b e' b'
    using mem_lease.tick_held [OF that] by simp
  moreover have "el_last_renew e' = now"
    if "try_acquire_or_renew mem_ops now (e, b) = ((e', b'), att)" "leads att" for now e b e' b' att
    using mem_lease.tick_leads [OF that] by auto
  ultimately show ?thesis using renew_loop [of mem_ops ts s s' r] assms by blast
qed

text \<open>
  C33. The callbacks tell the truth: over any ticks and expirations against any backend, started and
  stopped alternate from the start, and the last one agrees with \<open>is_leader\<close>.
\<close>

theorem callbacks_alternate:
  "leading_after False
     (el_calls (fst (run_events (elector_step ops) (mk_elector idt duration deadline retry, b) calls)))
   = Some (el_is_leader (fst (run_events (elector_step ops) (mk_elector idt duration deadline retry, b) calls)))"
proof -
  have "calls_match (fst (mk_elector idt duration deadline retry, b))" by (simp add: calls_match_def mk_elector_def)
  then have "calls_match (fst (run_events (elector_step ops) (mk_elector idt duration deadline retry, b) calls))"
    by (rule callbacks.inv_run)
  then show ?thesis by (simp add: calls_match_def)
qed

text \<open>
  A record survives the Kubernetes representation when its duration is a positive whole number of
  seconds and its times are whole seconds within the range of dates.
\<close>

theorem k8s_record_roundtrip:
  assumes "lr_duration r = Fin (of_int d)" and "1 \<le> d" and "d \<le> 1000000"
    and "lr_acquire r = Fin (of_int a)" and "0 \<le> a" and "a \<le> 9000000000"
    and "lr_renew r = Fin (of_int t)" and "0 \<le> t" and "t \<le> 9000000000"
  shows "rbind (k8s_spec r (lr_version r)) from_k8s
    = Inr (r\<lparr>lr_version := Some (case lr_version r of None \<Rightarrow> ''None'' | Some v \<Rightarrow> v)\<rparr>)"
proof -
  have dt: "to_dt (Fin (of_int n)) = Inr (n * 1000000)" if "0 \<le> n" "n \<le> 9000000000" for n
    using that by (simp add: to_dt_def rat_trunc_def Let_def)
  have ep: "to_epoch (Some (n * 1000000)) = Fin (of_int n)" if "0 \<le> n" "n \<le> 9000000000" for n
    using that rnd_of_int [of n] by (simp add: to_epoch_def)
  have "fl_of_int d = Inr (Fin (of_int d))" using assms(2,3) by (intro fl_of_int_small) simp
  with assms dt ep show ?thesis
    by (simp add: k8s_spec_def from_k8s_def)
qed

text \<open>
  The environment decides before the configuration, and the election is off by default: an empty
  environment with no lease section gives a disabled election with the default name, namespace and
  periods, and a non-empty \<open>BIFROST_DAEMON_LEASE_ENABLED\<close> alone decides \<open>enabled\<close>.
\<close>

theorem lease_settings_resolution:
  assumes "get_daemon_lease_settings rep env host config = Inr st"
  shows "(env_text (env_enabled env) \<noteq> [] \<longrightarrow> ls_enabled st = lease_truthy (env_text (env_enabled env)))
    \<and> (env_text (env_pod_name env) \<noteq> [] \<longrightarrow> ls_identity st = env_text (env_pod_name env))
    \<and> (env_text (env_namespace env) \<noteq> [] \<longrightarrow> ls_namespace st = env_text (env_namespace env))
    \<and> (lease_section config = [] \<longrightarrow>
          ls_lease_duration st = Fin 15 \<and> ls_renew_deadline st = Fin 10 \<and> ls_retry_period st = Fin 2
          \<and> (env_text (env_enabled env) = [] \<longrightarrow> \<not> ls_enabled st))"
  using assms
  by (auto simp: get_daemon_lease_settings_def Let_def rbind_Inr_iff first_text_def py_or_def fl_truthy_def
      default_lease_duration_def default_renew_deadline_def default_retry_period_def)

section \<open>Witnesses\<close>

definition sample_elector :: elector where
  "sample_elector = mk_elector ''pod-a'' (Fin 15) (Fin 10) (Fin 2)"

definition sample_turn :: "int \<Rightarrow> mem_backend lease_turn" where
  "sample_turn t = \<lparr>lt_stop = False, lt_stop_after = False, lt_now = Fin (of_int t), lt_now2 = Fin (of_int t),
     lt_others = id\<rparr>"


lemma acquired_means_holder_witness:
  "\<exists>e' b'. acquire mem_ops [sample_turn 100] (sample_elector, mem_init) = ((e', b'), Some True)
     \<and> el_is_leader e'"
proof -
  have "snd (acquire mem_ops [sample_turn 100] (sample_elector, mem_init)) = Some True" by code_simp
  then obtain e' b' where a: "acquire mem_ops [sample_turn 100] (sample_elector, mem_init)
      = ((e', b'), Some True)" by (metis prod.collapse)
  from acquired_means_holder [OF a] a show ?thesis by blast
qed

definition other_holder :: "mem_backend \<Rightarrow> mem_backend" where
  "other_holder b = fst (mem_store b \<lparr>lr_holder = ''pod-b'', lr_duration = Fin 15, lr_acquire = Fin 100,
     lr_renew = Fin 100, lr_transitions = 0, lr_version = None\<rparr>)"

lemma renew_loop_gives_up_witness:
  "snd (renew_until_lost mem_ops [sample_turn 100, (sample_turn 102)\<lparr>lt_others := other_holder\<rparr>]
       (sample_elector, mem_init)) = Some LostToOther
   \<and> \<not> el_is_leader (fst (fst (renew_until_lost mem_ops
       [sample_turn 100, (sample_turn 102)\<lparr>lt_others := other_holder\<rparr>] (sample_elector, mem_init))))"
proof -
  have r: "snd (renew_until_lost mem_ops [sample_turn 100, (sample_turn 102)\<lparr>lt_others := other_holder\<rparr>]
       (sample_elector, mem_init)) = Some LostToOther" by code_simp
  from renew_loop_gives_up [OF surjective_pairing] r show ?thesis by blast
qed

lemma k8s_record_roundtrip_witness:
  "\<exists>r. rbind (k8s_spec r (Some ''7'')) from_k8s = Inr r \<and> lr_renew r = Fin 1700000000"
proof -
  define r where "r = \<lparr>lr_holder = ''pod-a'', lr_duration = Fin (of_int 15), lr_acquire = Fin (of_int 1700000000),
    lr_renew = Fin (of_int 1700000000), lr_transitions = 3, lr_version = Some ''7''\<rparr>"
  have "rbind (k8s_spec r (lr_version r)) from_k8s
    = Inr (r\<lparr>lr_version := Some (case lr_version r of None \<Rightarrow> ''None'' | Some v \<Rightarrow> v)\<rparr>)"
    by (rule k8s_record_roundtrip [of _ 15 1700000000 1700000000]) (simp_all add: r_def)
  then show ?thesis by (intro exI [of _ r]) (simp add: r_def)
qed

definition sample_environment :: lease_environment where
  "sample_environment = \<lparr>env_enabled = Some '' yes '', env_namespace = None, env_name = None,
     env_pod_name = Some ''pod-a'', env_hostname = None\<rparr>"

lemma lease_settings_resolution_witness:
  "\<exists>st. get_daemon_lease_settings (\<lambda>_. ''?'') sample_environment ''host'' [] = Inr st
     \<and> ls_identity st = ''pod-a'' \<and> ls_lease_duration st = Fin 15"
proof -
  obtain st where st: "get_daemon_lease_settings (\<lambda>_. ''?'') sample_environment ''host'' [] = Inr st"
    by (simp add: get_daemon_lease_settings_def lease_section_def py_or_def fl_truthy_def Let_def
        default_lease_duration_def default_renew_deadline_def default_retry_period_def)
  have "env_text (env_pod_name sample_environment) = ''pod-a''" by code_simp
  with lease_settings_resolution [OF st] st show ?thesis by (simp add: lease_section_def)
qed

end
