(* ===== verification/LeaseProtocol.thy ===== *)
theory LeaseProtocol imports Lease begin

text \<open>
  Several pods electing over one Lease. A tick of \<open>try_acquire_or_renew\<close> is three actions here, because
  the clock runs and other pods act between its reading of the clock, its read of the Lease and its write;
  an answer of the API server may be lost after the write took effect. The pods' clocks agree and do not
  run backwards; nobody deletes the Lease.
\<close>

section \<open>The system\<close>

datatype tick_phase = Idle | Started fl | Observed fl "lease_record option"

record 'b lease_world =
  lw_time :: fl
  lw_store :: 'b
  lw_pod :: "string \<Rightarrow> elector"
  lw_phase :: "string \<Rightarrow> tick_phase"

datatype pod_move =
    Clock fl
  | BeginTick string
  | ReadLease string
  | WriteLease string
  | AnswerLost string
  | CallFails string
  | DeadlineCheck string
  | Restart string fl fl fl

definition lease_world_init :: "'b \<Rightarrow> fl \<Rightarrow> 'b lease_world" where
  "lease_world_init b t =
     \<lparr>lw_time = t, lw_store = b,
      lw_pod = (\<lambda>i. mk_elector i default_lease_duration default_renew_deadline default_retry_period),
      lw_phase = (\<lambda>_. Idle)\<rparr>"

definition set_phase :: "string \<Rightarrow> tick_phase \<Rightarrow> 'b lease_world \<Rightarrow> 'b lease_world" where
  "set_phase i p w = w\<lparr>lw_phase := (lw_phase w)(i := p)\<rparr>"

definition set_pod :: "string \<Rightarrow> elector \<Rightarrow> 'b lease_world \<Rightarrow> 'b lease_world" where
  "set_pod i e w = w\<lparr>lw_pod := (lw_pod w)(i := e)\<rparr>"

text \<open>What the write of pod \<open>i\<close> does to the pod and to the store, when the answer arrives.\<close>

definition write_outcome ::
  "'b backend_ops \<Rightarrow> string \<Rightarrow> fl \<Rightarrow> lease_record option \<Rightarrow> 'b lease_world \<Rightarrow> elector \<times> 'b" where
  "write_outcome ops i now obs w =
     fst (lease_act ops now (lease_decide (lw_pod w i) now obs) (lw_pod w i, lw_store w))"

fun lease_move :: "'b backend_ops \<Rightarrow> pod_move \<Rightarrow> 'b lease_world \<Rightarrow> 'b lease_world option" where
  "lease_move ops (Clock t) w = (if isfinite t \<and> lw_time w \<le> t then Some (w\<lparr>lw_time := t\<rparr>) else None)"
| "lease_move ops (BeginTick i) w =
     (case lw_phase w i of Idle \<Rightarrow> Some (set_phase i (Started (lw_time w)) w) | _ \<Rightarrow> None)"
| "lease_move ops (ReadLease i) w =
     (case lw_phase w i of
        Started now \<Rightarrow>
          (case lb_get ops (lw_store w) of
             (b, Inl _) \<Rightarrow> Some (set_phase i Idle (w\<lparr>lw_store := b\<rparr>))
           | (b, Inr obs) \<Rightarrow> Some (set_phase i (Observed now obs) (w\<lparr>lw_store := b\<rparr>)))
      | _ \<Rightarrow> None)"
| "lease_move ops (WriteLease i) w =
     (case lw_phase w i of
        Observed now obs \<Rightarrow>
          (let (e, b) = write_outcome ops i now obs w
           in Some (set_phase i Idle (set_pod i e (w\<lparr>lw_store := b\<rparr>))))
      | _ \<Rightarrow> None)"
| "lease_move ops (AnswerLost i) w =
     (case lw_phase w i of
        Observed now obs \<Rightarrow> Some (set_phase i Idle (w\<lparr>lw_store := snd (write_outcome ops i now obs w)\<rparr>))
      | _ \<Rightarrow> None)"
| "lease_move ops (CallFails i) w = Some (set_phase i Idle w)"
| "lease_move ops (DeadlineCheck i) w =
     (case lw_phase w i of
        Idle \<Rightarrow>
          (if el_deadline (lw_pod w i) < lw_time w - el_last_renew (lw_pod w i)
           then Some (set_pod i (expire_self (lw_pod w i)) w) else Some w)
      | _ \<Rightarrow> None)"
| "lease_move ops (Restart i d dl rp) w = Some (set_phase i Idle (set_pod i (mk_elector i d dl rp) w))"

fun lease_moves :: "'b backend_ops \<Rightarrow> pod_move list \<Rightarrow> 'b lease_world \<Rightarrow> 'b lease_world option" where
  "lease_moves ops [] w = Some w"
| "lease_moves ops (m # ms) w = Option.bind (lease_move ops m w) (lease_moves ops ms)"

inductive lease_reach :: "'b backend_ops \<Rightarrow> 'b \<Rightarrow> 'b lease_world \<Rightarrow> bool" for ops b where
  reach_init: "isfinite t \<Longrightarrow> lease_reach ops b (lease_world_init b t)"
| reach_move: "lease_reach ops b w \<Longrightarrow> lease_move ops m w = Some w' \<Longrightarrow> lease_reach ops b w'"

lemma lease_reach_moves: "lease_reach ops b w \<Longrightarrow> lease_moves ops ms w = Some w' \<Longrightarrow> lease_reach ops b w'"
proof (induction ms arbitrary: w)
  case Nil
  then show ?case by simp
next
  case (Cons m ms)
  from Cons.prems(2) obtain w1 where "lease_move ops m w = Some w1" "lease_moves ops ms w1 = Some w'"
    by (auto split: bind_splits)
  with Cons show ?case by (blast intro: reach_move)
qed

lemma marks_elector [simp]:
  "el_identity (fst (mark_leader now acq e)) = el_identity e"
  "el_duration (fst (mark_leader now acq e)) = el_duration e"
  "el_is_leader (fst (mark_leader now acq e))"
  "el_last_renew (fst (mark_leader now acq e)) = now"
  "el_identity (fst (mark_not_leader d e)) = el_identity e"
  "\<not> el_is_leader (fst (mark_not_leader d e))"
  "el_identity (expire_self e) = el_identity e"
  "\<not> el_is_leader (expire_self e)"
  by (simp_all add: mark_leader_def mark_not_leader_def expire_self_def Let_def)

lemma mk_elector_fields [simp]:
  "el_identity (mk_elector i d dl rp) = i" "\<not> el_is_leader (mk_elector i d dl rp)"
  by (simp_all add: mk_elector_def)

lemma set_pod_same [simp]: "set_pod i (lw_pod w i) w = w"
  by (simp add: set_pod_def)

lemma set_pod_same_store [simp]: "set_pod i (lw_pod w i) (w\<lparr>lw_store := b\<rparr>) = w\<lparr>lw_store := b\<rparr>"
  by (simp add: set_pod_def)

lemma set_phase_same: "lw_phase w i = Idle \<Longrightarrow> set_phase i Idle (set_pod i e w) = set_pod i e w"
  by (simp add: set_phase_def set_pod_def fun_upd_idem)

section \<open>The contract of a versioned store\<close>

text \<open>
  A store of one record whose version grows with every write. \<open>tag\<close> writes a version as the text in the
  record; \<open>recorded d l x\<close> says that the record \<open>x\<close> stands for a renewal at \<open>l\<close> for the duration \<open>d\<close>,
  as the store keeps it, and \<open>stale d t l\<close> what other pods may conclude from it at the time \<open>t\<close>.
\<close>

locale versioned_store =
  fixes ops :: "'b backend_ops"
    and contents :: "'b \<Rightarrow> lease_record option"
    and version :: "'b \<Rightarrow> nat"
    and tag :: "nat \<Rightarrow> string"
    and sane :: "'b \<Rightarrow> bool"
    and recorded :: "fl \<Rightarrow> fl \<Rightarrow> lease_record \<Rightarrow> bool"
    and stale :: "fl \<Rightarrow> fl \<Rightarrow> fl \<Rightarrow> bool"
  assumes tag_inject: "tag v = tag v' \<Longrightarrow> v = v'"
    and tagged: "sane b \<Longrightarrow> contents b = Some x \<Longrightarrow> lr_version x = Some (tag (version b))"
    and get_same: "sane b \<Longrightarrow> lb_get ops b = (b', q) \<Longrightarrow> b' = b \<and> (\<forall>c. q = Inr c \<longrightarrow> c = contents b)"
    and create_fails: "sane b \<Longrightarrow> lb_create ops b r = (b', Inl err) \<Longrightarrow> b' = b"
    and create_writes: "sane b \<Longrightarrow> isfinite (lr_renew r) \<Longrightarrow> lb_create ops b r = (b', Inr a) \<Longrightarrow>
      contents b = None \<and> sane b' \<and> version b < version b'
      \<and> (\<exists>x. contents b' = Some x \<and> lr_holder x = lr_holder r \<and> recorded (lr_duration r) (lr_renew r) x)"
    and update_fails: "sane b \<Longrightarrow> lb_update ops b r = (b', Inl err) \<Longrightarrow> b' = b"
    and update_writes: "sane b \<Longrightarrow> isfinite (lr_renew r) \<Longrightarrow> lb_update ops b r = (b', Inr a) \<Longrightarrow>
      (\<exists>cur. contents b = Some cur \<and> lr_version cur = lr_version r) \<and> sane b' \<and> version b < version b'
      \<and> (\<exists>x. contents b' = Some x \<and> lr_holder x = lr_holder r \<and> recorded (lr_duration r) (lr_renew r) x)"
    and recorded_older: "recorded d l x \<Longrightarrow> isfinite l' \<Longrightarrow> l' \<le> l \<Longrightarrow> recorded d l' x"
    and expired_stale: "recorded d l x \<Longrightarrow> isfinite l \<Longrightarrow> is_expired x now \<Longrightarrow> isfinite now \<Longrightarrow> now \<le> t
      \<Longrightarrow> isfinite t \<Longrightarrow> stale d t l"
    and stale_later: "stale d t l \<Longrightarrow> isfinite l \<Longrightarrow> isfinite t \<Longrightarrow> t \<le> t' \<Longrightarrow> isfinite t' \<Longrightarrow> stale d t' l"
begin

text \<open>
  The invariant. Whoever leads under its own record renewed as the record says; whoever leads without it
  is stale. What a pod has observed is either outdated or still stored.
\<close>

definition holds_or_stale :: "'b lease_world \<Rightarrow> lease_record \<Rightarrow> string \<Rightarrow> bool" where
  "holds_or_stale w r i \<longleftrightarrow>
     (let e = lw_pod w i in if lr_holder r = i then recorded (el_duration e) (el_last_renew e) r
      else stale (el_duration e) (lw_time w) (el_last_renew e))"

definition store_sound :: "'b lease_world \<Rightarrow> bool" where
  "store_sound w \<longleftrightarrow> isfinite (lw_time w) \<and> sane (lw_store w)"

definition pod_sound :: "'b lease_world \<Rightarrow> string \<Rightarrow> bool" where
  "pod_sound w i \<longleftrightarrow> el_identity (lw_pod w i) = i
     \<and> (el_is_leader (lw_pod w i) \<longrightarrow>
          isfinite (el_last_renew (lw_pod w i)) \<and> el_last_renew (lw_pod w i) \<le> lw_time w
          \<and> (\<exists>r. contents (lw_store w) = Some r \<and> holds_or_stale w r i))"

definition observed_sound :: "'b \<Rightarrow> lease_record \<Rightarrow> bool" where
  "observed_sound b x \<longleftrightarrow>
     (\<exists>v\<le>version b. lr_version x = Some (tag v) \<and> (v = version b \<longrightarrow> contents b = Some x))"

definition phase_sound :: "'b lease_world \<Rightarrow> string \<Rightarrow> bool" where
  "phase_sound w i \<longleftrightarrow>
     (case lw_phase w i of
        Idle \<Rightarrow> True
      | Started now \<Rightarrow> isfinite now \<and> now \<le> lw_time w
          \<and> (el_is_leader (lw_pod w i) \<longrightarrow> el_last_renew (lw_pod w i) \<le> now)
      | Observed now obs \<Rightarrow> isfinite now \<and> now \<le> lw_time w
          \<and> (el_is_leader (lw_pod w i) \<longrightarrow> el_last_renew (lw_pod w i) \<le> now)
          \<and> (\<forall>x. obs = Some x \<longrightarrow> observed_sound (lw_store w) x))"

definition lease_sound :: "'b lease_world \<Rightarrow> bool" where
  "lease_sound w \<longleftrightarrow> store_sound w \<and> (\<forall>i. pod_sound w i) \<and> (\<forall>i. phase_sound w i)"

text \<open>What a write does.\<close>

lemma write_outcome_cases:
  assumes "write_outcome ops i now obs w = (e', b')" and "sane (lw_store w)" and "isfinite now"
  obtains (kept) "b' = lw_store w" "e' = lw_pod w i \<or> e' = fst (mark_not_leader True (lw_pod w i))"
  | (stored) x acq where "contents b' = Some x" "sane b'" "version (lw_store w) < version b'"
      "e' = fst (mark_leader now acq (lw_pod w i))" "lr_holder x = el_identity (lw_pod w i)"
      "recorded (el_duration (lw_pod w i)) now x"
      "case obs of None \<Rightarrow> contents (lw_store w) = None
       | Some r \<Rightarrow> (\<exists>cur. contents (lw_store w) = Some cur \<and> lr_version cur = lr_version r)
           \<and> (lr_holder r = el_identity (lw_pod w i) \<or> is_expired r now)"
proof -
  let ?e = "lw_pod w i" and ?b = "lw_store w"
  note act = assms(1) [unfolded write_outcome_def]
  have "(b' = ?b \<and> (e' = ?e \<or> e' = fst (mark_not_leader True ?e)))
    \<or> (\<exists>x acq. contents b' = Some x \<and> sane b' \<and> version ?b < version b'
      \<and> e' = fst (mark_leader now acq ?e) \<and> lr_holder x = el_identity ?e \<and> recorded (el_duration ?e) now x
      \<and> (case obs of None \<Rightarrow> contents ?b = None
         | Some r \<Rightarrow> (\<exists>cur. contents ?b = Some cur \<and> lr_version cur = lr_version r)
           \<and> (lr_holder r = el_identity ?e \<or> is_expired r now)))"
  proof (cases "lease_decide ?e now obs")
    case StandBy
    with act show ?thesis by (auto simp: lease_act_def case_prod_unfold Let_def)
  next
    case (CreateLease r)
    then have obs: "obs = None" and r: "lr_renew r = now" "lr_holder r = el_identity ?e" "lr_duration r = el_duration ?e"
      by (auto simp: lease_decide_def Let_def split: option.splits if_splits)
    show ?thesis
    proof (cases "lb_create ops ?b r")
      case (Pair b1 q)
      show ?thesis
      proof (cases q)
        case (Inl err)
        with act CreateLease Pair create_fails [OF assms(2)] show ?thesis by (auto simp: lease_act_def)
      next
        case (Inr a)
        with create_writes [OF assms(2), of r b1 a] Pair r assms(3) act CreateLease obs show ?thesis
          by (auto simp: lease_act_def case_prod_unfold Let_def)
      qed
    qed
  next
    case (ReplaceLease r acq)
    then obtain r0 where obs: "obs = Some r0" "lr_version r = lr_version r0"
        "lr_holder r0 = el_identity ?e \<or> is_expired r0 now"
      and r: "lr_renew r = now" "lr_holder r = el_identity ?e" "lr_duration r = el_duration ?e"
      by (auto simp: lease_decide_def Let_def split: option.splits if_splits)
    show ?thesis
    proof (cases "lb_update ops ?b r")
      case (Pair b1 q)
      show ?thesis
      proof (cases q)
        case (Inl err)
        with act ReplaceLease Pair update_fails [OF assms(2)] show ?thesis by (auto simp: lease_act_def)
      next
        case (Inr a)
        with update_writes [OF assms(2), of r b1 a] Pair r assms(3) act ReplaceLease obs show ?thesis
          by (auto simp: lease_act_def case_prod_unfold Let_def)
      qed
    qed
  qed
  then show thesis using kept stored by blast
qed

lemma observed_current:
  assumes "observed_sound b r" "sane b" "contents b = Some cur" "lr_version cur = lr_version r"
  shows "cur = r"
  using assms tagged tag_inject by (auto simp: observed_sound_def)

text \<open>A record that takes the place of the stored one leaves every other leader stale.\<close>

lemma displaced_is_stale:
  assumes sound: "store_sound w" "pod_sound w i" "pod_sound w j" "phase_sound w i"
    and ph: "lw_phase w i = Observed now obs"
    and obs: "case obs of None \<Rightarrow> contents (lw_store w) = None
       | Some r \<Rightarrow> (\<exists>cur. contents (lw_store w) = Some cur \<and> lr_version cur = lr_version r)
           \<and> (lr_holder r = el_identity (lw_pod w i) \<or> is_expired r now)"
    and j: "j \<noteq> i" "el_is_leader (lw_pod w j)"
  shows "stale (el_duration (lw_pod w j)) (lw_time w) (el_last_renew (lw_pod w j))"
proof -
  from sound(3) j(2) obtain r0 where r0: "contents (lw_store w) = Some r0" "holds_or_stale w r0 j"
    and lj: "isfinite (el_last_renew (lw_pod w j))"
    by (auto simp: pod_sound_def)
  show ?thesis
  proof (cases "lr_holder r0 = j")
    case False
    with r0 show ?thesis by (simp add: holds_or_stale_def Let_def)
  next
    case True
    from r0 obs obtain r where r: "obs = Some r" by (cases obs) auto
    with sound(4) ph have "observed_sound (lw_store w) r" by (simp add: phase_sound_def)
    with observed_current [of "lw_store w" r r0] sound(1) r0 obs r have "r0 = r"
      by (auto simp: store_sound_def)
    moreover have "el_identity (lw_pod w i) = i" using sound(2) by (simp add: pod_sound_def)
    ultimately have "is_expired r0 now" using obs r True j(1) by simp
    moreover have "recorded (el_duration (lw_pod w j)) (el_last_renew (lw_pod w j)) r0"
      using r0 True by (simp add: holds_or_stale_def Let_def)
    moreover have "isfinite now" "now \<le> lw_time w" "isfinite (lw_time w)"
      using sound(1,4) ph by (simp_all add: phase_sound_def store_sound_def)
    ultimately show ?thesis using expired_stale lj by blast
  qed
qed

lemma observed_grown:
  "observed_sound b x \<Longrightarrow> version b < version b' \<Longrightarrow> observed_sound b' x"
  unfolding observed_sound_def by (metis linorder_not_less order_less_imp_le order_trans)

lemma store_replaced:
  assumes w: "lease_sound w" and ph: "lw_phase w i = Observed now obs"
    and b: "contents b = Some x" "sane b" "version (lw_store w) < version b"
    and x: "lr_holder x = i" "recorded (el_duration (lw_pod w i)) now x"
    and obs: "case obs of None \<Rightarrow> contents (lw_store w) = None
       | Some r \<Rightarrow> (\<exists>cur. contents (lw_store w) = Some cur \<and> lr_version cur = lr_version r)
           \<and> (lr_holder r = el_identity (lw_pod w i) \<or> is_expired r now)"
    and e: "el_identity e = i" "el_is_leader e \<longrightarrow> isfinite (el_last_renew e) \<and> el_last_renew e \<le> now
        \<and> el_duration e = el_duration (lw_pod w i)"
  shows "lease_sound (set_phase i Idle (set_pod i e (w\<lparr>lw_store := b\<rparr>)))" (is "lease_sound ?w")
proof -
  have store: "store_sound w" and pods: "pod_sound w j" and phases: "phase_sound w j" for j
    using w by (simp_all add: lease_sound_def)
  have now: "isfinite now" "now \<le> lw_time w" using phases [of i] ph by (simp_all add: phase_sound_def)
  have "store_sound ?w"
    using store b by (simp add: store_sound_def set_phase_def set_pod_def)
  moreover have "pod_sound ?w j" for j
  proof (cases "j = i")
    case True
    with e b x now recorded_older [OF x(2)] show ?thesis
      by (auto simp: pod_sound_def holds_or_stale_def set_phase_def set_pod_def Let_def intro: fl_le_trans)
  next
    case False
    with displaced_is_stale [OF store pods pods phases ph obs False] pods [of j] b x show ?thesis
      by (auto simp: pod_sound_def holds_or_stale_def set_phase_def set_pod_def Let_def)
  qed
  moreover have "phase_sound ?w j" for j
    using phases [of j] b(3) observed_grown
    by (cases "j = i"; cases "lw_phase w j") (fastforce simp: phase_sound_def set_phase_def set_pod_def)+
  ultimately show ?thesis by (simp add: lease_sound_def)
qed

text \<open>What a change of one pod's phase or elector leaves as it was.\<close>

lemma phase_frame [simp]:
  "store_sound (set_phase i p w) = store_sound w" "pod_sound (set_phase i p w) j = pod_sound w j"
  by (simp_all add: store_sound_def pod_sound_def holds_or_stale_def set_phase_def)

lemma pod_frame [simp]:
  "store_sound (set_pod i e w) = store_sound w" "j \<noteq> i \<Longrightarrow> pod_sound (set_pod i e w) j = pod_sound w j"
  by (simp_all add: store_sound_def pod_sound_def holds_or_stale_def set_pod_def)

lemma phase_of_others [simp]:
  "j \<noteq> i \<Longrightarrow> phase_sound (set_phase i p w) j = phase_sound w j"
  "j \<noteq> i \<Longrightarrow> phase_sound (set_pod i e w) j = phase_sound w j"
  by (simp_all add: phase_sound_def set_phase_def set_pod_def split: tick_phase.split)

lemma phase_idle [simp]: "phase_sound (set_phase i Idle w) i"
  by (simp add: phase_sound_def set_phase_def)

text \<open>A pod that steps down, restarts or goes idle disturbs nobody.\<close>

lemma stepped_down:
  assumes w: "lease_sound w" and e: "el_identity e = i" "\<not> el_is_leader e \<or> e = lw_pod w i"
  shows "lease_sound (set_phase i Idle (set_pod i e w))"
proof -
  have "pod_sound (set_pod i e w) i"
  proof (cases "e = lw_pod w i")
    case True
    with w show ?thesis by (simp add: lease_sound_def)
  next
    case False
    with e show ?thesis by (simp add: pod_sound_def set_pod_def)
  qed
  then have "pod_sound (set_pod i e w) j" for j
    using w by (cases "j = i") (simp_all add: lease_sound_def)
  moreover have "phase_sound (set_phase i Idle (set_pod i e w)) j" for j
    using w by (cases "j = i") (simp_all add: lease_sound_def)
  ultimately show ?thesis using w by (simp add: lease_sound_def)
qed

lemma sound_write:
  assumes w: "lease_sound w" and ph: "lw_phase w i = Observed now obs"
    and out: "write_outcome ops i now obs w = (e, b)"
  shows "lease_sound (set_phase i Idle (set_pod i e (w\<lparr>lw_store := b\<rparr>)))"
    and "lease_sound (set_phase i Idle (w\<lparr>lw_store := b\<rparr>))"
proof -
  have i: "el_identity (lw_pod w i) = i" using w by (simp add: lease_sound_def pod_sound_def)
  have p: "isfinite now" "now \<le> lw_time w" "el_is_leader (lw_pod w i) \<longrightarrow> el_last_renew (lw_pod w i) \<le> now"
    using w ph by (auto simp: lease_sound_def phase_sound_def split: tick_phase.splits dest: spec [of _ i])
  have l: "el_is_leader (lw_pod w i) \<longrightarrow> isfinite (el_last_renew (lw_pod w i))" and s: "sane (lw_store w)"
    using w by (simp_all add: lease_sound_def pod_sound_def store_sound_def)
  from out s p(1) have "lease_sound (set_phase i Idle (set_pod i e (w\<lparr>lw_store := b\<rparr>)))
    \<and> lease_sound (set_phase i Idle (set_pod i (lw_pod w i) (w\<lparr>lw_store := b\<rparr>)))"
  proof (cases rule: write_outcome_cases)
    case kept
    then have "el_identity e = i" "\<not> el_is_leader e \<or> e = lw_pod w i" using i by auto
    with stepped_down [OF w this] stepped_down [OF w i] kept(1) show ?thesis by simp
  next
    case (stored x acq)
    have "isfinite (el_last_renew e) \<and> el_last_renew e \<le> now \<and> el_duration e = el_duration (lw_pod w i)"
      using stored(4) p(1) by (simp add: isfinite_iff) (metis fl_le_refl fl.distinct(5))
    with stored i p l show ?thesis
      by (intro conjI store_replaced [OF w ph stored(1,2,3)]) simp_all
  qed
  then show "lease_sound (set_phase i Idle (set_pod i e (w\<lparr>lw_store := b\<rparr>)))"
    and "lease_sound (set_phase i Idle (w\<lparr>lw_store := b\<rparr>))" by simp_all
qed

lemma sound_clock:
  assumes "lease_sound w" "isfinite t" "lw_time w \<le> t"
  shows "lease_sound (w\<lparr>lw_time := t\<rparr>)"
proof -
  have older: "x \<le> t" if "x \<le> lw_time w" for x using that assms(3) by (rule fl_le_trans)
  have now: "isfinite (lw_time w)" using assms(1) by (simp add: lease_sound_def store_sound_def)
  have "store_sound (w\<lparr>lw_time := t\<rparr>)"
    using assms older by (auto simp: lease_sound_def store_sound_def)
  moreover have "pod_sound (w\<lparr>lw_time := t\<rparr>) i" for i
  proof -
    have "holds_or_stale (w\<lparr>lw_time := t\<rparr>) r i"
      if "holds_or_stale w r i" "isfinite (el_last_renew (lw_pod w i))" for r
      using that stale_later now assms(2,3) by (auto simp: holds_or_stale_def Let_def)
    with assms(1) older show ?thesis by (fastforce simp: lease_sound_def pod_sound_def)
  qed
  moreover have "phase_sound (w\<lparr>lw_time := t\<rparr>) i" for i
    using assms(1) older by (auto simp: lease_sound_def phase_sound_def split: tick_phase.splits dest!: spec [of _ i])
  ultimately show ?thesis by (simp add: lease_sound_def)
qed

lemma sound_set_phase:
  assumes "lease_sound w" "phase_sound (set_phase i p w) i"
  shows "lease_sound (set_phase i p w)"
proof -
  have "phase_sound (set_phase i p w) j" for j
    using assms by (cases "j = i") (simp_all add: lease_sound_def)
  with assms(1) show ?thesis by (simp add: lease_sound_def)
qed

lemma sound_begin:
  assumes "lease_sound w"
  shows "lease_sound (set_phase i (Started (lw_time w)) w)"
  using assms
  by (intro sound_set_phase)
    (auto simp: lease_sound_def store_sound_def pod_sound_def phase_sound_def set_phase_def isfinite_iff
      intro: fl_le_refl)

lemma sound_read:
  assumes w: "lease_sound w" and ph: "lw_phase w i = Started now"
  shows "lease_sound (set_phase i (Observed now (contents (lw_store w))) w)"
proof (rule sound_set_phase [OF w])
  have "phase_sound w i" "store_sound w" using w by (simp_all add: lease_sound_def)
  moreover from this have "observed_sound (lw_store w) x" if "contents (lw_store w) = Some x" for x
    using that tagged by (auto simp: observed_sound_def store_sound_def)
  ultimately show "phase_sound (set_phase i (Observed now (contents (lw_store w))) w) i"
    using ph by (auto simp: phase_sound_def set_phase_def)
qed

lemma sound_move:
  assumes w: "lease_sound w" and move: "lease_move ops m w = Some w'"
  shows "lease_sound w'"
proof (cases m)
  case (Clock t)
  with sound_clock [OF w] move show ?thesis by (auto split: if_splits)
next
  case (BeginTick i)
  with sound_begin [OF w] move show ?thesis by (auto split: tick_phase.splits)
next
  case (ReadLease i)
  with move obtain now where ph: "lw_phase w i = Started now" by (auto split: tick_phase.splits)
  obtain b q where g: "lb_get ops (lw_store w) = (b, q)" by fastforce
  have "b = lw_store w \<and> (\<forall>c. q = Inr c \<longrightarrow> c = contents (lw_store w))"
    using get_same [OF _ g] w by (simp add: lease_sound_def store_sound_def)
  with ReadLease move ph g sound_read [OF w ph] sound_set_phase [OF w phase_idle [of i w]] show ?thesis
    by (cases q) auto
next
  case (WriteLease i)
  with sound_write(1) [OF w] move show ?thesis by (auto simp: Let_def split: tick_phase.splits prod.splits)
next
  case (AnswerLost i)
  with move obtain now obs where "lw_phase w i = Observed now obs"
    "w' = set_phase i Idle (w\<lparr>lw_store := snd (write_outcome ops i now obs w)\<rparr>)"
    by (auto split: tick_phase.splits)
  with sound_write(2) [OF w, of i now obs "fst (write_outcome ops i now obs w)"] show ?thesis by simp
next
  case (CallFails i)
  with move sound_set_phase [OF w phase_idle [of i w]] show ?thesis by auto
next
  case (DeadlineCheck i)
  have "el_identity (expire_self (lw_pod w i)) = i" using w by (simp add: lease_sound_def pod_sound_def)
  from stepped_down [OF w this] have "lease_sound (set_phase i Idle (set_pod i (expire_self (lw_pod w i)) w))"
    by simp
  with DeadlineCheck move w show ?thesis
    by (auto simp: set_phase_same split: tick_phase.splits if_splits)
next
  case (Restart i d dl rp)
  with stepped_down [OF w, of "mk_elector i d dl rp" i] move show ?thesis by simp
qed

lemma sound_init: "isfinite t \<Longrightarrow> sane b \<Longrightarrow> lease_sound (lease_world_init b t)"
  by (simp add: lease_sound_def lease_world_init_def store_sound_def pod_sound_def phase_sound_def)

lemma lease_reach_sound: "lease_reach ops b w \<Longrightarrow> sane b \<Longrightarrow> lease_sound w"
  by (induction rule: lease_reach.induct) (auto intro: sound_init sound_move)

text \<open>Two leaders that are not stale are one.\<close>

lemma one_leader:
  assumes "lease_reach ops b w" and "sane b"
    and "el_is_leader (lw_pod w i)" and "\<not> stale (el_duration (lw_pod w i)) (lw_time w) (el_last_renew (lw_pod w i))"
    and "el_is_leader (lw_pod w j)" and "\<not> stale (el_duration (lw_pod w j)) (lw_time w) (el_last_renew (lw_pod w j))"
  shows "i = j"
proof -
  have "pod_sound w k" for k using lease_reach_sound [OF assms(1,2)] by (simp add: lease_sound_def)
  from this [of i] this [of j] assms(3-6) show ?thesis
    by (auto simp: pod_sound_def holds_or_stale_def Let_def split: if_splits)
qed

lemma leads_recently:
  assumes "lease_reach ops b w" and "sane b" and "el_is_leader (lw_pod w i)"
  shows "isfinite (el_last_renew (lw_pod w i)) \<and> el_last_renew (lw_pod w i) \<le> lw_time w \<and> isfinite (lw_time w)"
  using lease_reach_sound [OF assms(1,2)] assms(3) by (simp add: lease_sound_def pod_sound_def store_sound_def)

end

section \<open>The in-memory store\<close>

definition mem_recorded :: "fl \<Rightarrow> fl \<Rightarrow> lease_record \<Rightarrow> bool" where
  "mem_recorded d l x \<longleftrightarrow> isfinite (lr_renew x) \<and> l \<le> lr_renew x \<and> lr_duration x = d"

definition mem_stale :: "fl \<Rightarrow> fl \<Rightarrow> fl \<Rightarrow> bool" where
  "mem_stale d t l \<longleftrightarrow> d < t - l"

definition mem_sane :: "mem_backend \<Rightarrow> bool" where
  "mem_sane b \<longleftrightarrow> 0 \<le> mb_version b \<and> (\<forall>x. mb_record b = Some x \<longrightarrow> lr_version x = Some (show_int (mb_version b)))"

interpretation mem: versioned_store mem_ops mb_record "\<lambda>b. nat (mb_version b)" "\<lambda>n. show_int (int n)"
  mem_sane mem_recorded mem_stale
proof
  show "v = v'" if "show_int (int v) = show_int (int v')" for v v' using that by (simp add: show_int_inject)
  show "mem_recorded d l' x" if "mem_recorded d l x" "l' \<le> l" for d l l' x
    using that by (auto simp: mem_recorded_def intro: fl_le_trans)
  show "mem_stale d t l" if r: "mem_recorded d l x" and l: "isfinite l" and e: "is_expired x now" "isfinite now"
    and t: "now \<le> t" for d l x now t
  proof -
    have "now - lr_renew x \<le> now - l"
      using r e(2) by (intro fl_diff_antimono) (simp_all add: mem_recorded_def)
    also have "now - l \<le> t - l" using t l by (rule fl_diff_mono)
    finally (fl_le_trans) show ?thesis
      using e(1) r by (auto simp: mem_stale_def is_expired_def mem_recorded_def intro: fl_less_le_trans)
  qed
  show "mem_stale d t' l" if "mem_stale d t l" "isfinite l" "t \<le> t'" for d t t' l
    using that fl_diff_mono fl_less_le_trans by (auto simp: mem_stale_def)
qed (auto simp: mem_ops_def mem_get_def mem_create_def mem_update_def mem_store_def mem_sane_def mem_recorded_def Let_def
    isfinite_iff intro: fl_le_refl split: if_splits option.splits)

section \<open>Properties\<close>

text \<open>
  C1. At most one current leader: in every state that any number of pods can reach over the in-memory
  backend, with any interleaving of their reads and writes, lost answers, restarts and changed settings,
  two pods that both lead and both renewed within their own lease duration are the same pod.
\<close>

theorem at_most_one_current_leader:
  assumes "lease_reach mem_ops mem_init w"
    and "el_is_leader (lw_pod w i)" and "\<not> el_duration (lw_pod w i) < lw_time w - el_last_renew (lw_pod w i)"
    and "el_is_leader (lw_pod w j)" and "\<not> el_duration (lw_pod w j) < lw_time w - el_last_renew (lw_pod w j)"
  shows "i = j"
proof -
  have "mem_sane mem_init" by (simp add: mem_sane_def mem_init_def)
  with assms show ?thesis by (intro mem.one_leader [OF assms(1)]) (simp_all add: mem_stale_def)
qed

text \<open>
  The interleaved tick is the code's tick: a pod that begins, reads and writes with nothing in
  between ends with the elector and the store that \<open>try_acquire_or_renew\<close> computes, whatever the backend.
\<close>

theorem undisturbed_tick:
  assumes "lw_phase w i = Idle" and "\<exists>b obs. lb_get ops (lw_store w) = (b, Inr obs)"
  shows "\<exists>w'. lease_moves ops [BeginTick i, ReadLease i, WriteLease i] w = Some w'
    \<and> (lw_pod w' i, lw_store w') = fst (try_acquire_or_renew ops (lw_time w) (lw_pod w i, lw_store w))
    \<and> (\<forall>j. j \<noteq> i \<longrightarrow> lw_pod w' j = lw_pod w j) \<and> lw_phase w' i = Idle"
  using assms
  by (auto simp: set_phase_def set_pod_def write_outcome_def try_acquire_or_renew_def Let_def case_prod_unfold)

section \<open>Witnesses\<close>

text \<open>A pod pauses for longer than its lease, another takes over before the first one notices.\<close>

definition sample_moves :: "pod_move list" where
  "sample_moves =
     [BeginTick ''a'', ReadLease ''a'', WriteLease ''a'', Clock (Fin 100),
      BeginTick ''b'', ReadLease ''b'', WriteLease ''b'']"

lemma at_most_one_current_leader_witness:
  "\<exists>w. lease_moves mem_ops sample_moves (lease_world_init mem_init (Fin 0)) = Some w
     \<and> el_is_leader (lw_pod w ''a'') \<and> el_is_leader (lw_pod w ''b'')
     \<and> el_duration (lw_pod w ''a'') < lw_time w - el_last_renew (lw_pod w ''a'')"
proof -
  have run: "map_option (\<lambda>w. (el_is_leader (lw_pod w ''a''), el_is_leader (lw_pod w ''b''),
      el_duration (lw_pod w ''b'') < lw_time w - el_last_renew (lw_pod w ''b'')))
    (lease_moves mem_ops sample_moves (lease_world_init mem_init (Fin 0))) = Some (True, True, False)" by code_simp
  then obtain w where w: "lease_moves mem_ops sample_moves (lease_world_init mem_init (Fin 0)) = Some w"
    and l: "el_is_leader (lw_pod w ''a'')" "el_is_leader (lw_pod w ''b'')"
      "\<not> el_duration (lw_pod w ''b'') < lw_time w - el_last_renew (lw_pod w ''b'')" by auto
  have "lease_reach mem_ops mem_init w" using lease_reach_moves [OF _ w] by (simp add: reach_init)
  from at_most_one_current_leader [OF this l(1) _ l(2,3)] w l show ?thesis by auto
qed

lemma undisturbed_tick_witness:
  "\<exists>w. lease_moves mem_ops [BeginTick ''a'', ReadLease ''a'', WriteLease ''a''] (lease_world_init mem_init (Fin 0)) = Some w
     \<and> el_is_leader (lw_pod w ''a'')"
proof -
  have "el_is_leader (fst (fst (try_acquire_or_renew mem_ops (Fin 0) (lw_pod (lease_world_init mem_init (Fin 0)) ''a'',
      lw_store (lease_world_init mem_init (Fin 0))))))" by code_simp
  with undisturbed_tick [of "lease_world_init mem_init (Fin 0)" "''a''" mem_ops] show ?thesis
    by (auto simp: lease_world_init_def mem_ops_def mem_get_def) (metis fst_conv)
qed

end
