(* ===== verification/KubeLease.thy ===== *)
theory KubeLease imports LeaseProtocol begin

text \<open>
  The election over Kubernetes, \<open>KubernetesLeaseBackend\<close> of \<open>lease.py\<close> against an API server. The server
  is a parameter with the documented behaviour of a resource under optimistic concurrency. The Lease
  keeps whole seconds for the duration and microseconds for the times, so what others read of a renewal
  differs from what the holder remembers; the properties bound the difference.
\<close>

section \<open>The backend\<close>

record 's kube_api =
  ka_read :: "'s \<Rightarrow> int + k8s_lease"
  ka_create :: "'s \<Rightarrow> k8s_lease \<Rightarrow> 's \<times> (int + k8s_lease)"
  ka_replace :: "'s \<Rightarrow> k8s_lease \<Rightarrow> 's \<times> (int + k8s_lease)"

definition kube_get :: "'s kube_api \<Rightarrow> 's \<Rightarrow> 's \<times> lease_record option res" where
  "kube_get api s = (s, k8s_get (ka_read api s))"

definition kube_create :: "'s kube_api \<Rightarrow> 's \<Rightarrow> lease_record \<Rightarrow> 's \<times> lease_record res" where
  "kube_create api s r =
     (case k8s_spec r None of
        Inl err \<Rightarrow> (s, Inl err)
      | Inr body \<Rightarrow> (let (s', answer) = ka_create api s body in (s', k8s_write answer)))"

definition kube_update :: "'s kube_api \<Rightarrow> 's \<Rightarrow> lease_record \<Rightarrow> 's \<times> lease_record res" where
  "kube_update api s r =
     (case k8s_spec r (lr_version r) of
        Inl err \<Rightarrow> (s, Inl err)
      | Inr body \<Rightarrow> (let (s', answer) = ka_replace api s body in (s', k8s_write answer)))"

definition kube_ops :: "'s kube_api \<Rightarrow> 's backend_ops" where
  "kube_ops api = \<lparr>lb_get = kube_get api, lb_create = kube_create api, lb_update = kube_update api\<rparr>"

text \<open>The answer of a call is the one of the stateless view.\<close>

lemma kube_answers:
  "snd (kube_create api s r) = k8s_create (\<lambda>body. snd (ka_create api s body)) r"
  "snd (kube_update api s r) = k8s_update (\<lambda>body. snd (ka_replace api s body)) r"
  by (auto simp: kube_create_def kube_update_def k8s_create_def k8s_update_def case_prod_unfold Let_def
      split: sum.split)

section \<open>The API server\<close>

text \<open>
  The documented behaviour: a read returns the Lease, 404 when there is none, or fails otherwise. A
  refused write changes nothing; a create goes through only when there is no Lease, a replace only when
  the version in the body is the stored one; the duration is a positive 32-bit number; what is stored is
  the body under a version that no earlier write had.
\<close>

definition write_accepted ::
  "('s \<Rightarrow> k8s_lease option) \<Rightarrow> ('s \<Rightarrow> nat) \<Rightarrow> 's \<Rightarrow> k8s_lease \<Rightarrow> 's \<Rightarrow> k8s_lease \<Rightarrow> bool" where
  "write_accepted held ver s body s' k \<longleftrightarrow>
     ver s < ver s' \<and> held s' = Some k \<and> k\<lparr>kl_version := kl_version body\<rparr> = body
     \<and> (\<exists>n. kl_duration body = Some n \<and> 0 < n \<and> n < 2 ^ 31)"

definition optimistic :: "'s kube_api \<Rightarrow> ('s \<Rightarrow> k8s_lease option) \<Rightarrow> ('s \<Rightarrow> nat) \<Rightarrow> (nat \<Rightarrow> string) \<Rightarrow> bool" where
  "optimistic api held ver tag \<longleftrightarrow>
     inj tag
     \<and> (\<forall>s k. held s = Some k \<longrightarrow> kl_version k = Some (tag (ver s)))
     \<and> (\<forall>s. ka_read api s = (case held s of None \<Rightarrow> Inl 404 | Some k \<Rightarrow> Inr k)
          \<or> (\<exists>status. status \<noteq> 404 \<and> ka_read api s = Inl status))
     \<and> (\<forall>s body s' a. ka_create api s body = (s', a) \<longrightarrow>
          (case a of Inl _ \<Rightarrow> s' = s | Inr k \<Rightarrow> held s = None \<and> write_accepted held ver s body s' k))
     \<and> (\<forall>s body s' a. ka_replace api s body = (s', a) \<longrightarrow>
          (case a of Inl _ \<Rightarrow> s' = s
           | Inr k \<Rightarrow> (\<exists>cur. held s = Some cur \<and> kl_version cur = kl_version body)
               \<and> write_accepted held ver s body s' k))"

section \<open>What the Lease keeps of a time\<close>

lemma is_double_scaled:
  assumes "\<bar>m\<bar> \<le> 2 ^ 53" and "- 1074 \<le> e" and "e \<le> 900"
  shows "is_double (Fin (of_int m * 2 powi e))"
proof -
  have "of_int \<bar>m\<bar> \<le> (of_int (2 ^ 53) :: rat)" using assms(1) by (simp only: of_int_le_iff)
  then have "\<bar>of_int m * 2 powi e\<bar> \<le> 2 ^ 53 * (2 powi 900 :: rat)"
    using two_powi_mono [OF assms(3)] by (simp only: abs_mult) (intro mult_mono, simp_all)
  also have "\<dots> < 2 ^ 1024" by (simp only: power_int_numeral) simp
  finally have "rnd (of_int m * 2 powi e) = Fin (of_int m * 2 powi e)"
    using rnd_exact [OF refl assms(1,2)] by blast
  then show ?thesis by (simp add: is_double_def)
qed

lemma rnd_near:
  assumes "\<bar>x\<bar> \<le> (2 ^ 53 - 1) * 2 powi e" and "- 1074 \<le> e" and "e \<le> 900"
  shows "\<exists>y. rnd x = Fin y \<and> \<bar>y - x\<bar> \<le> 2 powi e"
proof -
  let ?g = "(2::rat) powi e" and ?m = "\<lfloor>x / 2 powi e\<rfloor>"
  have g: "0 < ?g" by simp
  have q: "\<bar>x / ?g\<bar> \<le> 2 ^ 53 - 1" using assms(1) g by (simp add: abs_divide pos_divide_le_eq)
  then have b: "- (2 ^ 53 - 1) \<le> x / ?g" "x / ?g \<le> 2 ^ 53 - 1" unfolding abs_le_iff by linarith+
  have "?m \<le> 2 ^ 53 - 1" "- (2 ^ 53 - 1) \<le> ?m" using floor_mono [OF b(1)] floor_mono [OF b(2)] by simp_all
  then have m: "\<bar>?m\<bar> \<le> 2 ^ 53" "\<bar>?m + 1\<bar> \<le> 2 ^ 53" unfolding abs_le_iff by linarith+
  have lo: "of_int ?m * ?g \<le> x" using g of_int_floor_le [of "x / ?g"] by (simp only: pos_le_divide_eq)
  have "x / ?g \<le> of_int (?m + 1)" using floor_correct [of "x / ?g"] by linarith
  then have hi: "x \<le> of_int (?m + 1) * ?g" using g by (simp only: pos_divide_le_eq)
  obtain y where "rnd x = Fin y" "of_int ?m * ?g \<le> y" "y \<le> of_int (?m + 1) * ?g"
    using rnd_between [OF is_double_scaled [OF m(1) assms(2,3)] is_double_scaled [OF m(2) assms(2,3)] lo hi] by blast
  with lo hi show ?thesis by (intro exI [of _ y]) (simp add: algebra_simps abs_le_iff)
qed

text \<open>
  The slack: half a microsecond for the timestamp, a rounding of the product, and the spacing of floats
  as large as the seconds of the year 9999.
\<close>

definition lease_slack :: rat where
  "lease_slack = 1 / 20000"

lemma kept_time:
  assumes "to_dt (Fin x) = Inr us"
  shows "\<exists>y. to_epoch (Some us) = Fin y \<and> \<bar>y - x\<bar> \<le> lease_slack"
proof -
  let ?sec = "rat_trunc x"
  have frac: "\<bar>x - of_int ?sec\<bar> \<le> 1"
    by (auto simp: rat_trunc_def abs_le_iff) linarith+
  then have "\<bar>(x - of_int ?sec) * 1000000\<bar> \<le> 1000000" unfolding abs_mult by simp
  also have "\<dots> \<le> (2 ^ 53 - 1) * (2 powi (- 33) :: rat)" by (simp add: power_int_minus)
  finally obtain p where p: "rnd ((x - of_int ?sec) * 1000000) = Fin p"
      "\<bar>p - (x - of_int ?sec) * 1000000\<bar> \<le> 2 powi (- 33)"
    using rnd_near [of "(x - of_int ?sec) * 1000000" "- 33"] by auto
  from assms p(1) have us: "us = ?sec * 1000000 + round_half_even p"
    and range: "- 62135596800000000 \<le> us" "us < 253402300800000000"
    by (auto simp: to_dt_def int_trunc_def int_round_def Let_def split: if_splits)
  have "\<bar>of_int (round_half_even p) - p\<bar> \<le> 1 / 2" by (rule round_half_even_near)
  then have d1: "\<bar>of_int us / 1000000 - x\<bar> \<le> (1 / 2 + 2 powi (- 33)) / 1000000"
    using p(2) unfolding us abs_le_iff by (simp add: field_simps)
  have "- 62135596800000000 \<le> (of_int us :: rat)" "(of_int us :: rat) < 253402300800000000"
    using range by (simp_all add: of_int_le_iff [of "- 62135596800000000", where 'a = rat, symmetric])
  then have "\<bar>of_int us / 1000000\<bar> \<le> (2 ^ 53 - 1) * (2 powi (- 15) :: rat)"
    by (simp add: abs_le_iff power_int_minus)
  then obtain y where y: "rnd (of_int us / 1000000) = Fin y" "\<bar>y - of_int us / 1000000\<bar> \<le> 2 powi (- 15)"
    using rnd_near [of "of_int us / 1000000" "- 15"] by auto
  have "\<bar>y - x\<bar> \<le> lease_slack"
    using d1 y(2) unfolding abs_le_iff lease_slack_def by (simp add: power_int_minus) 
  with y(1) show ?thesis by (simp add: to_epoch_def)
qed

section \<open>The contract\<close>

definition kube_contents :: "('s \<Rightarrow> k8s_lease option) \<Rightarrow> 's \<Rightarrow> lease_record option" where
  "kube_contents held s = Option.bind (held s) (\<lambda>k. case from_k8s k of Inl _ \<Rightarrow> None | Inr x \<Rightarrow> Some x)"

definition kube_sane :: "('s \<Rightarrow> k8s_lease option) \<Rightarrow> 's \<Rightarrow> bool" where
  "kube_sane held s \<longleftrightarrow> (\<forall>k. held s = Some k \<longrightarrow> is_ok (from_k8s k))"

definition kube_recorded :: "fl \<Rightarrow> fl \<Rightarrow> lease_record \<Rightarrow> bool" where
  "kube_recorded d l x \<longleftrightarrow>
     (\<exists>n L r. int_round d = Inr n \<and> 0 < n \<and> n < 2 ^ 31 \<and> lr_duration x = Fin (of_int n)
        \<and> l = Fin L \<and> lr_renew x = Fin r \<and> L - lease_slack \<le> r)"

text \<open>Silent for longer than the whole seconds of the duration, but for the slack.\<close>

definition kube_stale :: "fl \<Rightarrow> fl \<Rightarrow> fl \<Rightarrow> bool" where
  "kube_stale d t l \<longleftrightarrow>
     (\<exists>n T L. int_round d = Inr n \<and> t = Fin T \<and> l = Fin L \<and> of_int n - lease_slack < T - L)"

lemma kube_stored:
  assumes "k8s_spec r version = Inr body" and "write_accepted held ver s body s' k"
  shows "\<exists>x. from_k8s k = Inr x \<and> kube_contents held s' = Some x \<and> lr_holder x = lr_holder r
    \<and> kube_recorded (lr_duration r) (lr_renew r) x"
proof -
  from assms(1) obtain n a t where n: "int_round (lr_duration r) = Inr n" and t: "to_dt (lr_renew r) = Inr t"
    and body: "body = \<lparr>kl_holder = Some (lr_holder r), kl_duration = Some n, kl_acquire = Some a, kl_renew = Some t,
      kl_transitions = Some (lr_transitions r), kl_version = version\<rparr>"
    by (auto simp: k8s_spec_def rbind_Inr_iff)
  from assms(2) body have k: "kl_holder k = Some (lr_holder r)" "kl_duration k = Some n" "kl_renew k = Some t"
    and range: "0 < n" "n < 2 ^ 31" and held: "held s' = Some k"
    by (cases k; auto simp: write_accepted_def)+
  obtain L where L: "lr_renew r = Fin L" using t by (cases "lr_renew r") (simp_all add: to_dt_def)
  with kept_time [of L t] t obtain y where y: "to_epoch (Some t) = Fin y" "\<bar>y - L\<bar> \<le> lease_slack" by auto
  have "fl_of_int n = Inr (Fin (of_int n))" using range by (intro fl_of_int_small) simp
  with k range obtain x where x: "from_k8s k = Inr x" "lr_holder x = lr_holder r"
      "lr_duration x = Fin (of_int n)" "lr_renew x = Fin y"
    using y(1) by (simp add: from_k8s_def)
  have "L - lease_slack \<le> y" using y(2) by linarith
  with x n range L have "kube_recorded (lr_duration r) (lr_renew r) x" by (simp add: kube_recorded_def)
  with x held show ?thesis by (simp add: kube_contents_def)
qed

lemma kube_versioned_store:
  assumes "optimistic api held ver tag"
  shows "versioned_store (kube_ops api) (kube_contents held) ver tag (kube_sane held) kube_recorded kube_stale"
proof
  note o = assms [unfolded optimistic_def]
  have tag: "kl_version k = Some (tag (ver s))" if "held s = Some k" for s k using o that by blast
  have create: "ka_create api s body = (s', Inl e) \<Longrightarrow> s' = s"
      "ka_create api s body = (s', Inr k) \<Longrightarrow> held s = None \<and> write_accepted held ver s body s' k" for s s' body e k
    using o by fastforce+
  have replace: "ka_replace api s body = (s', Inl e) \<Longrightarrow> s' = s"
      "ka_replace api s body = (s', Inr k) \<Longrightarrow>
        (\<exists>cur. held s = Some cur \<and> kl_version cur = kl_version body) \<and> write_accepted held ver s body s' k" for s s' body e k
    using o by fastforce+
  have version: "lr_version x = Some (case kl_version k of None \<Rightarrow> ''None'' | Some v \<Rightarrow> v)" if "from_k8s k = Inr x" for k x
    using that by (auto simp: from_k8s_def rbind_Inr_iff)
  show "v = v'" if "tag v = tag v'" for v v' using o that by (simp add: inj_eq)
  show "lr_version x = Some (tag (ver s))" if "kube_sane held s" "kube_contents held s = Some x" for s x
    using that tag version by (auto simp: kube_contents_def split: bind_splits sum.splits)
  show "s' = s \<and> (\<forall>c. q = Inr c \<longrightarrow> c = kube_contents held s)"
    if "kube_sane held s" "lb_get (kube_ops api) s = (s', q)" for s s' q
  proof -
    have "ka_read api s = (case held s of None \<Rightarrow> Inl 404 | Some k \<Rightarrow> Inr k)
        \<or> (\<exists>status. status \<noteq> 404 \<and> ka_read api s = Inl status)" using o by blast
    with that show ?thesis
      by (auto simp: kube_ops_def kube_get_def k8s_get_def kube_contents_def rmap_Inr_iff split: option.splits)
  qed
  show "s' = s" if "kube_sane held s" "lb_create (kube_ops api) s r = (s', Inl err)" for s s' r err
    using that create kube_stored [of r None] 
    by (fastforce simp: kube_ops_def kube_create_def k8s_write_def Let_def split: sum.splits prod.splits)
  show "kube_contents held s = None \<and> kube_sane held s' \<and> ver s < ver s'
      \<and> (\<exists>x. kube_contents held s' = Some x \<and> lr_holder x = lr_holder r \<and> kube_recorded (lr_duration r) (lr_renew r) x)"
    if "kube_sane held s" "isfinite (lr_renew r)" "lb_create (kube_ops api) s r = (s', Inr a)" for s s' r a
  proof -
    from that(3) obtain body k where b: "k8s_spec r None = Inr body" "ka_create api s body = (s', Inr k)" "from_k8s k = Inr a"
      by (auto simp: kube_ops_def kube_create_def k8s_write_def Let_def split: sum.splits prod.splits)
    from create(2) [OF b(2)] have w: "held s = None" "write_accepted held ver s body s' k" by blast+
    from kube_stored [OF b(1) w(2)] w show ?thesis
      by (auto simp: kube_contents_def kube_sane_def write_accepted_def)
  qed
  show "s' = s" if "kube_sane held s" "lb_update (kube_ops api) s r = (s', Inl err)" for s s' r err
    using that replace kube_stored [of r "lr_version r"]
    by (fastforce simp: kube_ops_def kube_update_def k8s_write_def Let_def split: sum.splits prod.splits)
  show "(\<exists>cur. kube_contents held s = Some cur \<and> lr_version cur = lr_version r) \<and> kube_sane held s' \<and> ver s < ver s'
      \<and> (\<exists>x. kube_contents held s' = Some x \<and> lr_holder x = lr_holder r \<and> kube_recorded (lr_duration r) (lr_renew r) x)"
    if sane: "kube_sane held s" and "isfinite (lr_renew r)" and up: "lb_update (kube_ops api) s r = (s', Inr a)" for s s' r a
  proof -
    from up obtain body k where b: "k8s_spec r (lr_version r) = Inr body" "ka_replace api s body = (s', Inr k)"
        "from_k8s k = Inr a"
      by (auto simp: kube_ops_def kube_update_def k8s_write_def Let_def split: sum.splits prod.splits)
    from replace(2) [OF b(2)] obtain cur where w: "held s = Some cur" "kl_version cur = kl_version body"
        "write_accepted held ver s body s' k" by blast
    from sane w(1) obtain x0 where x0: "from_k8s cur = Inr x0" by (auto simp: kube_sane_def is_ok_iff)
    have "kl_version body = lr_version r" using b(1) by (auto simp: k8s_spec_def rbind_Inr_iff)
    moreover have "lr_version x0 = kl_version cur" using version [OF x0] tag [OF w(1)] by simp
    ultimately have "lr_version x0 = lr_version r" using w(2) by simp
    with x0 w(1) kube_stored [OF b(1) w(3)] w(3) show ?thesis
      by (auto simp: kube_contents_def kube_sane_def write_accepted_def)
  qed
  show "kube_recorded d l' x" if "kube_recorded d l x" "isfinite l'" "l' \<le> l" for d l l' x
    using that by (auto simp: kube_recorded_def isfinite_iff)
  show "kube_stale d t' l" if "kube_stale d t l" "isfinite t'" "t \<le> t'" for d t t' l
    using that by (auto simp: kube_stale_def isfinite_iff)
  show "kube_stale d t l" if "kube_recorded d l x" "is_expired x now" "isfinite now" "now \<le> t" "isfinite t"
    for d l x now t
  proof -
    from that obtain n L r m T where v: "int_round d = Inr n" "0 < n" "n < 2 ^ 31" "lr_duration x = Fin (of_int n)"
        "l = Fin L" "lr_renew x = Fin r" "L - lease_slack \<le> r" "now = Fin m" "t = Fin T"
      by (auto simp: kube_recorded_def isfinite_iff)
    have "is_double (Fin (of_int n))" using v(2,3) by (intro is_double_of_int) simp
    moreover have "Fin (of_int n) < rnd (m - r)" using that(2) v by (simp add: is_expired_def)
    ultimately have "of_int n < m - r" by (rule rnd_gt_imp)
    with v that(4) show ?thesis by (auto simp: kube_stale_def)
  qed
qed

section \<open>Properties\<close>

text \<open>A leader whose last renewal lies within the whole seconds of its lease duration, less the slack.\<close>

definition within_lease :: "'s lease_world \<Rightarrow> string \<Rightarrow> bool" where
  "within_lease w i \<longleftrightarrow> el_is_leader (lw_pod w i)
     \<and> (\<forall>n T L. int_round (el_duration (lw_pod w i)) = Inr n \<and> lw_time w = Fin T
          \<and> el_last_renew (lw_pod w i) = Fin L \<longrightarrow> T - L \<le> of_int n - lease_slack)"

text \<open>
  C2. At most one current leader over Kubernetes: against any API server with the documented optimistic
  concurrency, from any Lease that it may hold, in every state that any number of pods can reach, with
  any interleaving of their reads and writes, lost answers, restarts and changed settings, two pods that
  both lead and both renewed within the whole seconds of their lease duration, less 50 microseconds for the
  timestamps of the Lease, are the same pod.
\<close>

theorem one_leader_over_kubernetes:
  assumes "optimistic api held ver tag" and "kube_sane held s" and "lease_reach (kube_ops api) s w"
    and "within_lease w i" and "within_lease w j"
  shows "i = j"
proof -
  note vs = kube_versioned_store [OF assms(1)]
  have fresh: "\<not> kube_stale (el_duration (lw_pod w k)) (lw_time w) (el_last_renew (lw_pod w k))"
    if "within_lease w k" for k
    using that by (fastforce simp: within_lease_def kube_stale_def)
  show ?thesis
    using assms(4,5)
    by (intro versioned_store.one_leader [OF vs assms(3,2)] fresh) (simp_all add: within_lease_def)
qed

text \<open>
  A duration that rounds to no whole second cannot be leased: the server refuses the body, so a pod
  with such a setting stays on standby.
\<close>

lemma accepted_duration:
  assumes "optimistic api held ver tag"
    and "kube_create api s r = (b, Inr a) \<or> kube_update api s r = (b, Inr a)"
  shows "\<exists>n. int_round (lr_duration r) = Inr n \<and> 0 < n"
proof -
  note o = assms(1) [unfolded optimistic_def]
  from assms(2) obtain v body s' k where spec: "k8s_spec r v = Inr body"
    and call: "ka_create api s body = (s', Inr k) \<or> ka_replace api s body = (s', Inr k)"
    by (auto simp: kube_create_def kube_update_def k8s_write_def Let_def split: sum.splits prod.splits)
  have "write_accepted held ver s body s' k" using o call by fastforce
  with spec show ?thesis by (auto simp: write_accepted_def k8s_spec_def rbind_Inr_iff)
qed

lemma short_duration_never_leads:
  assumes "optimistic api held ver tag" and "int_round (el_duration e) = Inr 0"
    and "try_acquire_or_renew (kube_ops api) now (e, s) = ((e', s'), att)"
  shows "\<not> leads att"
proof
  assume l: "leads att"
  from assms(3) l obtain obs where act: "lease_act (kube_ops api) now (lease_decide e now obs) (e, s) = ((e', s'), att)"
    by (auto simp: try_acquire_or_renew_def leads_def kube_ops_def kube_get_def split: sum.splits)
  have "\<exists>r b a. (kube_create api s r = (b, Inr a) \<or> kube_update api s r = (b, Inr a))
      \<and> lr_duration r = el_duration e"
  proof (cases "lease_decide e now obs")
    case StandBy
    with act l show ?thesis by (auto simp: lease_act_def mark_not_leader_def leads_def)
  next
    case (CreateLease r)
    then have "lr_duration r = el_duration e" by (auto simp: lease_decide_def Let_def split: option.splits if_splits)
    with act l CreateLease show ?thesis
      by (auto simp: lease_act_def leads_def kube_ops_def split: prod.splits sum.splits)
  next
    case (ReplaceLease r acq)
    then have "lr_duration r = el_duration e" by (auto simp: lease_decide_def Let_def split: option.splits if_splits)
    with act l ReplaceLease show ?thesis
      by (auto simp: lease_act_def leads_def kube_ops_def split: prod.splits sum.splits)
  qed
  then obtain r b a where "kube_create api s r = (b, Inr a) \<or> kube_update api s r = (b, Inr a)"
    and d: "lr_duration r = el_duration e" by blast
  from accepted_duration [OF assms(1) this(1)] d assms(2) show False by auto
qed

section \<open>Witnesses\<close>

text \<open>A server that counts its writes.\<close>

type_synonym sample_server = "k8s_lease option \<times> nat"

definition sample_tag :: "nat \<Rightarrow> string" where
  "sample_tag n = replicate n (CHR ''v'')"

definition sample_held :: "sample_server \<Rightarrow> k8s_lease option" where
  "sample_held s = map_option (\<lambda>k. k\<lparr>kl_version := Some (sample_tag (snd s))\<rparr>) (fst s)"

definition sample_write :: "sample_server \<Rightarrow> k8s_lease \<Rightarrow> sample_server \<times> (int + k8s_lease)" where
  "sample_write s body =
     (case kl_duration body of
        None \<Rightarrow> (s, Inl 422)
      | Some n \<Rightarrow>
          if 0 < n \<and> n < 2147483648
          then ((Some body, Suc (snd s)), Inr (body\<lparr>kl_version := Some (sample_tag (Suc (snd s)))\<rparr>))
          else (s, Inl 422))"

definition sample_api :: "sample_server kube_api" where
  "sample_api =
     \<lparr>ka_read = (\<lambda>s. case sample_held s of None \<Rightarrow> Inl 404 | Some k \<Rightarrow> Inr k),
      ka_create = (\<lambda>s body. if fst s \<noteq> None then (s, Inl 409) else sample_write s body),
      ka_replace = (\<lambda>s body.
        case sample_held s of
          None \<Rightarrow> (s, Inl 404)
        | Some k \<Rightarrow> if kl_version k \<noteq> kl_version body then (s, Inl 409) else sample_write s body)\<rparr>"

lemma sample_optimistic: "optimistic sample_api sample_held snd sample_tag"
proof -
  have tag: "inj sample_tag" by (rule injI) (metis length_replicate sample_tag_def)
  have stored: "case a of Inl _ \<Rightarrow> s' = s | Inr k \<Rightarrow> write_accepted sample_held snd s body s' k"
    if "sample_write s body = (s', a)" for s body s' a
    using that
    by (auto simp: sample_write_def write_accepted_def sample_held_def split: option.splits if_splits)
  have create: "case a of Inl _ \<Rightarrow> s' = s | Inr k \<Rightarrow> sample_held s = None \<and> write_accepted sample_held snd s body s' k"
    if "ka_create sample_api s body = (s', a)" for s body s' a
  proof (cases "fst s = None")
    case True
    with that stored [of s body s' a] show ?thesis by (auto simp: sample_api_def sample_held_def split: sum.splits)
  next
    case False
    with that show ?thesis by (auto simp: sample_api_def)
  qed
  have replace: "case a of Inl _ \<Rightarrow> s' = s
      | Inr k \<Rightarrow> (\<exists>cur. sample_held s = Some cur \<and> kl_version cur = kl_version body)
          \<and> write_accepted sample_held snd s body s' k"
    if "ka_replace sample_api s body = (s', a)" for s body s' a
  proof (cases "\<exists>cur. sample_held s = Some cur \<and> kl_version cur = kl_version body")
    case True
    with that stored [of s body s' a] show ?thesis by (auto simp: sample_api_def split: sum.splits)
  next
    case False
    with that show ?thesis by (auto simp: sample_api_def split: option.splits)
  qed
  show ?thesis
    unfolding optimistic_def using tag create replace
    by (auto simp: sample_api_def sample_held_def)
qed

lemma one_leader_over_kubernetes_witness:
  "\<exists>w. lease_moves (kube_ops sample_api) sample_moves (lease_world_init (None, 0) (Fin 0)) = Some w
     \<and> within_lease w ''b'' \<and> el_is_leader (lw_pod w ''a'') \<and> \<not> within_lease w ''a''"
proof -
  have "map_option (\<lambda>w. (el_is_leader (lw_pod w ''a''), el_is_leader (lw_pod w ''b''), el_duration (lw_pod w ''b''),
      lw_time w, el_last_renew (lw_pod w ''b'')))
    (lease_moves (kube_ops sample_api) sample_moves (lease_world_init (None, 0) (Fin 0)))
      = Some (True, True, Fin 15, Fin 100, Fin 100)"
    by (simp add: sample_moves_def lease_world_init_def set_phase_def set_pod_def write_outcome_def lease_act_def
        lease_decide_def kube_ops_def kube_get_def kube_create_def kube_update_def k8s_get_def k8s_spec_def
        k8s_write_def from_k8s_def sample_api_def sample_held_def sample_write_def sample_tag_def to_dt_def
        to_epoch_def int_round_def int_trunc_def rat_trunc_def mk_elector_def mark_leader_def is_expired_def
        default_lease_duration_def fl_of_int_small Let_def)
  then obtain w where w: "lease_moves (kube_ops sample_api) sample_moves (lease_world_init (None, 0) (Fin 0)) = Some w"
    and l: "el_is_leader (lw_pod w ''a'')" "el_is_leader (lw_pod w ''b'')" "el_duration (lw_pod w ''b'') = Fin 15"
      "lw_time w = Fin 100" "el_last_renew (lw_pod w ''b'') = Fin 100" by auto
  have b: "within_lease w ''b''" using l by (simp add: within_lease_def int_round_def lease_slack_def)
  have "lease_reach (kube_ops sample_api) (None, 0) w" using lease_reach_moves [OF _ w] by (simp add: reach_init)
  moreover have "kube_sane sample_held (None, 0)" by (simp add: kube_sane_def sample_held_def)
  ultimately have "\<not> within_lease w ''a''"
    using one_leader_over_kubernetes [OF sample_optimistic _ _ _ b] by fastforce
  with w l b show ?thesis by blast
qed

end
