(* ===== verification/HedgeFlow.thy ===== *)
theory HedgeFlow imports AppSnapshot begin

text \<open>
  Evaluating and executing a hedge, \<open>app/hedge_flow.py\<close>: one tick of the trading machine, the intent, the
  order gate, and the simulated order that runs the hedge machine to \<open>FILLED\<close>. Log lines have no effect
  on the state and are left out.
\<close>

section \<open>The flow\<close>

text \<open>
  \<open>poll_run_status\<close> of \<open>app/control_heartbeat.py\<close>: suspended without a sink, or when the sink cannot
  tell.
\<close>

definition poll_run_status ::
  "('pos, 'leg) ext \<Rightarrow> 'pos app \<Rightarrow> (bool \<times> fl option) res \<Rightarrow> (bool \<times> fl option) res" where
  "poll_run_status x a polled =
     (if \<not> ap_has_sink a then Inr (True, None)
      else if x_sink_can x ''poll_run_status'' then polled else Inr (True, None))"

text \<open>The readings one evaluation takes from outside, in the order of the code.\<close>

record flow_env =
  fe_polled :: "(bool \<times> fl option) res"
  fe_refresh :: refresh_clock
  fe_gate_now :: fl
  fe_gate_clock :: fl
  fe_wall :: wall_clock
  fe_dict_ts :: fl
  fe_hedge_now :: fl
  fe_sent_today :: int
  fe_sent_now :: fl
  fe_dict_ts2 :: fl

definition write_snapshot_dict ::
  "('pos, 'leg) ext \<Rightarrow> fl \<Rightarrow> state_snapshot \<Rightarrow> fl \<Rightarrow> composite_state \<Rightarrow> fl option \<Rightarrow> ('pos app, unit) act" where
  "write_snapshot_dict x now snap spot cs lag =
     act_bind (act_get ap_has_sink) (\<lambda>has_sink.
       act_when has_sink
         (act_bind (\<lambda>a. (a, build_snapshot_dict now a snap spot cs lag)) (\<lambda>d. sink_write x (WriteSnapshot d))))"

definition hedge_target_event :: "fl \<Rightarrow> hedge_intent \<Rightarrow> target_position_event" where
  "hedge_target_event now intent =
     \<lparr>tp_target_shares = hi_target_shares intent, tp_reason = ''delta_hedge'', tp_ts = now,
      tp_trace_id = None, tp_side = hi_side intent, tp_quantity = hi_quantity intent\<rparr>"

text \<open>The simulated order: placed, acknowledged, recorded, filled.\<close>

definition simulate_order :: "flow_env \<Rightarrow> fl \<Rightarrow> 'pos app \<Rightarrow> 'pos app" where
  "simulate_order e spot a =
     upd_hedge on_full_fill
       (upd_metrics (\<lambda>m. snd (inc_hedge_count m))
         (upd_store (\<lambda>s. snd (inc_daily_hedge_count s))
           (upd_store (\<lambda>s. set_last_hedge_price s (Some spot))
             (upd_store (\<lambda>s. set_last_hedge_time s (Some (fe_hedge_now e)))
               (upd_guard (record_hedge_sent (fe_sent_today e) (fe_sent_now e))
                 (upd_hedge on_ack_ok (upd_hedge on_order_placed a)))))))"

definition hedge ::
  "('pos, 'leg) ext \<Rightarrow> flow_env \<Rightarrow> hedge_intent \<Rightarrow> composite_state \<Rightarrow> fl \<Rightarrow> state_snapshot
   \<Rightarrow> ('pos app, unit) act" where
  "hedge x e intent cs spot snap =
     act_seq (act_modify (upd_hedge (\<lambda>h. on_target h (hedge_target_event (fe_hedge_now e) intent) (cs_stock_pos cs))))
     (act_seq (act_modify (\<lambda>a. upd_hedge
        (\<lambda>h. on_plan_decide h (hc_min_hedge_shares (ap_hedge_cfg a) \<le> hi_quantity intent)) a))
     (act_bind (act_get (\<lambda>a. h_state (ap_hedge a))) (\<lambda>st.
        if st \<noteq> H_SEND then app_trading x HEDGE_DONE snap
        else
          act_seq (act_modify (simulate_order e spot))
          (act_seq (write_snapshot_dict x (fe_dict_ts2 e) snap spot cs (ss_data_lag_ms snap))
            (app_trading x HEDGE_DONE snap)))))"

definition propose :: "composite_state \<Rightarrow> 'pos app \<Rightarrow> hedge_intent option res" where
  "propose cs a =
     (let hc = ap_hedge_cfg a in
      gamma_scalper_intent (cs_net_delta cs) (st_stock_position (ap_store a))
        (hc_threshold_hedge_shares hc) (hc_max_hedge_shares_per_order hc)
        (Some \<lparr>sc_threshold = Some (hc_threshold_hedge_shares hc),
               sc_max_qty = Some (hc_max_hedge_shares_per_order hc)\<rparr>))"

definition ask_gates :: "flow_env \<Rightarrow> hedge_intent \<Rightarrow> composite_state \<Rightarrow> fl \<Rightarrow> ('pos app, hedge_intent option) act" where
  "ask_gates e intent cs spot =
     act_bind (\<lambda>a. (a, get_spread_pct (ap_store a))) (\<lambda>spread.
       (\<lambda>a. let (g, r) = apply_hedge_gates (fe_wall e) (fe_gate_clock e) intent cs (ap_guard a)
                            (Some (fe_gate_now e)) (Some spot) (st_last_hedge_price (ap_store a)) spread
                            (hc_min_hedge_shares (ap_hedge_cfg a))
             in (a\<lparr>ap_guard := g\<rparr>, r)))"

definition note_metrics :: "composite_state \<Rightarrow> fl option \<Rightarrow> metrics \<Rightarrow> metrics" where
  "note_metrics cs lag m =
     set_spread_bucket (set_delta_abs (set_data_lag_ms m lag) (Some (fl_abs (cs_net_delta cs))))
       (Some (liquidity_value (cs_L cs)))"

text \<open>From the intent on, once the trading machine asks for a hedge.\<close>

definition try_hedge ::
  "('pos, 'leg) ext \<Rightarrow> flow_env \<Rightarrow> state_snapshot \<Rightarrow> fl \<Rightarrow> composite_state \<Rightarrow> fl option \<Rightarrow> ('pos app, unit) act" where
  "try_hedge x e snap spot cs lag =
     act_bind (\<lambda>a. (a, propose cs a)) (\<lambda>proposed.
       case proposed of
         None \<Rightarrow> act_return ()
       | Some intent \<Rightarrow>
           act_bind (ask_gates e intent cs spot) (\<lambda>approved.
             case approved of
               None \<Rightarrow> act_return ()
             | Some ok \<Rightarrow>
                 act_bind (act_get (\<lambda>a. can_place_order (ap_hedge a))) (\<lambda>ready.
                   if \<not> ready then act_return ()
                   else act_seq (write_snapshot_dict x (fe_dict_ts e) snap spot cs lag)
                       (act_seq (app_trading x TARGET_EMITTED snap) (hedge x e ok cs spot snap)))))"

definition eval_hedge :: "('pos, 'leg) ext \<Rightarrow> flow_env \<Rightarrow> ('pos app, unit) act" where
  "eval_hedge x e =
     act_bind (\<lambda>a. (a, poll_run_status x a (fe_polled e))) (\<lambda>(suspended, _).
       if suspended then act_return ()
       else act_bind (refresh_and_build_snapshot x (fe_refresh e)) (\<lambda>result.
         case result of
           None \<Rightarrow> act_return ()
         | Some (snap, spot, cs, lag) \<Rightarrow>
             act_seq (act_modify (upd_metrics (note_metrics cs lag)))
             (act_seq (app_trading x TICK snap)
             (act_bind (act_get (\<lambda>a. tf_state (ap_trading a))) (\<lambda>st.
                if st \<noteq> T_NEED_HEDGE then act_return () else try_hedge x e snap spot cs lag)))))"

section \<open>One order\<close>

definition plan_round :: "hedge_fsm \<Rightarrow> target_position_event \<Rightarrow> int \<Rightarrow> bool \<Rightarrow> hedge_fsm" where
  "plan_round h t pos send = snd (on_plan_decide (snd (on_target h t pos)) send)"

definition fill_round :: "hedge_fsm \<Rightarrow> hedge_fsm" where
  "fill_round h = snd (on_full_fill (snd (on_ack_ok (snd (on_order_placed h)))))"

lemma plan_round_state:
  "can_place_order h \<Longrightarrow> h_state (plan_round h t pos send) = (if send then H_SEND else H_EXEC_IDLE)"
  by (cases "h_state h") (simp_all add: plan_round_def hedge_op_defs can_place_order_def)

lemma fill_round_state:
  "h_state h = H_SEND \<Longrightarrow> h_state (fill_round h) = H_FILLED \<and> h_current_target (fill_round h) = None"
  by (simp add: fill_round_def hedge_op_defs)

lemma simulate_order_fields:
  "ap_hedge (simulate_order e spot a) = fill_round (ap_hedge a)"
  "ap_guard (simulate_order e spot a) = record_hedge_sent (fe_sent_today e) (fe_sent_now e) (ap_guard a)"
  "ap_trading (simulate_order e spot a) = ap_trading a"
  "ap_daemon (simulate_order e spot a) = ap_daemon a"
  "ap_hedge_cfg (simulate_order e spot a) = ap_hedge_cfg a"
  "ap_has_sink (simulate_order e spot a) = ap_has_sink a"
  "mx_hedge_count (ap_metrics (simulate_order e spot a)) = mx_hedge_count (ap_metrics a) + 1"
  "st_daily_hedge_count (ap_store (simulate_order e spot a)) = st_daily_hedge_count (ap_store a) + 1"
  "st_last_hedge_price (ap_store (simulate_order e spot a)) = Some spot"
  "st_last_hedge_time (ap_store (simulate_order e spot a)) = Some (fe_hedge_now e)"
  by (simp_all add: simulate_order_def fill_round_def store_defs metrics_defs Let_def)

section \<open>What one evaluation may change\<close>

text \<open>
  From one state of the object to a later one: the lifecycle and the configuration are the same, a ready
  hedge machine is ready again, and the three counters of sent orders have grown by the same amount, the
  guard's as long as it carries no date.
\<close>

definition flow_step :: "'pos app \<Rightarrow> 'pos app \<Rightarrow> bool" where
  "flow_step a b \<longleftrightarrow>
     ap_daemon b = ap_daemon a \<and> ap_hedge_cfg b = ap_hedge_cfg a
     \<and> (can_place_order (ap_hedge a) \<longrightarrow> can_place_order (ap_hedge b))
     \<and> mx_hedge_count (ap_metrics a) \<le> mx_hedge_count (ap_metrics b)
     \<and> st_daily_hedge_count (ap_store b) - st_daily_hedge_count (ap_store a)
        = mx_hedge_count (ap_metrics b) - mx_hedge_count (ap_metrics a)
     \<and> (eg_daily_hedge_date (ap_guard a) = None \<longrightarrow>
          eg_daily_hedge_date (ap_guard b) = None
          \<and> eg_daily_hedge_count (ap_guard b) - eg_daily_hedge_count (ap_guard a)
             = mx_hedge_count (ap_metrics b) - mx_hedge_count (ap_metrics a))"

interpretation flow: app_keeps flow_step
  by unfold_locales (auto simp: flow_step_def same_machines_def)

lemma app_trading_keeps: "act_keeps flow_step (app_trading x ev snap)"
  by (auto simp: act_keeps_def app_trading_def flow_step_def split: sum.split)

context app_keeps
begin

lemma keeps_dict: "act_keeps R (write_snapshot_dict x now snap spot cs lag)"
  unfolding write_snapshot_dict_def by (intro rules keeps_sink_write)

end

lemma apply_gates_guard:
  "fst (apply_hedge_gates wc clock i cs g now_ts spot lhp sp n)
   \<in> {g, reset_daily_if_new_day (wc_today wc) g}"
  by (auto simp: apply_hedge_gates_def Let_def split: prod.split dest: arg_cong [where f = fst])

lemma apply_gates_keeps:
  fixes l :: "'pos app \<Rightarrow> fl option" and k :: "'pos app \<Rightarrow> int"
  shows "act_keeps flow_step
      (\<lambda>a. let (g, r) = apply_hedge_gates wc c intent cs (ap_guard a) n s (l a) sp (k a)
           in (a\<lparr>ap_guard := g\<rparr>, r))"
  unfolding act_keeps_def
proof
  fix a :: "'pos app"
  obtain g r where g: "apply_hedge_gates wc c intent cs (ap_guard a) n s (l a) sp (k a) = (g, r)"
    by fastforce
  then have "g \<in> {ap_guard a, reset_daily_if_new_day (wc_today wc) (ap_guard a)}"
    using apply_gates_guard [of wc c intent cs "ap_guard a" n s "l a" sp "k a"] by simp
  then show "flow_step a (fst (let (g, r) = apply_hedge_gates wc c intent cs (ap_guard a) n s (l a) sp (k a)
      in (a\<lparr>ap_guard := g\<rparr>, r)))"
    by (auto simp: g flow_step_def)
qed

lemma ask_gates_keeps: "act_keeps flow_step (ask_gates e intent cs spot)"
  unfolding ask_gates_def by (intro flow.rules apply_gates_keeps)

text \<open>The order itself is not a sequence of steps that each keep the relation; it is taken as a whole.\<close>

definition after_order ::
  "('pos, 'leg) ext \<Rightarrow> flow_env \<Rightarrow> composite_state \<Rightarrow> fl \<Rightarrow> state_snapshot \<Rightarrow> ('pos app, unit) act" where
  "after_order x e cs spot snap =
     act_seq (write_snapshot_dict x (fe_dict_ts2 e) snap spot cs (ss_data_lag_ms snap))
       (app_trading x HEDGE_DONE snap)"

lemma hedge_cases:
  "hedge x e intent cs spot snap a =
     (let h = plan_round (ap_hedge a) (hedge_target_event (fe_hedge_now e) intent) (cs_stock_pos cs)
                (hc_min_hedge_shares (ap_hedge_cfg a) \<le> hi_quantity intent);
          a1 = a\<lparr>ap_hedge := h\<rparr>
      in if h_state h \<noteq> H_SEND then app_trading x HEDGE_DONE snap a1
         else after_order x e cs spot snap (simulate_order e spot a1))"
  by (simp add: hedge_def plan_round_def after_order_def Let_def)

lemma after_order_keeps: "act_keeps flow_step (after_order x e cs spot snap)"
  unfolding after_order_def by (intro flow.rules flow.keeps_dict app_trading_keeps)

lemma hedge_keeps_ready:
  assumes "can_place_order (ap_hedge a)"
  shows "flow_step a (fst (hedge x e intent cs spot snap a))"
proof -
  let ?send = "hc_min_hedge_shares (ap_hedge_cfg a) \<le> hi_quantity intent"
  let ?h = "plan_round (ap_hedge a) (hedge_target_event (fe_hedge_now e) intent) (cs_stock_pos cs) ?send"
  let ?a1 = "a\<lparr>ap_hedge := ?h\<rparr>"
  have h: "h_state ?h = (if ?send then H_SEND else H_EXEC_IDLE)" using assms by (rule plan_round_state)
  show ?thesis
  proof (cases ?send)
    case False
    with h have "hedge x e intent cs spot snap a = app_trading x HEDGE_DONE snap ?a1"
      by (simp add: hedge_cases Let_def)
    moreover have "flow_step a ?a1" using h False by (simp add: flow_step_def can_place_order_def)
    ultimately show ?thesis
      by (simp add: flow.keeps_then [OF _ app_trading_keeps])
  next
    case True
    with h have run: "hedge x e intent cs spot snap a = after_order x e cs spot snap (simulate_order e spot ?a1)"
      by (simp add: hedge_cases Let_def)
    have "h_state (fill_round ?h) = H_FILLED" using h True by (simp add: fill_round_state)
    then have "flow_step a (simulate_order e spot ?a1)"
      by (simp add: flow_step_def simulate_order_fields can_place_order_def record_hedge_sent_undated)
    then show ?thesis
      unfolding run by (rule flow.keeps_then [OF _ after_order_keeps])
  qed
qed

lemma try_hedge_keeps: "act_keeps flow_step (try_hedge x e snap spot cs lag)"
proof -
  have part: "flow_step a (fst (act_seq (write_snapshot_dict x (fe_dict_ts e) snap spot cs lag)
      (act_seq (app_trading x TARGET_EMITTED snap) (hedge x e ok cs spot snap)) a))"
    if ready: "can_place_order (ap_hedge a)" for a ok
  proof -
    let ?w = "write_snapshot_dict x (fe_dict_ts e) snap spot cs lag"
    let ?t = "app_trading x TARGET_EMITTED snap"
    have step: "flow_step a (fst (act_seq ?w ?t a))"
      using act_keepsD [OF flow.keeps_seq [OF flow.keeps_dict app_trading_keeps]] .
    obtain a' r where t: "act_seq ?w ?t a = (a', r)" by fastforce
    have assoc: "act_seq ?w (act_seq ?t k) a = (case r of Inl err \<Rightarrow> (a', Inl err) | Inr _ \<Rightarrow> k a')" for k
      using t by (auto simp: act_seq_def act_bind_def split: prod.splits sum.splits)
    have "can_place_order (ap_hedge a')" using step t ready by (simp add: flow_step_def)
    then have "flow_step a' (fst (hedge x e ok cs spot snap a'))" by (rule hedge_keeps_ready)
    with step t show ?thesis
      by (auto simp: assoc split: sum.split intro: flow.R_trans)
  qed
  have "act_keeps flow_step
      (act_bind (act_get (\<lambda>a. can_place_order (ap_hedge a))) (\<lambda>ready.
         if \<not> ready then act_return ()
         else act_seq (write_snapshot_dict x (fe_dict_ts e) snap spot cs lag)
             (act_seq (app_trading x TARGET_EMITTED snap) (hedge x e ok cs spot snap))))" for ok
    using part by (simp add: act_keeps_def)
  then show ?thesis
    unfolding try_hedge_def
    by (intro flow.rules) (auto split: option.split intro!: flow.rules ask_gates_keeps)
qed

lemma note_metrics_count [simp]: "mx_hedge_count (note_metrics cs lag m) = mx_hedge_count m"
  by (simp add: note_metrics_def metrics_defs)

lemma eval_hedge_keeps:
  assumes "act_keeps same_machines (x_refresh_positions x)"
  shows "act_keeps flow_step (eval_hedge x e)"
proof -
  note refresh = flow.keeps_refresh [OF flow.keeps_same [OF assms]]
  have "act_keeps flow_step (act_modify (upd_metrics (note_metrics cs lag)))" for cs lag
    by (intro act_keeps_modify) (simp add: flow_step_def)
  then show ?thesis
    unfolding eval_hedge_def
    by (intro flow.rules)
      (auto split: option.split prod.split intro!: flow.rules refresh app_trading_keeps try_hedge_keeps)
qed

section \<open>The trading machine during an evaluation\<close>

lemma app_trading_cases:
  "app_trading x ev snap a = (b, r) \<Longrightarrow>
     (\<exists>err. r = Inl err \<and> b = a)
     \<or> (\<exists>m' moved. apply_transition (x_guards x) (Some (ap_guard a)) (ap_trading a) ev snap = Inr (m', moved)
          \<and> r = Inr () \<and> b = a\<lparr>ap_trading := m'\<rparr>)"
  by (auto simp: app_trading_def split: sum.splits)

text \<open>The states that no tick leaves, except for \<open>SAFE\<close>.\<close>

definition stuck :: "trading_state \<Rightarrow> bool" where
  "stuck s \<longleftrightarrow> s = T_BOOT \<or> s = T_HEDGING \<or> s = T_SAFE"

lemma stuck_states [simp]:
  "stuck T_BOOT" "stuck T_HEDGING" "stuck T_SAFE" "\<not> stuck T_NEED_HEDGE" "\<not> stuck T_MONITOR"
  by (simp_all add: stuck_def)

lemma hedging_tick:
  assumes "apply_transition gcfg eg m TICK snap = Inr (m', moved)" and "stuck (tf_state m)"
  shows "stuck (tf_state m')"
  using assms
  by (elim apply_transition_Inr)
    (auto simp: stuck_def transition_with_def Let_def fire_to_def tick_handler_def split: if_splits)

lemma hedge_done_result:
  assumes "apply_transition gcfg eg m HEDGE_DONE snap = Inr (m', moved)" and "tf_state m = T_HEDGING"
  shows "tf_state m' \<in> {T_MONITOR, T_SAFE}"
  using assms
  by (elim apply_transition_Inr)
    (auto simp: transition_with_def Let_def fire_to_def tick_handler_def split: if_splits)

lemma write_snapshot_dict_frame:
  "write_snapshot_dict x now snap spot cs lag a = (b, r) \<Longrightarrow> \<exists>cs. b = a\<lparr>ap_sink_calls := cs\<rparr>"
  by (auto simp: write_snapshot_dict_def act_bind_def act_when_def sink_write_def split: sum.splits if_splits
      intro: exI [of _ "ap_sink_calls a"])

lemma after_order_frame:
  assumes "after_order x e cs spot snap a = (b, r)"
  obtains calls m where "b = a\<lparr>ap_sink_calls := calls, ap_trading := m\<rparr>"
    and "r = Inr () \<Longrightarrow> tf_state (ap_trading a) = T_HEDGING \<Longrightarrow> tf_state m \<in> {T_MONITOR, T_SAFE}"
    and "r \<noteq> Inr () \<Longrightarrow> m = ap_trading a"
proof -
  obtain a' r' where w: "write_snapshot_dict x (fe_dict_ts2 e) snap spot cs (ss_data_lag_ms snap) a = (a', r')"
    by fastforce
  then obtain calls where a': "a' = a\<lparr>ap_sink_calls := calls\<rparr>" using write_snapshot_dict_frame by blast
  show ?thesis
  proof (cases r')
    case (Inl err)
    with assms w have "b = a'" "r = Inl err" by (simp_all add: after_order_def act_seq_def act_bind_def)
    with that [where calls = calls and m = "ap_trading a"] a' show ?thesis by simp
  next
    case (Inr u)
    with assms w have t: "app_trading x HEDGE_DONE snap a' = (b, r)"
      by (simp add: after_order_def act_seq_def act_bind_def)
    from app_trading_cases [OF t] show ?thesis
    proof (elim disjE exE conjE)
      fix err assume "r = Inl err" "b = a'"
      with that [where calls = calls and m = "ap_trading a"] a' show ?thesis by simp
    next
      fix m' moved assume m': "apply_transition (x_guards x) (Some (ap_guard a')) (ap_trading a') HEDGE_DONE snap
          = Inr (m', moved)" and "r = Inr ()" "b = a'\<lparr>ap_trading := m'\<rparr>"
      with that [where calls = calls and m = m'] a' hedge_done_result [OF m'] show ?thesis by simp
    qed
  qed
qed

lemma hedge_sends:
  assumes "can_place_order (ap_hedge a)" and "hc_min_hedge_shares (ap_hedge_cfg a) \<le> hi_quantity intent"
  obtains a1 where "hedge x e intent cs spot snap a = after_order x e cs spot snap (simulate_order e spot a1)"
    and "a1 = a\<lparr>ap_hedge := ap_hedge a1\<rparr>" and "h_state (ap_hedge a1) = H_SEND"
proof -
  let ?h = "plan_round (ap_hedge a) (hedge_target_event (fe_hedge_now e) intent) (cs_stock_pos cs) True"
  have h: "h_state ?h = H_SEND" using plan_round_state [OF assms(1)] by simp
  with assms(2) have "hedge x e intent cs spot snap a
      = after_order x e cs spot snap (simulate_order e spot (a\<lparr>ap_hedge := ?h\<rparr>))"
    by (simp add: hedge_cases Let_def)
  with that [of "a\<lparr>ap_hedge := ?h\<rparr>"] h show ?thesis by simp
qed

section \<open>Properties\<close>

text \<open>
  The three counts of sent orders agree for the life of the daemon, and the hedge machine is ready
  between evaluations: whatever happens in any sequence of evaluations, exceptions of the sink and of the
  pricing included, the guard, the store and the metrics count the same orders.
\<close>

theorem order_counts_agree:
  assumes "act_keeps same_machines (x_refresh_positions x)" and "can_place_order (ap_hedge a)"
    and "eg_daily_hedge_date (ap_guard a) = None"
    and "eg_daily_hedge_count (ap_guard a) = mx_hedge_count (ap_metrics a)"
    and "st_daily_hedge_count (ap_store a) = mx_hedge_count (ap_metrics a)"
    and "b = run_events (\<lambda>a e. fst (eval_hedge x e a)) a es"
  shows "can_place_order (ap_hedge b) \<and> eg_daily_hedge_date (ap_guard b) = None
    \<and> eg_daily_hedge_count (ap_guard b) = mx_hedge_count (ap_metrics b)
    \<and> st_daily_hedge_count (ap_store b) = mx_hedge_count (ap_metrics b)"
proof -
  have "flow_step a b"
    unfolding assms(6) by (rule flow.keeps_run [OF eval_hedge_keeps [OF assms(1)]])
  with assms(2-5) show ?thesis by (simp add: flow_step_def)
qed

text \<open>
  C20. An order that goes out is complete: when \<open>hedge\<close> returns for a quantity above the minimum, the hedge
  machine went from ready to \<open>FILLED\<close> with no target left, each counter grew by one, the store has the
  price and time of the hedge, the guard starts its cooldown, and the trading machine monitors again or
  is in \<open>SAFE\<close>.
\<close>

theorem completed_hedge:
  assumes "hedge x e intent cs spot snap a = (b, Inr ())" and "can_place_order (ap_hedge a)"
    and "hc_min_hedge_shares (ap_hedge_cfg a) \<le> hi_quantity intent" and "tf_state (ap_trading a) = T_HEDGING"
  shows "h_state (ap_hedge b) = H_FILLED \<and> h_current_target (ap_hedge b) = None
    \<and> mx_hedge_count (ap_metrics b) = mx_hedge_count (ap_metrics a) + 1
    \<and> st_daily_hedge_count (ap_store b) = st_daily_hedge_count (ap_store a) + 1
    \<and> st_last_hedge_price (ap_store b) = Some spot
    \<and> st_last_hedge_time (ap_store b) = Some (fe_hedge_now e)
    \<and> ap_guard b = record_hedge_sent (fe_sent_today e) (fe_sent_now e) (ap_guard a)
    \<and> tf_state (ap_trading b) \<in> {T_MONITOR, T_SAFE}"
proof -
  obtain a1 where run: "hedge x e intent cs spot snap a = after_order x e cs spot snap (simulate_order e spot a1)"
    and a1: "a1 = a\<lparr>ap_hedge := ap_hedge a1\<rparr>" and h: "h_state (ap_hedge a1) = H_SEND"
    using hedge_sends [OF assms(2,3)] by metis
  have same: "ap_trading a1 = ap_trading a" "ap_metrics a1 = ap_metrics a" "ap_store a1 = ap_store a"
    "ap_guard a1 = ap_guard a" by (subst a1, simp)+
  from assms(1) have "after_order x e cs spot snap (simulate_order e spot a1) = (b, Inr ())" by (simp add: run)
  then obtain calls m where b: "b = (simulate_order e spot a1)\<lparr>ap_sink_calls := calls, ap_trading := m\<rparr>"
    and m: "tf_state (ap_trading (simulate_order e spot a1)) = T_HEDGING \<Longrightarrow> tf_state m \<in> {T_MONITOR, T_SAFE}"
    by (rule after_order_frame) blast
  show ?thesis
    using m assms(4) fill_round_state [OF h] by (simp add: b simulate_order_fields same)
qed


text \<open>An evaluation from a stranded machine sends nothing and leaves it stranded.\<close>

definition stranded_step :: "'pos app \<Rightarrow> 'pos app \<Rightarrow> bool" where
  "stranded_step a b \<longleftrightarrow>
     (stuck (tf_state (ap_trading a)) \<longrightarrow>
        stuck (tf_state (ap_trading b))
        \<and> mx_hedge_count (ap_metrics b) = mx_hedge_count (ap_metrics a))"

interpretation stranded: app_keeps stranded_step
  by unfold_locales (auto simp: stranded_step_def same_machines_def)

lemma eval_hedge_stranded:
  assumes "act_keeps same_machines (x_refresh_positions x)"
  shows "act_keeps stranded_step (eval_hedge x e)"
  unfolding act_keeps_def
proof
  fix a
  show "stranded_step a (fst (eval_hedge x e a))"
    unfolding stranded_step_def
  proof
    assume s: "stuck (tf_state (ap_trading a))"
    obtain a' r where r: "refresh_and_build_snapshot x (fe_refresh e) a = (a', r)" by fastforce
    have same: "same_machines a a'"
      using act_keepsD [OF same.keeps_refresh [OF assms], of a "fe_refresh e"] r by simp
    let ?t = "\<lambda>snap cs lag. app_trading x TICK snap (upd_metrics (note_metrics cs lag) a')"
    have tick: "stuck (tf_state (ap_trading b))
        \<and> mx_hedge_count (ap_metrics b) = mx_hedge_count (ap_metrics a)"
      if t: "?t snap cs lag = (b, q)" for snap cs lag b q
      using app_trading_cases [OF t]
    proof (elim disjE exE conjE)
      fix err assume "q = Inl err" "b = upd_metrics (note_metrics cs lag) a'"
      with same s show ?thesis by (simp add: same_machines_def)
    next
      fix m' moved
      assume m': "apply_transition (x_guards x) (Some (ap_guard (upd_metrics (note_metrics cs lag) a')))
          (ap_trading (upd_metrics (note_metrics cs lag) a')) TICK snap = Inr (m', moved)"
        and b: "b = (upd_metrics (note_metrics cs lag) a')\<lparr>ap_trading := m'\<rparr>"
      have "stuck (tf_state m')"
        using hedging_tick [OF m'] same s by (simp add: same_machines_def)
      with b same show ?thesis by (simp add: same_machines_def)
    qed
    show "stuck (tf_state (ap_trading (fst (eval_hedge x e a))))
      \<and> mx_hedge_count (ap_metrics (fst (eval_hedge x e a))) = mx_hedge_count (ap_metrics a)"
    proof (cases "\<exists>snap spot cs lag. poll_run_status x a (fe_polled e) = Inr (False, snd (projr (poll_run_status x a (fe_polled e))))
        \<and> r = Inr (Some (snap, spot, cs, lag))")
      case True
      then obtain i snap spot cs lag where p: "poll_run_status x a (fe_polled e) = Inr (False, i)"
        and rr: "r = Inr (Some (snap, spot, cs, lag))" by blast
      obtain b q where t: "?t snap cs lag = (b, q)" by fastforce
      then have "fst (eval_hedge x e a) = b"
        using p r rr tick [OF t]
        by (cases q) (auto simp: eval_hedge_def act_bind_def act_seq_def act_get_def act_modify_def)
      with tick [OF t] show ?thesis by simp
    next
      case False
      then have "fst (eval_hedge x e a) \<in> {a, a'}"
        using r
        by (auto simp: eval_hedge_def act_bind_def split: sum.splits option.splits prod.splits)
      with s same show ?thesis by (auto simp: same_machines_def)
    qed
  qed
qed

text \<open>
  C22. A stranded machine hedges no more: once the trading machine is between evaluations in \<open>HEDGING\<close>, because
  \<open>HEDGE_DONE\<close> was skipped, in \<open>BOOT\<close>, because no snapshot could be built when the daemon connected, or in
  \<open>SAFE\<close>, no sequence of evaluations ever sends another order or brings it back.
\<close>

theorem stranded_machine_never_hedges:
  assumes "act_keeps same_machines (x_refresh_positions x)"
    and "stuck (tf_state (ap_trading a))"
    and "b = run_events (\<lambda>a e. fst (eval_hedge x e a)) a es"
  shows "stuck (tf_state (ap_trading b))
    \<and> mx_hedge_count (ap_metrics b) = mx_hedge_count (ap_metrics a)"
proof -
  have "stranded_step a b"
    unfolding assms(3) by (rule stranded.keeps_run [OF eval_hedge_stranded [OF assms(1)]])
  with assms(2) show ?thesis by (simp add: stranded_step_def)
qed

text \<open>
  The daily limit through a whole evaluation: the gate is asked before the order is counted, and nothing in
  between counts.
\<close>

definition within_limit :: "'pos app \<Rightarrow> bool" where
  "within_limit a \<longleftrightarrow> eg_daily_hedge_date (ap_guard a) = None
     \<and> eg_daily_hedge_count (ap_guard a) \<le> eg_max_daily_hedge_count (ap_guard a)"

definition keeps_limit :: "'pos app \<Rightarrow> 'pos app \<Rightarrow> bool" where
  "keeps_limit a b \<longleftrightarrow> (within_limit a \<longrightarrow> within_limit b)"

lemma same_guard_limit: "ap_guard b = ap_guard a \<Longrightarrow> keeps_limit a b"
  by (simp add: keeps_limit_def within_limit_def)

interpretation limit: app_keeps keeps_limit
  by unfold_locales (auto simp: keeps_limit_def within_limit_def same_machines_def)

definition same_guard :: "'pos app \<Rightarrow> 'pos app \<Rightarrow> bool" where
  "same_guard a b \<longleftrightarrow> ap_guard b = ap_guard a"

interpretation guard: app_keeps same_guard
  by unfold_locales (auto simp: same_guard_def same_machines_def)

lemma trading_same_guard: "act_keeps same_guard (app_trading x ev snap)"
  by (auto simp: act_keeps_def app_trading_def same_guard_def split: sum.split)

lemma after_order_same_guard: "act_keeps same_guard (after_order x e cs spot snap)"
  unfolding after_order_def
  by (intro guard.rules guard.keeps_dict trading_same_guard)

lemma hedge_counts_once:
  assumes "eg_daily_hedge_date (ap_guard a) = None"
    and "eg_daily_hedge_count (ap_guard a) < eg_max_daily_hedge_count (ap_guard a)"
  shows "within_limit (fst (hedge x e intent cs spot snap a))"
proof -
  let ?h = "plan_round (ap_hedge a) (hedge_target_event (fe_hedge_now e) intent) (cs_stock_pos cs)
    (hc_min_hedge_shares (ap_hedge_cfg a) \<le> hi_quantity intent)"
  let ?a1 = "a\<lparr>ap_hedge := ?h\<rparr>"
  have "ap_guard (fst (app_trading x HEDGE_DONE snap ?a1)) = ap_guard a"
    using act_keepsD [OF trading_same_guard, of ?a1 x HEDGE_DONE snap] by (simp add: same_guard_def)
  moreover have "ap_guard (fst (after_order x e cs spot snap (simulate_order e spot ?a1)))
      = record_hedge_sent (fe_sent_today e) (fe_sent_now e) (ap_guard a)"
    using act_keepsD [OF after_order_same_guard, of "simulate_order e spot ?a1" x e cs spot snap]
    by (simp add: same_guard_def simulate_order_fields)
  ultimately show ?thesis
    using assms record_hedge_sent_undated [OF assms(1), of "fe_sent_today e" "fe_sent_now e"]
    by (auto simp: hedge_cases Let_def within_limit_def)
qed

lemma ask_gates_limit:
  assumes "ask_gates e intent cs spot a = (b, r)" and "eg_daily_hedge_date (ap_guard a) = None"
  shows "ap_guard b = ap_guard a
    \<and> (\<forall>ok. r = Inr (Some ok) \<longrightarrow> eg_daily_hedge_count (ap_guard a) < eg_max_daily_hedge_count (ap_guard a))"
proof (cases "get_spread_pct (ap_store a)")
  case (Inl err)
  with assms show ?thesis by (auto simp: ask_gates_def act_bind_def)
next
  case (Inr spread)
  let ?rq = "gate_request (case or_else fl_truthy (Some (fe_gate_now e)) None of Some t \<Rightarrow> t | None \<Rightarrow> fe_gate_clock e)
    intent cs (Some spot) (st_last_hedge_price (ap_store a)) spread"
  have g: "fst (allow_hedge (fe_wall e) (ap_guard a) ?rq) = ap_guard a"
    using assms(2) by (simp add: allow_hedge_def Let_def)
  have open_gate: "eg_daily_hedge_count (ap_guard a) < eg_max_daily_hedge_count (ap_guard a)"
    if "snd (allow_hedge (fe_wall e) (ap_guard a) ?rq) = Inr (True, why)" for why
    using that assms(2) by (simp add: allow_hedge_iff gates_open_def)
  show ?thesis
    using assms(1) Inr g open_gate
    by (auto simp: ask_gates_def act_bind_def apply_hedge_gates_def Let_def case_prod_unfold rmap_Inr_iff
        split: if_splits)
qed


lemma try_hedge_keeps_limit: "act_keeps keeps_limit (try_hedge x e snap spot cs lag)"
  unfolding act_keeps_def
proof
  fix a
  show "keeps_limit a (fst (try_hedge x e snap spot cs lag a))"
    unfolding keeps_limit_def
  proof
    assume lim: "within_limit a"
    then have undated: "eg_daily_hedge_date (ap_guard a) = None" by (simp add: within_limit_def)
    show "within_limit (fst (try_hedge x e snap spot cs lag a))"
    proof (cases "propose cs a")
      case (Inl err)
      with lim show ?thesis by (simp add: try_hedge_def act_bind_def)
    next
      case (Inr proposed)
      note pr = Inr
      show ?thesis
      proof (cases proposed)
        case None
        with pr lim show ?thesis by (simp add: try_hedge_def act_bind_def)
      next
        case (Some intent)
        obtain b r where ask: "ask_gates e intent cs spot a = (b, r)" by fastforce
        note g = ask_gates_limit [OF ask undated]
        from g lim have limb: "within_limit b" by (simp add: within_limit_def)
        obtain c q where w: "write_snapshot_dict x (fe_dict_ts e) snap spot cs lag b = (c, q)" by fastforce
        obtain d q' where t: "app_trading x TARGET_EMITTED snap c = (d, q')" by fastforce
        have gc: "ap_guard c = ap_guard b"
          using act_keepsD [OF guard.keeps_dict, of b x "fe_dict_ts e" snap spot cs lag] w
          by (simp add: same_guard_def)
        have gd: "ap_guard d = ap_guard c"
          using act_keepsD [OF trading_same_guard, of c x TARGET_EMITTED snap] t by (simp add: same_guard_def)
        have limc: "within_limit c" "within_limit d" using limb gc gd by (simp_all add: within_limit_def)
        have "within_limit (fst (hedge x e ok cs spot snap d))" if "r = Inr (Some ok)" for ok
          using g that gc gd undated by (intro hedge_counts_once) auto
        with limb limc pr Some ask w t show ?thesis
          by (auto simp: try_hedge_def act_bind_def act_seq_def act_get_def split: sum.split option.split)
      qed
    qed
  qed
qed

lemma eval_hedge_keeps_limit:
  assumes "act_keeps same_machines (x_refresh_positions x)"
  shows "act_keeps keeps_limit (eval_hedge x e)"
proof -
  have frame: "act_keeps keeps_limit f" if "act_keeps same_guard f" for f
    using that by (auto simp: act_keeps_def same_guard_def intro: same_guard_limit)
  note refresh = limit.keeps_refresh [OF limit.keeps_same [OF assms]]
  have nm: "act_keeps keeps_limit (act_modify (upd_metrics (note_metrics cs lag)))" for cs lag
    by (intro act_keeps_modify same_guard_limit) simp
  show ?thesis
    unfolding eval_hedge_def
    by (intro limit.rules)
      (auto split: option.split prod.split
        intro!: limit.rules refresh nm frame [OF trading_same_guard] try_hedge_keeps_limit)
qed


section \<open>Witnesses\<close>

definition sample_flow :: "int \<Rightarrow> flow_env" where
  "sample_flow t =
     \<lparr>fe_polled = Inr (False, None), fe_refresh = clock_at t, fe_gate_now = Fin (of_int t),
      fe_gate_clock = Fin (of_int t), fe_wall = sample_clock, fe_dict_ts = Fin (of_int t),
      fe_hedge_now = Fin (of_int t), fe_sent_today = 738000, fe_sent_now = Fin (of_int t),
      fe_dict_ts2 = Fin (of_int t)\<rparr>"

lemma sample_refresh_keeps: "act_keeps same_machines (x_refresh_positions sample_ext)"
  by (simp add: sample_ext_def act_keeps_def same_machines_def)

lemma order_counts_agree_witness:
  "mx_hedge_count (ap_metrics (run_events (\<lambda>a e. fst (eval_hedge sample_ext e a)) (sample_app T_MONITOR)
       [sample_flow 1000, sample_flow 2000]))
   = eg_daily_hedge_count (ap_guard (run_events (\<lambda>a e. fst (eval_hedge sample_ext e a))
       (sample_app T_MONITOR) [sample_flow 1000, sample_flow 2000]))"
  using order_counts_agree [OF sample_refresh_keeps _ _ _ _ refl, of "sample_app T_MONITOR"
      "[sample_flow 1000, sample_flow 2000]"]
  by (simp add: sample_app_def guard_of_config_def mk_exec_guard_def metrics_init_def store_init_def
      set_underlying_price_def can_place_order_def hedge_init_def del: run_events_simps)

definition failing_ext :: "(unit, unit) ext" where
  "failing_ext = sample_ext\<lparr>x_sink := (\<lambda>_. Inl OSError)\<rparr>"

lemma sample_done:
  "\<exists>m' moved. apply_transition Inr eg (sample_trading T_HEDGING) HEDGE_DONE (sample_snapshot L_NORMAL (Fin 60))
     = Inr (m', moved)"
proof -
  obtain g where g: "trading_eval_guards Inr (sample_snapshot L_NORMAL (Fin 60)) sample_trading_config eg = Inr g"
    using sample_guards_eval_any by blast
  obtain m r where "transition_with (sample_trading T_HEDGING) HEDGE_DONE g = (m, r)" by fastforce
  with g show ?thesis
    by (cases r) (auto simp: apply_transition_def trading_transition_def sample_trading_def)
qed

lemma sample_app_ready:
  "can_place_order (ap_hedge (sample_app s))" "tf_state (ap_trading (sample_app s)) = s"
  "ap_trading (sample_app s) = sample_trading s" "hc_min_hedge_shares (ap_hedge_cfg (sample_app s)) = 10"
  "\<not> ap_has_sink (sample_app s)" "mx_hedge_count (ap_metrics (sample_app s)) = 0"
  by (simp_all add: sample_app_def can_place_order_def hedge_init_def sample_trading_def
      sample_hedge_config_def metrics_init_def)

lemma completed_hedge_witness:
  "\<exists>b. hedge sample_ext (sample_flow 1000) sample_intent (sample_composite D_HEDGE_NEEDED) (Fin 100)
       (sample_snapshot L_NORMAL (Fin 60)) (sample_app T_HEDGING) = (b, Inr ())
     \<and> mx_hedge_count (ap_metrics b) = 1"
proof -
  let ?h = "hedge sample_ext (sample_flow 1000) sample_intent (sample_composite D_HEDGE_NEEDED) (Fin 100)
       (sample_snapshot L_NORMAL (Fin 60)) (sample_app T_HEDGING)"
  have q: "hc_min_hedge_shares (ap_hedge_cfg (sample_app T_HEDGING)) \<le> hi_quantity sample_intent"
    by (simp add: sample_app_ready sample_intent_def)
  obtain a1 where run: "?h = after_order sample_ext (sample_flow 1000) (sample_composite D_HEDGE_NEEDED) (Fin 100)
        (sample_snapshot L_NORMAL (Fin 60)) (simulate_order (sample_flow 1000) (Fin 100) a1)"
    and a1: "a1 = (sample_app T_HEDGING)\<lparr>ap_hedge := ap_hedge a1\<rparr>"
    using hedge_sends [OF sample_app_ready(1) q] by metis
  have same: "ap_trading a1 = sample_trading T_HEDGING" "\<not> ap_has_sink a1"
    by (subst a1, simp add: sample_app_ready)+
  obtain m' moved where t: "apply_transition Inr (Some (record_hedge_sent 738000 (Fin 1000) (ap_guard a1)))
      (sample_trading T_HEDGING) HEDGE_DONE (sample_snapshot L_NORMAL (Fin 60)) = Inr (m', moved)"
    using sample_done by blast
  then have "snd ?h = Inr ()"
    unfolding run
    by (simp add: after_order_def act_seq_def act_bind_def write_snapshot_dict_def same app_trading_def
        simulate_order_fields sample_ext_def sample_flow_def)
  then obtain b where b: "?h = (b, Inr ())" by (metis prod.collapse)
  from completed_hedge [OF b sample_app_ready(1) q] show ?thesis
    by (simp add: b sample_app_ready)
qed


lemma stranded_machine_never_hedges_witness:
  "stuck (tf_state (ap_trading (run_events (\<lambda>a e. fst (eval_hedge sample_ext e a)) (sample_app T_HEDGING)
       [sample_flow 1000, sample_flow 2000])))"
  using stranded_machine_never_hedges [OF sample_refresh_keeps _ refl, of "sample_app T_HEDGING"
      "[sample_flow 1000, sample_flow 2000]"]
  by (simp add: sample_app_ready del: run_events_simps)


end
