(* ===== verification/Control.thy ===== *)
theory Control imports HedgeFlow begin

text \<open>
  Control commands and the heartbeat, \<open>app/control_heartbeat.py\<close> and \<open>app/contract_quote_live.py\<close>: the
  commands polled from Redis, the run status that suspends trading, the interruptible sleep and the
  periodic pass. Other tasks run while the loop sleeps; what they do to the object is an argument.
\<close>

section \<open>Polling\<close>

definition poll_control :: "('pos, 'leg) ext \<Rightarrow> 'pos app \<Rightarrow> string option res \<Rightarrow> string option res" where
  "poll_control x a polled =
     (if \<not> ap_has_sink a then Inr None
      else if x_sink_can x ''poll_and_consume_control'' then polled else Inr None)"

definition effective_heartbeat_interval :: "'pos app \<Rightarrow> fl" where
  "effective_heartbeat_interval a =
     (let raw = (case ap_interval_from_db a of Some r \<Rightarrow> r | None \<Rightarrow> ap_heartbeat_interval a)
      in py_max (Fin 5) (py_min (Fin 120) raw))"

definition redis_quotes_connected :: "'pos app \<Rightarrow> bool" where
  "redis_quotes_connected a = (ap_reader a = Some True)"

text \<open>
  The edge's health by way of the reader's client: \<open>client\<close> tells whether there is one, \<open>derived\<close> is what
  the core library derives from its keys.
\<close>

definition ib_edge_heartbeat_fields :: "bool \<Rightarrow> pydict res \<Rightarrow> 'pos app \<Rightarrow> pydict" where
  "ib_edge_heartbeat_fields client derived a =
     (let down = [(''ib_connected'', VBool False), (''ib_client_id'', VNone)] in
      if ap_reader a \<noteq> Some True then down
      else if \<not> client then down
      else case derived of Inl _ \<Rightarrow> down | Inr d \<Rightarrow> d)"

definition listener_heartbeat_kwargs :: pydict where
  "listener_heartbeat_kwargs =
     [(''listener_connected'', VBool False), (''listener_client_id'', VNone),
      (''listener_2_connected'', VBool False), (''listener_2_client_id'', VNone)]"

text \<open>The run status read by the daemon moves its lifecycle between the two running states.\<close>

definition apply_run_status_transition ::
  "('pos, 'leg) ext \<Rightarrow> (bool \<times> fl option) res \<Rightarrow> ('pos app, bool) act" where
  "apply_run_status_transition x polled =
     act_bind (\<lambda>a. (a, poll_run_status x a polled)) (\<lambda>(suspended, interval).
     act_seq (act_modify (\<lambda>a. a\<lparr>ap_interval_from_db := interval\<rparr>))
     (act_bind (act_get (\<lambda>a. d_current (ap_daemon a))) (\<lambda>cur.
     act_seq
       (act_modify
         (if suspended \<and> cur = DS_RUNNING then upd_daemon (\<lambda>m. daemon_transition m DS_RUNNING_SUSPENDED)
          else if \<not> suspended \<and> cur = DS_RUNNING_SUSPENDED then upd_daemon (\<lambda>m. daemon_transition m DS_RUNNING)
          else id))
       (act_return suspended))))"

section \<open>Ticker subscriptions\<close>

definition clear_control_message :: "('pos, 'leg) ext \<Rightarrow> ('pos app, unit) act" where
  "clear_control_message x =
     act_bind (act_get ap_has_sink) (\<lambda>has_sink.
       act_when (has_sink \<and> x_sink_can x ''write_daemon_control_message'')
         (sink_write x (WriteControlMessage None)))"

definition release_ticker_subscriptions :: "('pos, 'leg) ext \<Rightarrow> ('pos app, unit) act" where
  "release_ticker_subscriptions x =
     act_seq (clear_control_message x)
       (act_bind (act_get ap_has_sink) (\<lambda>has_sink.
          act_when (has_sink \<and> x_sink_can x ''write_daemon_subscribed_tickers'')
            (sink_write x (WriteSubscribedTickers []))))"

definition init_ticker_subscriptions :: "('pos, 'leg) ext \<Rightarrow> ('pos app, unit) act" where
  "init_ticker_subscriptions x = clear_control_message x"

definition refresh_ticker_subscriptions :: "('pos app, unit) act" where
  "refresh_ticker_subscriptions = act_return ()"

section \<open>Commands\<close>

text \<open>What a forced round of the account tables meets outside.\<close>

record sync_env =
  se_write :: write_env
  se_now :: fl
  se_snapshot :: "pyval res"

definition sync_accounts :: "('pos, 'leg) ext \<Rightarrow> sync_env \<Rightarrow> ('pos app, int) act" where
  "sync_accounts x e a =
     (let ((w, h), r) = sync_once (x_rep x) (x_digest x) (se_write e) (se_now e) (se_snapshot e) True
                          (ap_writer a, ap_health a)
      in (a\<lparr>ap_writer := w, ap_health := h\<rparr>, r))"

definition write_minimal :: "('pos, 'leg) ext \<Rightarrow> fl \<Rightarrow> ('pos app, unit) act" where
  "write_minimal x now =
     act_bind (\<lambda>a. (a, build_heartbeat_minimal_dict now a)) (\<lambda>d. sink_write x (WriteSnapshot d))"

record command_env =
  ce_now :: fl
  ce_sync :: sync_env
  ce_dict_ts :: fl

definition consume_one_control_command ::
  "('pos, 'leg) ext \<Rightarrow> command_env \<Rightarrow> string option \<Rightarrow> ('pos app, bool) act" where
  "consume_one_control_command x e cmd =
     (case cmd of
        None \<Rightarrow> act_return False
      | Some c \<Rightarrow>
          act_bind (act_get ap_has_sink) (\<lambda>has_sink.
            if c = ''retry_ib'' then act_return False
            else if c = ''stop''
              then act_seq (act_modify (upd_daemon daemon_request_stop)) (act_return True)
            else if c = ''flatten'' then act_return False
            else if c = ''release_ib'' then act_return False
            else if c = ''refresh_accounts'' \<and> has_sink
              then act_seq (x_refresh_accounts x)
                   (act_seq (act_modify (\<lambda>a. a\<lparr>ap_last_accounts_ts := ce_now e\<rparr>))
                   (act_seq (sync_accounts x (ce_sync e))
                   (act_seq (write_minimal x (ce_dict_ts e)) (act_return False))))
            else if c = ''refresh_replay'' \<and> has_sink
              then act_seq (x_refresh_executions x) (act_return False)
            else if c = ''refresh_ticker_subscriptions''
              then act_seq refresh_ticker_subscriptions (act_return False)
            else if c = ''release_ticker_subscriptions''
              then act_seq (release_ticker_subscriptions x) (act_return False)
            else if c = ''init_ticker_subscriptions''
              then act_seq (init_ticker_subscriptions x) (act_return False)
            else act_return False))"

text \<open>Poll and consume, as the sleep and the pass do.\<close>

definition poll_and_consume ::
  "('pos, 'leg) ext \<Rightarrow> string option res \<Rightarrow> command_env \<Rightarrow> ('pos app, bool) act" where
  "poll_and_consume x polled e =
     act_bind (\<lambda>a. (a, poll_control x a polled)) (consume_one_control_command x e)"

section \<open>The interruptible sleep\<close>

definition sleep_chunk :: fl where
  "sleep_chunk = Fin 1"

text \<open>One slice: what other tasks do during it, and the command polled after it.\<close>

record 'pos slice =
  sl_others :: "'pos app \<Rightarrow> 'pos app"
  sl_polled :: "string option res"
  sl_command :: command_env

text \<open>
  The loop over the slices; the result is whether the heartbeat should exit, \<open>None\<close> while the readings
  are used up and it still sleeps.
\<close>

fun sleep_until_heartbeat_or_stop ::
  "('pos, 'leg) ext \<Rightarrow> 'pos slice list \<Rightarrow> fl \<Rightarrow> ('pos app, bool option) act" where
  "sleep_until_heartbeat_or_stop x sls remaining =
     (if \<not> Fin 0 < remaining then act_return (Some False)
      else case sls of
             [] \<Rightarrow> act_return None
           | sl # rest \<Rightarrow>
               act_seq (act_modify (sl_others sl))
               (act_bind (act_get (\<lambda>a. daemon_is_running (ap_daemon a))) (\<lambda>running.
                  if \<not> running then act_return (Some True)
                  else act_bind (poll_and_consume x (sl_polled sl) (sl_command sl)) (\<lambda>stop.
                    if stop then act_return (Some True)
                    else sleep_until_heartbeat_or_stop x rest
                           (remaining - py_min sleep_chunk remaining)))))"

declare sleep_until_heartbeat_or_stop.simps [simp del]

section \<open>One pass of the heartbeat\<close>

text \<open>
  The readings of one pass in the order of the code. The helpers of the core library are atomic here: what
  other tasks do while one of them waits belongs to the parameter that stands for it.
\<close>

record 'pos pass_env =
  he_mark :: fl
  he_polled :: "string option res"
  he_command :: command_env
  he_status :: "(bool \<times> fl option) res"
  he_slices :: "'pos slice list"
  he_status2 :: "(bool \<times> fl option) res"
  he_now :: fl
  he_sync :: sync_env
  he_refresh :: refresh_clock
  he_dict_ts :: fl
  he_client :: bool
  he_edge :: "pydict res"
  he_host :: "unit res"
  he_symbols :: "string list res"
  he_flow :: flow_env

definition write_heartbeat ::
  "('pos, 'leg) ext \<Rightarrow> bool \<Rightarrow> bool \<Rightarrow> pydict res \<Rightarrow> ('pos app, unit) act" where
  "write_heartbeat x hedge_running client derived =
     act_when (x_sink_can x ''write_daemon_heartbeat'')
       (act_bind (act_get (\<lambda>a.
            let ib_kw = ib_edge_heartbeat_fields client derived a in
            \<lparr>hf_hedge_running = hedge_running,
             hf_ib_connected = truthy (dget ib_kw ''ib_connected'' VNone),
             hf_ib_client_id = dget ib_kw ''ib_client_id'' VNone,
             hf_interval = effective_heartbeat_interval a,
             hf_quotes_connected = redis_quotes_connected a,
             hf_mock_hedging = ap_mock_hedging a, hf_listener = listener_heartbeat_kwargs\<rparr>))
          (\<lambda>f. sink_write x (WriteDaemonHeartbeat f)))"

definition maintain_trading_engine_host :: "bool \<Rightarrow> unit res \<Rightarrow> ('pos app, unit) act" where
  "maintain_trading_engine_host client maintained a =
     (a, if ap_reader a \<noteq> Some True \<or> \<not> client then Inr () else maintained)"

definition refresh_accounts_if_due :: "('pos, 'leg) ext \<Rightarrow> fl \<Rightarrow> sync_env \<Rightarrow> ('pos app, unit) act" where
  "refresh_accounts_if_due x now e =
     act_bind (act_get (\<lambda>a. ap_accounts_interval a \<le> now - ap_last_accounts_ts a)) (\<lambda>due.
       act_when due
         (act_seq (x_refresh_accounts x)
         (act_seq (act_modify (\<lambda>a. a\<lparr>ap_last_accounts_ts := now\<rparr>))
         (act_seq (sync_accounts x e) (act_return ())))))"

definition write_status :: "('pos, 'leg) ext \<Rightarrow> 'pos pass_env \<Rightarrow> ('pos app, unit) act" where
  "write_status x e =
     act_bind (refresh_and_build_snapshot x (he_refresh e)) (\<lambda>result.
     act_seq
       (case result of
          Some (snap, spot, cs, lag) \<Rightarrow>
            act_bind (\<lambda>a. (a, build_snapshot_dict (he_dict_ts e) a snap spot cs lag))
              (\<lambda>d. sink_write x (WriteSnapshot d))
        | None \<Rightarrow> write_minimal x (he_dict_ts e))
     (act_seq (write_heartbeat x True (he_client e) (he_edge e))
       (maintain_trading_engine_host (he_client e) (he_host e))))"

definition report_tickers :: "('pos, 'leg) ext \<Rightarrow> string list res \<Rightarrow> ('pos app, unit) act" where
  "report_tickers x symbols =
     act_bind (act_get (\<lambda>a. ap_has_sink a \<and> x_sink_can x ''write_daemon_subscribed_tickers''
                          \<and> ap_reader a = Some True)) (\<lambda>report.
       act_when report
         (act_bind (act_lift symbols) (\<lambda>ss. sink_write x (WriteSubscribedTickers (sort ss)))))"

definition eval_hedge_sync :: "('pos, 'leg) ext \<Rightarrow> flow_env \<Rightarrow> ('pos app, unit) act" where
  "eval_hedge_sync x e = eval_hedge x e"

text \<open>The part of the pass after the sleep.\<close>

definition heartbeat_work :: "('pos, 'leg) ext \<Rightarrow> 'pos pass_env \<Rightarrow> ('pos app, unit) act" where
  "heartbeat_work x e =
     act_bind (apply_run_status_transition x (he_status2 e)) (\<lambda>suspended.
     act_seq (refresh_accounts_if_due x (he_now e) (he_sync e))
     (act_seq (act_bind (act_get ap_has_sink) (\<lambda>has_sink. act_when has_sink (write_status x e)))
     (act_seq refresh_ticker_subscriptions
     (act_seq (report_tickers x (he_symbols e))
     (act_bind (act_get ap_mock_hedging) (\<lambda>mock.
        act_when (\<not> suspended \<and> \<not> mock) (eval_hedge_sync x (he_flow e))))))))"

text \<open>One pass: \<open>Some True\<close> leaves the loop, \<open>None\<close> means that the readings of the sleep are used up.\<close>

definition heartbeat_pass :: "('pos, 'leg) ext \<Rightarrow> 'pos pass_env \<Rightarrow> ('pos app, bool option) act" where
  "heartbeat_pass x e =
     act_seq (act_modify (\<lambda>a. a\<lparr>ap_health := mark_heartbeat (he_mark e) (ap_health a)\<rparr>))
     (act_bind (poll_and_consume x (he_polled e) (he_command e)) (\<lambda>stop.
        if stop then act_return (Some True)
        else act_seq (apply_run_status_transition x (he_status e))
             (act_bind (act_get effective_heartbeat_interval) (\<lambda>interval.
              act_bind (sleep_until_heartbeat_or_stop x (he_slices e) interval) (\<lambda>slept.
                case slept of
                  None \<Rightarrow> act_return None
                | Some True \<Rightarrow> act_return (Some True)
                | Some False \<Rightarrow> act_seq (heartbeat_work x e) (act_return (Some False)))))))"

text \<open>The loop; the result is whether it has returned.\<close>

fun heartbeat :: "('pos, 'leg) ext \<Rightarrow> 'pos pass_env list \<Rightarrow> ('pos app, bool) act" where
  "heartbeat x [] = act_bind (act_get (\<lambda>a. daemon_is_running (ap_daemon a))) (\<lambda>running. act_return (\<not> running))"
| "heartbeat x (e # es) =
     act_bind (act_get (\<lambda>a. daemon_is_running (ap_daemon a))) (\<lambda>running.
       if \<not> running then act_return True
       else act_bind (heartbeat_pass x e) (\<lambda>r.
              case r of
                None \<Rightarrow> act_return False
              | Some True \<Rightarrow> act_return True
              | Some False \<Rightarrow> heartbeat x es))"

section \<open>Commands and run status\<close>

lemma act_bind_Inr:
  "snd (act_bind m f a) = Inr y \<longleftrightarrow> (\<exists>v. snd (m a) = Inr v \<and> snd (f v (fst (m a))) = Inr y)"
  by (cases "m a") (auto simp: act_bind_def split: sum.split)

lemma act_seq_Inr:
  "snd (act_seq m k a) = Inr y \<longleftrightarrow> (\<exists>v. snd (m a) = Inr v) \<and> snd (k (fst (m a))) = Inr y"
  by (auto simp: act_seq_def act_bind_Inr)

text \<open>
  Only \<open>stop\<close> ends the heartbeat: whatever command is consumed, known or not, it asks the loop to exit
  exactly when it is \<open>stop\<close>, and then the lifecycle has moved as a stop request moves it and nothing else
  of the daemon has changed.
\<close>

theorem only_stop_exits:
  "(snd (consume_one_control_command x e cmd a) = Inr True \<longleftrightarrow> cmd = Some ''stop'')
   \<and> fst (consume_one_control_command x e (Some ''stop'') a)
     = a\<lparr>ap_daemon := snd (daemon_request_stop (ap_daemon a))\<rparr>"
proof -
  have "snd (consume_one_control_command x e cmd a) \<noteq> Inr True" if "cmd \<noteq> Some ''stop''"
    using that by (cases cmd) (auto simp: consume_one_control_command_def act_seq_Inr)
  moreover have "snd (consume_one_control_command x e (Some ''stop'') a) = Inr True"
    by (simp add: consume_one_control_command_def)
  ultimately show ?thesis by (auto simp: consume_one_control_command_def)
qed

lemma run_status_result:
  "apply_run_status_transition x polled a = (b, Inr s) \<Longrightarrow>
     \<exists>i. poll_run_status x a polled = Inr (s, i) \<and> ap_interval_from_db b = i
       \<and> d_current (ap_daemon b)
         = (if s \<and> d_current (ap_daemon a) = DS_RUNNING then DS_RUNNING_SUSPENDED
            else if \<not> s \<and> d_current (ap_daemon a) = DS_RUNNING_SUSPENDED then DS_RUNNING
            else d_current (ap_daemon a))"
  by (auto simp: apply_run_status_transition_def act_bind_def daemon_transition_current
      split: sum.splits if_splits)

text \<open>
  The lifecycle follows the run status: after it was read, a running daemon is in \<open>RUNNING_SUSPENDED\<close>
  exactly when trading is suspended, any other state is left alone, and the interval read with it is the
  one the next sleep uses.
\<close>

theorem run_status_followed:
  assumes "apply_run_status_transition x polled a = (b, Inr suspended)"
  shows "(if daemon_is_running (ap_daemon a)
          then d_current (ap_daemon b) = (if suspended then DS_RUNNING_SUSPENDED else DS_RUNNING)
          else d_current (ap_daemon b) = d_current (ap_daemon a))
    \<and> (\<not> ap_has_sink a \<longrightarrow> suspended)
    \<and> (\<forall>r. ap_interval_from_db b = Some r \<longrightarrow> effective_heartbeat_interval b = py_max (Fin 5) (py_min (Fin 120) r))"
  using run_status_result [OF assms]
  by (auto simp: daemon_is_running_def poll_run_status_def effective_heartbeat_interval_def split: if_splits)

section \<open>The sleep ends\<close>

text \<open>
  The heartbeat interval is between 5 and 120 seconds, whatever the configuration or Redis say, not a
  number included.
\<close>

theorem heartbeat_interval_bounded:
  "Fin 5 \<le> effective_heartbeat_interval a \<and> effective_heartbeat_interval a \<le> Fin 120"
proof -
  have "Fin 5 \<le> py_max (Fin 5) (py_min (Fin 120) r) \<and> py_max (Fin 5) (py_min (Fin 120) r) \<le> Fin 120" for r
    by (cases r) (auto simp: py_max_def py_min_def)
  then show ?thesis by (simp add: effective_heartbeat_interval_def Let_def)
qed

lemma slice_shortens:
  assumes "Fin 0 < remaining" and "remaining \<le> Fin (of_nat n)" and "n \<le> 2 ^ 53"
  obtains m where "n = Suc m" and "remaining - py_min sleep_chunk remaining \<le> Fin (of_nat m)"
proof -
  from assms(1,2) obtain r where r: "remaining = Fin r" "0 < r" "r \<le> of_nat n" by (cases remaining) auto
  then obtain m where m: "n = Suc m" by (cases n) auto
  have "remaining - py_min sleep_chunk remaining \<le> Fin (of_nat m)"
  proof (cases "r < 1")
    case True
    with r show ?thesis by (simp add: sleep_chunk_def py_min_def)
  next
    case False
    have "int m \<le> 2 ^ 53" using assms(3) m by simp
    then have "is_double (Fin (of_int (int m)))" by (intro is_double_of_int) simp
    with False r m show ?thesis by (simp add: sleep_chunk_def py_min_def rnd_le)
  qed
  with m show ?thesis by (rule that)
qed

lemma sleep_ends:
  "remaining \<le> Fin (of_nat n) \<Longrightarrow> n \<le> length sls \<Longrightarrow> n \<le> 2 ^ 53 \<Longrightarrow>
     snd (sleep_until_heartbeat_or_stop x sls remaining a) \<noteq> Inr None"
proof (induction sls arbitrary: remaining n a)
  case Nil
  then show ?case
    by (subst sleep_until_heartbeat_or_stop.simps) (auto simp: fl_less_not_le)
next
  case (Cons sl sls)
  show ?case
  proof (cases "Fin 0 < remaining")
    case False
    then show ?thesis by (subst sleep_until_heartbeat_or_stop.simps) simp
  next
    case True
    with Cons.prems obtain m where m: "n = Suc m"
      "remaining - py_min sleep_chunk remaining \<le> Fin (of_nat m)" by (elim slice_shortens)
    then have "snd (sleep_until_heartbeat_or_stop x sls (remaining - py_min sleep_chunk remaining) b) \<noteq> Inr None" for b
      using Cons.prems by (intro Cons.IH) auto
    then show ?thesis
      by (subst sleep_until_heartbeat_or_stop.simps) (auto simp: act_bind_Inr)
  qed
qed

text \<open>
  C16. The sleep ends: for the interval that the heartbeat uses, at most 120 slices of other tasks and
  polled commands pass before it returns or raises, whatever they do and whatever interval is configured.
\<close>

theorem sleep_terminates:
  assumes "120 \<le> length sls"
  shows "snd (sleep_until_heartbeat_or_stop x sls (effective_heartbeat_interval b) a) \<noteq> Inr None"
  using assms heartbeat_interval_bounded [of b] by (intro sleep_ends [of _ 120]) auto


section \<open>What the heartbeat may change\<close>

text \<open>The part of the object that trading depends on; the rest is settings, caches and records.\<close>

definition same_trading :: "'pos app \<Rightarrow> 'pos app \<Rightarrow> bool" where
  "same_trading a b \<longleftrightarrow>
     ap_daemon b = ap_daemon a \<and> ap_trading b = ap_trading a \<and> ap_hedge b = ap_hedge a
     \<and> (ap_mock_hedging a \<longrightarrow> ap_mock_hedging b)
     \<and> mx_hedge_count (ap_metrics b) = mx_hedge_count (ap_metrics a)
     \<and> st_daily_hedge_count (ap_store b) = st_daily_hedge_count (ap_store a)
     \<and> eg_daily_hedge_count (ap_guard b) = eg_daily_hedge_count (ap_guard a)
     \<and> eg_daily_hedge_date (ap_guard b) = eg_daily_hedge_date (ap_guard a)"

text \<open>The helpers of the core library that the loop calls.\<close>

definition tame_helpers :: "('pos, 'leg) ext \<Rightarrow> bool" where
  "tame_helpers x \<longleftrightarrow> act_keeps same_machines (x_refresh_positions x)
     \<and> act_keeps same_machines (x_refresh_accounts x) \<and> act_keeps same_machines (x_refresh_executions x)"

context app_keeps
begin

lemma keeps_minimal: "act_keeps R (write_minimal x now)"
  unfolding write_minimal_def by (intro rules keeps_sink_write)

lemma keeps_heartbeat_fields: "act_keeps R (write_heartbeat x r client derived)"
  unfolding write_heartbeat_def by (intro rules keeps_sink_write)

lemma keeps_tame:
  assumes "tame_helpers x"
  shows "act_keeps R (x_refresh_accounts x)" "act_keeps R (x_refresh_executions x)"
    "act_keeps R (refresh_and_build_snapshot x clk)"
  using assms by (auto simp: tame_helpers_def intro!: keeps_refresh intro: keeps_same)

end

text \<open>
  A relation that the tasks of a running daemon respect: it allows any change of settings, a stop request,
  and the moves between the two running states.
\<close>

locale task_keeps = app_keeps R
  for R :: "'pos app \<Rightarrow> 'pos app \<Rightarrow> bool" +
  assumes settings_R: "same_trading a b \<Longrightarrow> R a b"
    and stop_R: "R a (upd_daemon daemon_request_stop a)"
    and suspend_R: "d_current (ap_daemon a) = DS_RUNNING
      \<Longrightarrow> R a (upd_daemon (\<lambda>m. daemon_transition m DS_RUNNING_SUSPENDED) a)"
    and resume_R: "d_current (ap_daemon a) = DS_RUNNING_SUSPENDED
      \<Longrightarrow> R a (upd_daemon (\<lambda>m. daemon_transition m DS_RUNNING) a)"
begin

lemma keeps_settings: "(\<And>a. same_trading a (f a)) \<Longrightarrow> act_keeps R (act_modify f)"
  by (intro act_keeps_modify settings_R)

lemma keeps_stamp: "act_keeps R (act_modify (\<lambda>a. a\<lparr>ap_last_accounts_ts := t\<rparr>))"
  by (intro keeps_settings) (simp add: same_trading_def)

lemma keeps_mark: "act_keeps R (act_modify (\<lambda>a. a\<lparr>ap_health := h a\<rparr>))"
  by (intro keeps_settings) (simp add: same_trading_def)

lemma keeps_sync: "act_keeps R (sync_accounts x e)"
  by (simp add: act_keeps_def sync_accounts_def Let_def case_prod_unfold settings_R same_trading_def)

lemma reload_R: "R a (reload_config x config a)"
  by (intro settings_R) (simp add: same_trading_def reload_config_def update_config_def Let_def)

lemma keeps_run_status: "act_keeps R (apply_run_status_transition x polled)"
proof -
  have "act_keeps R (act_modify (\<lambda>a. a\<lparr>ap_interval_from_db := i\<rparr>))" for i
    by (intro keeps_settings) (simp add: same_trading_def)
  moreover have "act_keeps R (act_bind (act_get (\<lambda>a. d_current (ap_daemon a))) (\<lambda>cur.
      act_seq
       (act_modify
         (if s \<and> cur = DS_RUNNING then upd_daemon (\<lambda>m. daemon_transition m DS_RUNNING_SUSPENDED)
          else if \<not> s \<and> cur = DS_RUNNING_SUSPENDED then upd_daemon (\<lambda>m. daemon_transition m DS_RUNNING)
          else id))
       (act_return s)))" for s
    by (auto simp: act_keeps_def suspend_R [simplified] resume_R [simplified])
  ultimately show ?thesis
    unfolding apply_run_status_transition_def by (intro rules) (auto split: prod.split intro!: keeps_seq)
qed

lemma keeps_command:
  assumes "tame_helpers x"
  shows "act_keeps R (consume_one_control_command x e cmd)"
proof -
  have "act_keeps R (act_modify (upd_daemon daemon_request_stop))"
    by (intro act_keeps_modify stop_R)
  moreover have "act_keeps R (clear_control_message x)"
    unfolding clear_control_message_def by (intro rules keeps_sink_write)
  moreover from this have "act_keeps R (release_ticker_subscriptions x)"
    unfolding release_ticker_subscriptions_def by (intro rules keeps_sink_write)
  ultimately show ?thesis
    unfolding consume_one_control_command_def refresh_ticker_subscriptions_def init_ticker_subscriptions_def
    by (auto split: option.split intro!: rules keeps_stamp keeps_sync keeps_minimal keeps_tame [OF assms])
qed

lemma keeps_poll: "tame_helpers x \<Longrightarrow> act_keeps R (poll_and_consume x polled e)"
  unfolding poll_and_consume_def by (intro rules keeps_command)

lemma keeps_sleep:
  assumes "tame_helpers x" and "\<forall>sl\<in>set sls. \<forall>a. R a (sl_others sl a)"
  shows "act_keeps R (sleep_until_heartbeat_or_stop x sls remaining)"
  using assms(2)
proof (induction sls arbitrary: remaining)
  case Nil
  show ?case by (subst sleep_until_heartbeat_or_stop.simps) (auto intro: rules)
next
  case (Cons sl sls)
  then have "act_keeps R (act_modify (sl_others sl))" by (intro act_keeps_modify) simp
  moreover have "act_keeps R (sleep_until_heartbeat_or_stop x sls r)" for r
    using Cons by simp
  ultimately show ?case
    by (subst sleep_until_heartbeat_or_stop.simps) (auto intro!: rules keeps_poll [OF assms(1)])
qed

lemma keeps_status:
  assumes "tame_helpers x"
  shows "act_keeps R (write_status x e)"
proof -
  have "act_keeps R (maintain_trading_engine_host client host)" for client host
    unfolding maintain_trading_engine_host_def by (rule keeps_peek)
  then show ?thesis
    unfolding write_status_def
    by (auto split: option.split intro!: rules keeps_sink_write keeps_minimal keeps_heartbeat_fields
        keeps_tame [OF assms])
qed

text \<open>The evaluation of a hedge sits behind the mock flag; what it changes is the premise.\<close>

lemma keeps_work:
  assumes "tame_helpers x" and "\<And>fe a. \<not> ap_mock_hedging a \<Longrightarrow> R a (fst (eval_hedge x fe a))"
  shows "act_keeps R (heartbeat_work x e)"
proof -
  have "act_keeps R (refresh_accounts_if_due x now se)" for now se
    unfolding refresh_accounts_if_due_def
    by (intro rules keeps_stamp keeps_sync keeps_tame [OF assms(1)])
  moreover have "act_keeps R (report_tickers x ss)" for ss
    unfolding report_tickers_def by (intro rules keeps_sink_write)
  moreover have gate: "act_keeps R (act_bind (act_get ap_mock_hedging)
      (\<lambda>mock. act_when (\<not> s \<and> \<not> mock) (eval_hedge_sync x fe)))" for s fe
    using assms(2) R_refl by (auto simp: act_keeps_def eval_hedge_sync_def act_when_def)
  ultimately show ?thesis
    unfolding heartbeat_work_def refresh_ticker_subscriptions_def
    by (intro rules keeps_run_status keeps_status [OF assms(1)] gate)
qed

lemma keeps_pass:
  assumes "tame_helpers x" and "\<And>fe a. \<not> ap_mock_hedging a \<Longrightarrow> R a (fst (eval_hedge x fe a))"
    and "\<forall>sl\<in>set (he_slices e). \<forall>a. R a (sl_others sl a)"
  shows "act_keeps R (heartbeat_pass x e)"
  unfolding heartbeat_pass_def
  by (auto split: option.split bool.split intro!: rules keeps_poll keeps_run_status keeps_sleep keeps_mark
      keeps_work assms)

lemma keeps_heartbeat:
  assumes "tame_helpers x" and "\<And>fe a. \<not> ap_mock_hedging a \<Longrightarrow> R a (fst (eval_hedge x fe a))"
    and "\<forall>e\<in>set es. \<forall>sl\<in>set (he_slices e). \<forall>a. R a (sl_others sl a)"
  shows "act_keeps R (heartbeat x es)"
  using assms(3)
proof (induction es)
  case Nil
  show ?case by (simp only: heartbeat.simps) (intro rules)
next
  case (Cons e es)
  then have "act_keeps R (heartbeat_pass x e)" "act_keeps R (heartbeat x es)"
    using assms(1,2) by (simp_all add: keeps_pass)
  then show ?case
    unfolding heartbeat.simps by (intro rules) (auto split: option.split bool.split intro!: rules)
qed

end

section \<open>A mocked daemon\<close>

text \<open>
  While hedging is mocked, the trading machine, the hedge machine and the three counts of orders stay as
  they are, and hedging stays mocked.
\<close>

definition quiet :: "'pos app \<Rightarrow> 'pos app \<Rightarrow> bool" where
  "quiet a b \<longleftrightarrow>
     (ap_mock_hedging a \<longrightarrow>
        ap_mock_hedging b \<and> ap_trading b = ap_trading a \<and> ap_hedge b = ap_hedge a
        \<and> mx_hedge_count (ap_metrics b) = mx_hedge_count (ap_metrics a)
        \<and> st_daily_hedge_count (ap_store b) = st_daily_hedge_count (ap_store a)
        \<and> eg_daily_hedge_count (ap_guard b) = eg_daily_hedge_count (ap_guard a))"

interpretation quiet: task_keeps quiet
  by unfold_locales (auto simp: quiet_def same_machines_def same_trading_def)

text \<open>
  A daemon as it is built never orders: while hedging is mocked, which neither the construction nor a
  reload ever changes, no sequence of heartbeats moves the trading machine or the hedge machine or counts
  an order, whatever commands, run status and quotes it reads.
\<close>

theorem mock_heartbeat_never_orders:
  assumes "tame_helpers x" and "ap_mock_hedging a"
    and "\<forall>e\<in>set es. \<forall>sl\<in>set (he_slices e). \<forall>a. quiet a (sl_others sl a)"
  shows "quiet a (fst (heartbeat x es a)) \<and> ap_mock_hedging (fst (heartbeat x es a))
    \<and> ap_hedge (fst (heartbeat x es a)) = ap_hedge a \<and> ap_trading (fst (heartbeat x es a)) = ap_trading a"
proof -
  have "act_keeps quiet (heartbeat x es)"
    by (rule quiet.keeps_heartbeat [OF assms(1) _ assms(3)]) (simp add: quiet_def)
  then have "quiet a (fst (heartbeat x es a))" by (rule act_keepsD)
  with assms(2) show ?thesis by (simp add: quiet_def)
qed

section \<open>Witnesses\<close>

definition sample_sync :: sync_env where
  "sample_sync = \<lparr>se_write = sample_env, se_now = Fin 1000, se_snapshot = Inr VNone\<rparr>"

definition sample_command :: command_env where
  "sample_command = \<lparr>ce_now = Fin 1000, ce_sync = sample_sync, ce_dict_ts = Fin 1000\<rparr>"

definition sample_slice :: "string option \<Rightarrow> unit slice" where
  "sample_slice c = \<lparr>sl_others = id, sl_polled = Inr c, sl_command = sample_command\<rparr>"

definition running_app :: "unit app" where
  "running_app = (sample_app T_MONITOR)\<lparr>ap_daemon := \<lparr>d_current = DS_RUNNING, d_on_transition = False, d_calls = []\<rparr>,
     ap_has_sink := True\<rparr>"

lemma run_status_followed_witness:
  "\<exists>b. apply_run_status_transition sample_ext (Inr (True, Some (Fin 30))) running_app = (b, Inr True)
     \<and> d_current (ap_daemon b) = DS_RUNNING_SUSPENDED"
proof -
  have "snd (apply_run_status_transition sample_ext (Inr (True, Some (Fin 30))) running_app) = Inr True"
    by code_simp
  then obtain b where b: "apply_run_status_transition sample_ext (Inr (True, Some (Fin 30))) running_app = (b, Inr True)"
    by (metis prod.collapse)
  from run_status_followed [OF b] b show ?thesis by (simp add: running_app_def daemon_is_running_def)
qed

lemma sleep_terminates_witness:
  "snd (sleep_until_heartbeat_or_stop sample_ext (replicate 120 (sample_slice None))
     (effective_heartbeat_interval running_app) running_app) \<noteq> Inr None"
  by (rule sleep_terminates) simp


definition sample_pass :: "unit pass_env" where
  "sample_pass =
     \<lparr>he_mark = Fin 1000, he_polled = Inr None, he_command = sample_command, he_status = Inr (False, Some (Fin 5)),
      he_slices = replicate 5 ((sample_slice None)\<lparr>sl_others := reload_config sample_ext []\<rparr>),
      he_status2 = Inr (False, Some (Fin 5)), he_now = Fin 1005, he_sync = sample_sync, he_refresh = clock_at 1005,
      he_dict_ts = Fin 1005, he_client = True, he_edge = Inr [], he_host = Inr (), he_symbols = Inr [''NVDA''],
      he_flow = sample_flow 1005\<rparr>"

lemma mock_heartbeat_never_orders_witness:
  "ap_hedge (fst (heartbeat sample_ext [sample_pass, sample_pass] running_app)) = ap_hedge running_app"
proof -
  have "tame_helpers sample_ext"
    by (simp add: tame_helpers_def sample_ext_def same.keeps_pure)
  then show ?thesis
    using mock_heartbeat_never_orders [of sample_ext running_app "[sample_pass, sample_pass]"]
    by (simp add: running_app_def sample_app_def sample_pass_def quiet.reload_R)
qed

end
