(* ===== verification/DaemonRun.thy ===== *)
theory DaemonRun imports Control begin

text \<open>
  The state handlers, the run loop and \<open>stop\<close>, \<open>app/daemon_handlers.py\<close>. The process is the daemon object
  and the background tasks that exist; what the tasks do while the running handler sleeps is an argument.
  A cancelled await raises \<open>CancelledError\<close>, which \<open>except Exception\<close> does not catch.
\<close>

section \<open>The process\<close>

datatype task = HeartbeatTask | AccountPushTask | ConfigReloadTask

record 'pos process =
  pr_app :: "'pos app"
  pr_tasks :: "task list"

definition in_app :: "('pos app, 'a) act \<Rightarrow> ('pos process, 'a) act" where
  "in_app m p = (let (a, r) = m (pr_app p) in (p\<lparr>pr_app := a\<rparr>, r))"

definition cancelled_error :: pyexc where
  "cancelled_error = OtherException ''CancelledError''"

definition is_exception :: "pyexc \<Rightarrow> bool" where
  "is_exception e \<longleftrightarrow> e \<noteq> cancelled_error"

section \<open>The handlers\<close>

definition handle_idle :: "('pos, 'leg) ext \<Rightarrow> (bool \<times> fl option) res \<Rightarrow> ('pos app, daemon_state) act" where
  "handle_idle x polled = act_bind (\<lambda>a. (a, poll_run_status x a polled)) (\<lambda>_. act_return DS_CONNECTING)"

definition handle_connecting :: "('pos app, daemon_state) act" where
  "handle_connecting = act_return DS_CONNECTED"

record connected_env =
  cn_client :: bool
  cn_edge :: "pydict res"
  cn_now :: fl
  cn_refresh :: refresh_clock
  cn_dict_ts :: fl

definition handle_connected :: "('pos, 'leg) ext \<Rightarrow> connected_env \<Rightarrow> ('pos app, daemon_state) act" where
  "handle_connected x e =
     act_bind (act_get ap_has_sink) (\<lambda>has_sink.
     act_seq (act_when has_sink (write_heartbeat x False (cn_client e) (cn_edge e)))
     (act_seq (x_refresh_accounts x)
     (act_seq (act_modify (\<lambda>a. a\<lparr>ap_last_accounts_ts := cn_now e\<rparr>))
     (act_bind (refresh_and_build_snapshot x (cn_refresh e)) (\<lambda>result.
      act_seq
        (case result of
           Some (snap, spot, cs, lag) \<Rightarrow>
             act_seq (app_trading x START snap)
             (act_seq (app_trading x SYNCED snap)
               (write_snapshot_dict x (cn_dict_ts e) snap spot cs lag))
         | None \<Rightarrow> act_bind (act_get ap_has_sink) (\<lambda>s. act_when s (write_minimal x (cn_dict_ts e))))
        (act_return DS_RUNNING))))))"

text \<open>A turn of the running handler's sleep: other tasks acted, or the sleep was cancelled.\<close>

datatype 'pos run_turn = Others "'pos app \<Rightarrow> 'pos app" | Cancelled

record 'pos running_env =
  rn_status :: "(bool \<times> fl option) res"
  rn_dict_ts :: fl
  rn_client :: bool
  rn_edge :: "pydict res"
  rn_turns :: "'pos run_turn list"

fun wait_while_running :: "'pos run_turn list \<Rightarrow> ('pos app, daemon_state option) act" where
  "wait_while_running ts a =
     (if \<not> daemon_is_running (ap_daemon a) then (a, Inr (Some DS_STOPPING))
      else case ts of
             [] \<Rightarrow> (a, Inr None)
           | Cancelled # _ \<Rightarrow> (a, Inr (Some DS_STOPPING))
           | Others f # rest \<Rightarrow> wait_while_running rest (f a))"

declare wait_while_running.simps [simp del]

definition enter_running :: "('pos, 'leg) ext \<Rightarrow> 'pos running_env \<Rightarrow> ('pos app, unit) act" where
  "enter_running x e =
     act_seq (act_catch is_exception (x_refresh_edge x) (act_return ()))
     (act_seq (apply_run_status_transition x (rn_status e))
     (act_bind (act_get ap_has_sink) (\<lambda>has_sink.
        act_when has_sink
          (act_seq (write_minimal x (rn_dict_ts e)) (write_heartbeat x True (rn_client e) (rn_edge e))))))"

definition handle_running :: "('pos, 'leg) ext \<Rightarrow> 'pos running_env \<Rightarrow> ('pos process, daemon_state option) act" where
  "handle_running x e =
     act_seq (in_app (enter_running x e))
     (act_seq (act_modify (\<lambda>p. p\<lparr>pr_tasks := [HeartbeatTask, AccountPushTask, ConfigReloadTask]\<rparr>))
       (in_app (wait_while_running (rn_turns e))))"

text \<open>
  Shutting down: the tasks are cancelled and awaited, the writer, the sink and the reader are closed.
  Whatever a task or a closing call raises is swallowed.
\<close>

definition handle_stopping :: "('pos, 'leg) ext \<Rightarrow> ('pos process, daemon_state) act" where
  "handle_stopping x =
     act_seq (act_modify (\<lambda>p. p\<lparr>pr_tasks := [],
        pr_app := (pr_app p)\<lparr>ap_writer := map_option writer_close (ap_writer (pr_app p))\<rparr>\<rparr>))
     (act_seq
       (in_app (act_bind (act_get ap_has_sink) (\<lambda>has_sink.
          act_when (has_sink \<and> x_sink_can x ''close'')
            (act_catch (\<lambda>_. True) (sink_write x SinkClose) (act_return ())))))
       (act_return DS_STOPPED))"

section \<open>The loop\<close>

record 'pos run_env =
  re_idle :: "(bool \<times> fl option) res"
  re_connected :: connected_env
  re_running :: "'pos running_env"

text \<open>\<open>get_state_handlers\<close>: no handler for the suspended state and the final one.\<close>

definition get_state_handlers ::
  "('pos, 'leg) ext \<Rightarrow> 'pos run_env \<Rightarrow> daemon_state \<Rightarrow> ('pos process, daemon_state option) act option" where
  "get_state_handlers x e s =
     (let next = (\<lambda>m. act_bind (in_app m) (\<lambda>d. act_return (Some d))) in
      case s of
        DS_IDLE \<Rightarrow> Some (next (handle_idle x (re_idle e)))
      | DS_CONNECTING \<Rightarrow> Some (next handle_connecting)
      | DS_CONNECTED \<Rightarrow> Some (next (handle_connected x (re_connected e)))
      | DS_RUNNING \<Rightarrow> Some (handle_running x (re_running e))
      | DS_STOPPING \<Rightarrow> Some (act_bind (handle_stopping x) (\<lambda>d. act_return (Some d)))
      | DS_RUNNING_SUSPENDED \<Rightarrow> None
      | DS_STOPPED \<Rightarrow> None)"

definition move_daemon :: "daemon_state \<Rightarrow> 'pos process \<Rightarrow> 'pos process" where
  "move_daemon s p = p\<lparr>pr_app := upd_daemon (\<lambda>m. daemon_transition m s) (pr_app p)\<rparr>"

definition current :: "'pos process \<Rightarrow> daemon_state" where
  "current p = d_current (ap_daemon (pr_app p))"

text \<open>After a handler raised: stop, or end at once where the table knows no way to stop.\<close>

definition after_failure :: "'pos process \<Rightarrow> 'pos process" where
  "after_failure p =
     (if daemon_can_transition_to (ap_daemon (pr_app p)) DS_STOPPING then move_daemon DS_STOPPING p
      else move_daemon DS_STOPPED p)"

text \<open>How the loop ended, as its log tells it; the running handler may still be waiting.\<close>

datatype run_exit =
    ReachedStopped
  | NoHandler daemon_state
  | InvalidTransition daemon_state daemon_state
  | StillRunning
  | OutOfFuel

fun run_loop :: "nat \<Rightarrow> ('pos, 'leg) ext \<Rightarrow> 'pos run_env \<Rightarrow> ('pos process, run_exit) act" where
  "run_loop n x e p =
     (if current p = DS_STOPPED then (p, Inr ReachedStopped)
      else case n of
             0 \<Rightarrow> (p, Inr OutOfFuel)
           | Suc k \<Rightarrow>
               (case get_state_handlers x e (current p) of
                  None \<Rightarrow> (p, Inr (NoHandler (current p)))
                | Some handler \<Rightarrow>
                    (case handler p of
                       (p', Inl err) \<Rightarrow>
                         if is_exception err then run_loop k x e (after_failure p') else (p', Inl err)
                     | (p', Inr None) \<Rightarrow> (p', Inr StillRunning)
                     | (p', Inr (Some next)) \<Rightarrow>
                         if daemon_can_transition_to (ap_daemon (pr_app p')) next
                         then run_loop k x e (move_daemon next p')
                         else (if daemon_can_transition_to (ap_daemon (pr_app p')) DS_STOPPING
                               then move_daemon DS_STOPPING p' else p',
                               Inr (InvalidTransition (current p) next)))))"

declare run_loop.simps [simp del]

text \<open>The \<open>finally\<close> block.\<close>

definition clean_up :: "('pos, 'leg) ext \<Rightarrow> 'pos process \<Rightarrow> 'pos process" where
  "clean_up x p =
     (if current p = DS_STOPPED then p
      else let p1 = (if current p \<noteq> DS_STOPPING then move_daemon DS_STOPPING p else p)
           in move_daemon DS_STOPPED (fst (handle_stopping x p1)))"

text \<open>Six turns of the loop are enough for any run, see \<open>run_always_stops\<close>.\<close>

definition run :: "('pos, 'leg) ext \<Rightarrow> 'pos run_env \<Rightarrow> ('pos process, run_exit) act" where
  "run x e p =
     (case run_loop 6 x e p of
        (p', Inr StillRunning) \<Rightarrow> (p', Inr StillRunning)
      | (p', r) \<Rightarrow> (clean_up x p', r))"

definition stop :: "'pos app \<Rightarrow> 'pos app" where
  "stop a = upd_daemon daemon_request_stop a"

section \<open>The lifecycle only moves forward\<close>

definition rank_of :: "'pos app \<Rightarrow> nat" where
  "rank_of a = lifecycle_rank (d_current (ap_daemon a))"

text \<open>
  What other tasks, helpers and signal handlers may do to the lifecycle: move it on, but end a started
  daemon only by way of the loop.
\<close>

definition forward :: "'pos app \<Rightarrow> 'pos app \<Rightarrow> bool" where
  "forward a b \<longleftrightarrow> rank_of a \<le> rank_of b \<and> (1 \<le> rank_of a \<and> rank_of a \<le> 4 \<longrightarrow> rank_of b \<le> 4)"

lemma stop_target_rank:
  "lifecycle_rank s \<le> lifecycle_rank (stop_target s)"
  "1 \<le> lifecycle_rank s \<Longrightarrow> lifecycle_rank s \<le> 4 \<Longrightarrow> lifecycle_rank (stop_target s) \<le> 4"
  by (cases s; simp)+

interpretation forward: task_keeps forward
  by unfold_locales
    (auto simp: forward_def rank_of_def same_machines_def same_trading_def daemon_transition_current
      daemon_request_stop_current stop_target_rank)

lemma forward_same: "ap_daemon b = ap_daemon a \<Longrightarrow> forward a b"
  by (simp add: forward_def rank_of_def)

lemma stop_forward: "forward a (stop a)"
  unfolding stop_def by (rule forward.stop_R)

definition forward_helpers :: "('pos, 'leg) ext \<Rightarrow> bool" where
  "forward_helpers x \<longleftrightarrow> act_keeps forward (x_refresh_positions x)
     \<and> act_keeps forward (x_refresh_accounts x) \<and> act_keeps forward (x_refresh_edge x)"

definition forward_turns :: "'pos run_turn list \<Rightarrow> bool" where
  "forward_turns ts \<longleftrightarrow> (\<forall>t\<in>set ts. \<forall>f. t = Others f \<longrightarrow> (\<forall>a. rank_of a \<noteq> 0 \<longrightarrow> forward a (f a)))"

lemma forward_trading: "act_keeps forward (app_trading x ev snap)"
  by (auto simp: act_keeps_def app_trading_def forward_same split: sum.split)

lemma forward_connected:
  assumes "forward_helpers x"
  shows "act_keeps forward (handle_connected x e)"
  using assms
  unfolding handle_connected_def
  by (auto simp: forward_helpers_def split: option.split intro!: forward.rules forward.keeps_heartbeat_fields
      forward_trading forward.keeps_dict forward.keeps_minimal forward.keeps_refresh forward.keeps_stamp)

lemma forward_enter: "forward_helpers x \<Longrightarrow> act_keeps forward (enter_running x e)"
  unfolding enter_running_def forward_helpers_def
  by (intro forward.rules forward.keeps_run_status forward.keeps_minimal forward.keeps_heartbeat_fields) simp_all

lemma forward_wait:
  "forward_turns ts \<Longrightarrow> forward a (fst (wait_while_running ts a))"
proof (induction ts arbitrary: a)
  case Nil
  show ?case by (subst wait_while_running.simps) simp
next
  case (Cons t ts)
  show ?case
  proof (cases t)
    case Cancelled
    then show ?thesis by (subst wait_while_running.simps) simp
  next
    case (Others f)
    show ?thesis
    proof (cases "daemon_is_running (ap_daemon a)")
      case False
      then show ?thesis by (subst wait_while_running.simps) simp
    next
      case True
      then have "rank_of a \<noteq> 0" by (auto simp: daemon_is_running_def rank_of_def)
      with Cons.prems Others have "forward a (f a)" by (simp add: forward_turns_def)
      moreover have "forward (f a) (fst (wait_while_running ts (f a)))"
        using Cons.prems by (intro Cons.IH) (simp add: forward_turns_def)
      ultimately show ?thesis
        using True Others by (subst wait_while_running.simps) (auto intro: forward.R_trans)
    qed
  qed
qed

section \<open>One turn of the loop\<close>

lemma in_app_result:
  "in_app m p = (p', r) \<longleftrightarrow> p' = p\<lparr>pr_app := fst (m (pr_app p))\<rparr> \<and> r = snd (m (pr_app p))"
  by (auto simp: in_app_def case_prod_unfold Let_def)

lemma wait_result: "snd (wait_while_running ts a) \<in> {Inr None, Inr (Some DS_STOPPING)}"
proof (induction ts arbitrary: a)
  case Nil
  show ?case by (subst wait_while_running.simps) simp
next
  case (Cons t ts)
  then show ?case by (cases t; subst wait_while_running.simps) simp_all
qed

text \<open>The state that a handler asks for; only the first handlers leave the tasks alone for sure.\<close>

fun next_state :: "daemon_state \<Rightarrow> daemon_state" where
  "next_state DS_IDLE = DS_CONNECTING"
| "next_state DS_CONNECTING = DS_CONNECTED"
| "next_state DS_CONNECTED = DS_RUNNING"
| "next_state DS_STOPPING = DS_STOPPED"
| "next_state _ = DS_STOPPING"

definition handled :: "'pos process \<Rightarrow> 'pos process \<Rightarrow> daemon_state option res \<Rightarrow> bool" where
  "handled p p' r \<longleftrightarrow> forward (pr_app p) (pr_app p')
     \<and> (\<forall>d. r = Inr (Some d) \<longrightarrow> d = next_state (current p))
     \<and> (current p \<in> {DS_CONNECTING, DS_CONNECTED} \<longrightarrow> pr_tasks p' = pr_tasks p)
     \<and> (current p = DS_IDLE \<longrightarrow> p' = p)
     \<and> (current p = DS_RUNNING \<and> (\<exists>err. r = Inl err) \<longrightarrow> pr_tasks p' = pr_tasks p)
     \<and> (current p = DS_STOPPING \<longrightarrow> pr_tasks p' = [] \<and> current p' = DS_STOPPING \<and> r = Inr (Some DS_STOPPED))"

lemma connected_result: "snd (handle_connected x e a) = Inr d \<Longrightarrow> d = DS_RUNNING"
  by (auto simp: handle_connected_def act_bind_Inr act_seq_Inr)

lemma stopping_result:
  "\<exists>calls. handle_stopping x p = (p\<lparr>pr_tasks := [], pr_app := (pr_app p)
      \<lparr>ap_writer := map_option writer_close (ap_writer (pr_app p)), ap_sink_calls := calls\<rparr>\<rparr>, Inr DS_STOPPED)"
  by (cases "x_sink x SinkClose")
    (auto simp: handle_stopping_def in_app_def act_seq_def act_bind_def act_when_def act_catch_def sink_write_def
      intro: exI [of _ "ap_sink_calls (pr_app p)"])

lemma running_cases:
  assumes "handle_running x e p = (p', r)"
  obtains (failed) a err where "enter_running x e (pr_app p) = (a, Inl err)" "r = Inl err" "p' = p\<lparr>pr_app := a\<rparr>"
  | (waited) a where "enter_running x e (pr_app p) = (a, Inr ())"
      "p' = p\<lparr>pr_app := fst (wait_while_running (rn_turns e) a),
              pr_tasks := [HeartbeatTask, AccountPushTask, ConfigReloadTask]\<rparr>"
      "r = snd (wait_while_running (rn_turns e) a)"
proof (cases "enter_running x e (pr_app p)")
  case (Pair a q)
  with assms failed waited show thesis
    by (cases q) (auto simp: handle_running_def act_seq_def act_bind_def in_app_def case_prod_unfold Let_def)
qed

lemma handler_step:
  assumes x: "forward_helpers x" and turns: "forward_turns (rn_turns (re_running e))"
    and h: "get_state_handlers x e (current p) = Some handler" and run: "handler p = (p', r)"
  shows "handled p p' r"
proof (cases "current p")
  case DS_IDLE
  with h run show ?thesis
    by (auto simp: handled_def get_state_handlers_def handle_idle_def in_app_def act_bind_def
        split: sum.splits)
next
  case DS_CONNECTING
  with h run show ?thesis
    by (auto simp: handled_def get_state_handlers_def handle_connecting_def in_app_def act_bind_def)
next
  case DS_CONNECTED
  obtain a q where c: "handle_connected x (re_connected e) (pr_app p) = (a, q)" by fastforce
  have "forward (pr_app p) a" using act_keepsD [OF forward_connected [OF x]] c by (metis fst_conv)
  moreover have "\<forall>d. q = Inr d \<longrightarrow> d = DS_RUNNING" using connected_result c by (metis snd_conv)
  ultimately show ?thesis
    using DS_CONNECTED h run c
    by (auto simp: handled_def get_state_handlers_def in_app_def act_bind_def split: sum.splits)
next
  case DS_RUNNING
  with h run have "handle_running x (re_running e) p = (p', r)" by (simp add: get_state_handlers_def)
  then show ?thesis
  proof (cases rule: running_cases)
    case (failed a err)
    have "forward (pr_app p) a" using act_keepsD [OF forward_enter [OF x]] failed(1) by (metis fst_conv)
    with failed DS_RUNNING show ?thesis by (simp add: handled_def)
  next
    case (waited a)
    have "forward (pr_app p) a" using act_keepsD [OF forward_enter [OF x]] waited(1) by (metis fst_conv)
    then have "forward (pr_app p) (pr_app p')"
      using forward_wait [OF turns, of a] waited(2) by (auto intro: forward.R_trans)
    with waited(3) wait_result [of "rn_turns (re_running e)" a] DS_RUNNING show ?thesis
      by (auto simp: handled_def)
  qed
next
  case DS_STOPPING
  with h run stopping_result [of x p] show ?thesis
    by (auto simp: handled_def get_state_handlers_def act_bind_def current_def forward_same)
next
  case DS_RUNNING_SUSPENDED
  with h show ?thesis by (simp add: get_state_handlers_def)
next
  case DS_STOPPED
  with h show ?thesis by (simp add: get_state_handlers_def)
qed

lemma run_loop_stopped: "current p = DS_STOPPED \<Longrightarrow> run_loop n x e p = (p, Inr ReachedStopped)"
  by (subst run_loop.simps) simp

text \<open>What is left of the loop after one turn.\<close>

lemma can_move_iff: "daemon_can_transition_to (ap_daemon (pr_app p)) s \<longleftrightarrow> s \<in> daemon_allowed (current p)"
  by (simp add: current_def)

lemma run_loop_turn:
  assumes "current p \<noteq> DS_STOPPED" and "get_state_handlers x e (current p) = Some handler"
    and "handler p = (p', r)"
  shows "run_loop (Suc k) x e p = (case r of
       Inl err \<Rightarrow> if is_exception err then run_loop k x e (after_failure p') else (p', Inl err)
     | Inr None \<Rightarrow> (p', Inr StillRunning)
     | Inr (Some next) \<Rightarrow>
         if next \<in> daemon_allowed (current p') then run_loop k x e (move_daemon next p')
         else (if DS_STOPPING \<in> daemon_allowed (current p')
               then move_daemon DS_STOPPING p' else p', Inr (InvalidTransition (current p) next)))"
  using assms
  by (subst run_loop.simps)
    (simp add: can_move_iff del: daemon_can_transition_iff split: sum.split option.split)

lemma current_move:
  "current (move_daemon s p) = (if s \<in> daemon_allowed (current p) then s else current p)"
  by (simp add: current_def move_daemon_def daemon_transition_current)

lemma move_tasks [simp]: "pr_tasks (move_daemon s p) = pr_tasks p"
  by (simp add: move_daemon_def)

lemma after_failure_current:
  "current (after_failure p) = (case current p of
     DS_IDLE \<Rightarrow> DS_STOPPED | DS_STOPPING \<Rightarrow> DS_STOPPED | DS_STOPPED \<Rightarrow> DS_STOPPED | _ \<Rightarrow> DS_STOPPING)"
  by (cases "current p") (simp_all add: after_failure_def current_move, simp_all add: current_def)

lemma after_failure_tasks [simp]: "pr_tasks (after_failure p) = pr_tasks p"
  by (simp add: after_failure_def)

section \<open>The loop ends\<close>

lemma rank_current: "rank_of (pr_app p) = lifecycle_rank (current p)"
  by (simp add: rank_of_def current_def)

lemma rank_stopped: "5 \<le> lifecycle_rank s \<longleftrightarrow> s = DS_STOPPED"
  by (cases s) simp_all

text \<open>What a turn leaves for the next one: the lifecycle has moved on, and only a stopping process has tasks.\<close>

definition loop_sound :: "'pos process \<Rightarrow> bool" where
  "loop_sound p \<longleftrightarrow> (current p \<noteq> DS_STOPPING \<longrightarrow> pr_tasks p = [])"

lemma next_turn:
  assumes "handled p p' r" and "loop_sound p" and "current p \<notin> {DS_STOPPED, DS_RUNNING_SUSPENDED}"
  shows "r = Inr (Some d) \<Longrightarrow> d \<in> daemon_allowed (current p') \<Longrightarrow>
      lifecycle_rank (current p) < lifecycle_rank (current (move_daemon d p')) \<and> loop_sound (move_daemon d p')"
    and "r = Inl err \<Longrightarrow>
      lifecycle_rank (current p) < lifecycle_rank (current (after_failure p')) \<and> loop_sound (after_failure p')"
proof -
  have f: "lifecycle_rank (current p) \<le> lifecycle_rank (current p')"
    using assms(1) by (simp add: handled_def forward_def rank_current)
  show "r = Inr (Some d) \<Longrightarrow> d \<in> daemon_allowed (current p') \<Longrightarrow>
      lifecycle_rank (current p) < lifecycle_rank (current (move_daemon d p')) \<and> loop_sound (move_daemon d p')"
    using assms by (cases "current p") (auto simp: handled_def loop_sound_def current_move)
  show "r = Inl err \<Longrightarrow>
      lifecycle_rank (current p) < lifecycle_rank (current (after_failure p')) \<and> loop_sound (after_failure p')"
    using assms f
    by (cases "current p"; cases "current p'") (auto simp: handled_def loop_sound_def after_failure_current)
qed

lemma run_loop_fuel:
  assumes "forward_helpers x" and "forward_turns (rn_turns (re_running e))"
  shows "5 - lifecycle_rank (current p) \<le> n \<Longrightarrow> loop_sound p \<Longrightarrow> snd (run_loop n x e p) \<noteq> Inr OutOfFuel"
proof (induction n arbitrary: p)
  case 0
  then have "current p = DS_STOPPED" by (simp add: rank_stopped [symmetric])
  then show ?case by (simp add: run_loop_stopped)
next
  case (Suc k)
  show ?case
  proof (cases "current p = DS_STOPPED \<or> get_state_handlers x e (current p) = None")
    case True
    then show ?thesis by (subst run_loop.simps) auto
  next
    case False
    then obtain handler where h: "get_state_handlers x e (current p) = Some handler" by auto
    obtain p' r where run: "handler p = (p', r)" by fastforce
    have c: "current p \<notin> {DS_STOPPED, DS_RUNNING_SUSPENDED}" using False h by (auto simp: get_state_handlers_def)
    note turn = next_turn [OF handler_step [OF assms h run] Suc.prems(2) c]
    note eq = run_loop_turn [OF _ h run, of k]
    have st: "current p \<noteq> DS_STOPPED" using c by simp
    show ?thesis
    proof (cases r)
      case (Inl err)
      with turn(2) Suc.prems(1) have "snd (run_loop k x e (after_failure p')) \<noteq> Inr OutOfFuel"
        by (intro Suc.IH) auto
      with eq [OF st] Inl show ?thesis by simp
    next
      case (Inr nx)
      show ?thesis
      proof (cases nx)
        case None
        with eq [OF st] Inr show ?thesis by simp
      next
        case (Some d)
        have "snd (run_loop k x e (move_daemon d p')) \<noteq> Inr OutOfFuel" if "d \<in> daemon_allowed (current p')"
          using that turn(1) [OF _ that] Inr Some Suc.prems(1) by (intro Suc.IH) auto
        with eq [OF st] Inr Some show ?thesis by simp
      qed
    qed
  qed
qed

text \<open>A process that is back at \<open>STOPPED\<close> after the loop has no tasks left.\<close>

lemma run_loop_tasks:
  assumes "forward_helpers x" and "forward_turns (rn_turns (re_running e))"
  shows "loop_sound p \<Longrightarrow> run_loop n x e p = (q, r) \<Longrightarrow> current q = DS_STOPPED \<Longrightarrow> pr_tasks q = []"
proof (induction n arbitrary: p)
  case 0
  then show ?case by (auto simp: loop_sound_def run_loop.simps [of 0] split: if_splits)
next
  case (Suc k)
  show ?case
  proof (cases "current p = DS_STOPPED \<or> get_state_handlers x e (current p) = None")
    case True
    with Suc.prems show ?thesis
      by (auto simp: loop_sound_def run_loop.simps [of "Suc k"] split: if_splits)
  next
    case False
    then obtain handler where h: "get_state_handlers x e (current p) = Some handler" by auto
    obtain p' q' where run: "handler p = (p', q')" by fastforce
    have c: "current p \<notin> {DS_STOPPED, DS_RUNNING_SUSPENDED}" using False h by (auto simp: get_state_handlers_def)
    have hd: "handled p p' q'" by (rule handler_step [OF assms h run])
    note turn = next_turn [OF hd Suc.prems(1) c]
    have alive: "current p' \<noteq> DS_STOPPED"
    proof (cases "current p = DS_IDLE")
      case True
      with hd c show ?thesis by (simp add: handled_def)
    next
      case started: False
      with c have "1 \<le> lifecycle_rank (current p) \<and> lifecycle_rank (current p) \<le> 4" by (cases "current p") simp_all
      with hd have "lifecycle_rank (current p') \<le> 4" by (simp add: handled_def forward_def rank_current)
      then show ?thesis by auto
    qed
    have dead_end: "current (if DS_STOPPING \<in> daemon_allowed (current p')
        then move_daemon DS_STOPPING p' else p') \<noteq> DS_STOPPED"
      using alive by (simp add: current_move)
    show ?thesis
    proof (cases q')
      case (Inl err)
      with run_loop_turn [OF _ h run, of k] c Suc.prems alive turn(2) Suc.IH show ?thesis
        by (auto split: if_splits)
    next
      case (Inr nx)
      show ?thesis
      proof (cases nx)
        case None
        with Inr run_loop_turn [OF _ h run, of k] c Suc.prems alive show ?thesis by auto
      next
        case (Some d)
        with Inr run_loop_turn [OF _ h run, of k] c Suc.prems dead_end turn(1) Suc.IH show ?thesis
          by (auto split: if_splits)
      qed
    qed
  qed
qed

section \<open>Properties\<close>

lemma clean_up_stops: "current (clean_up x p) = DS_STOPPED"
proof -
  let ?p1 = "if current p \<noteq> DS_STOPPING then move_daemon DS_STOPPING p else p"
  have "current (fst (handle_stopping x ?p1)) = current ?p1"
    using stopping_result [of x ?p1] by (auto simp: current_def)
  moreover have "current p \<noteq> DS_STOPPED \<Longrightarrow> DS_STOPPED \<in> daemon_allowed (current ?p1)"
    by (cases "current p") (simp_all add: current_move)
  ultimately show ?thesis by (simp add: clean_up_def current_move Let_def)
qed

lemma clean_up_tasks: "current p \<noteq> DS_STOPPED \<Longrightarrow> pr_tasks (clean_up x p) = []"
  using stopping_result [of x "if current p \<noteq> DS_STOPPING then move_daemon DS_STOPPING p else p"]
  by (auto simp: clean_up_def Let_def)

lemma run_result:
  assumes "run_loop 6 x e p = (p', r)"
  shows "run x e p = (if r = Inr StillRunning then (p', r) else (clean_up x p', r))"
  using assms by (auto simp: run_def split: sum.split run_exit.split)

lemma run_ends:
  assumes "forward_helpers x" and "forward_turns (rn_turns (re_running e))" and "pr_tasks p = []"
    and "run x e p = (q, r)"
  shows "r \<noteq> Inr OutOfFuel \<and> (r \<noteq> Inr StillRunning \<longrightarrow> current q = DS_STOPPED \<and> pr_tasks q = [])"
proof -
  obtain p' r' where loop: "run_loop 6 x e p = (p', r')" by fastforce
  have sound: "loop_sound p" using assms(3) by (simp add: loop_sound_def)
  have "r' \<noteq> Inr OutOfFuel" using run_loop_fuel [OF assms(1,2), of p 6] sound loop by simp
  moreover have "pr_tasks (clean_up x p') = []"
    using run_loop_tasks [OF assms(1,2) sound loop] clean_up_tasks [of p' x]
    by (cases "current p' = DS_STOPPED") (auto simp: clean_up_def)
  moreover have "q = (if r = Inr StillRunning then p' else clean_up x p')" "r = r'"
    using run_result [OF loop] assms(4) by (auto split: if_splits)
  ultimately show ?thesis using clean_up_stops [of x p'] by simp
qed

text \<open>
  The run loop always ends stopped: from any state of the lifecycle without background tasks, whatever
  the handlers raise and wherever a stop request comes in, the loop returns within its six turns or the
  running handler is still waiting; once \<open>run\<close> returns, the lifecycle is \<open>STOPPED\<close> and no task is left.
\<close>

theorem run_always_stops:
  assumes "forward_helpers x" and "forward_turns (rn_turns (re_running e))" and "pr_tasks p = []"
    and "run x e p = (q, r)"
  shows "r \<noteq> Inr OutOfFuel \<and> (r \<noteq> Inr StillRunning \<longrightarrow> current q = DS_STOPPED \<and> pr_tasks q = [])"
  using assms by (rule run_ends)

lemma wait_ends:
  "Others stop \<in> set ts \<Longrightarrow> Cancelled \<notin> set ts \<Longrightarrow>
     snd (wait_while_running ts a) = Inr (Some DS_STOPPING)
     \<and> \<not> daemon_is_running (ap_daemon (fst (wait_while_running ts a)))"
proof (induction ts arbitrary: a)
  case Nil
  then show ?case by simp
next
  case (Cons t ts)
  then obtain f where t: "t = Others f" by (cases t) auto
  show ?case
  proof (cases "daemon_is_running (ap_daemon a)")
    case False
    then show ?thesis by (subst (1 2) wait_while_running.simps) simp
  next
    case True
    have "snd (wait_while_running ts (f a)) = Inr (Some DS_STOPPING)
      \<and> \<not> daemon_is_running (ap_daemon (fst (wait_while_running ts (f a))))"
    proof (cases "daemon_is_running (ap_daemon (f a))")
      case False
      then show ?thesis by (subst (1 2) wait_while_running.simps) simp
    next
      case still: True
      have "f \<noteq> stop"
      proof
        assume "f = stop"
        with True still show False
          by (cases "d_current (ap_daemon a)")
            (simp_all add: stop_def daemon_is_running_def daemon_request_stop_current)
      qed
      with Cons t show ?thesis by simp
    qed
    with True t show ?thesis by (subst (1 2) wait_while_running.simps) simp
  qed
qed

text \<open>
  C15. A stop ends a running daemon, by way of the error exit: when any task or signal handler requests a
  stop while the running handler waits, \<open>run\<close> returns with the lifecycle \<open>STOPPED\<close> and every task gone; the
  handler asks for \<open>STOPPING\<close>, where the request has already moved the machine, and the loop ends on an
  invalid transition.
\<close>

theorem stop_ends_a_running_daemon:
  assumes "forward_helpers x" and "forward_turns (rn_turns (re_running e))"
    and "current p = DS_RUNNING" and "pr_tasks p = []"
    and "snd (enter_running x (re_running e) (pr_app p)) = Inr ()"
    and "Others stop \<in> set (rn_turns (re_running e))" and "Cancelled \<notin> set (rn_turns (re_running e))"
  shows "\<exists>q. run x e p = (q, Inr (InvalidTransition DS_RUNNING DS_STOPPING))
    \<and> current q = DS_STOPPED \<and> pr_tasks q = []"
proof -
  obtain a where enter: "enter_running x (re_running e) (pr_app p) = (a, Inr ())"
    using assms(5) by (metis prod.collapse)
  obtain p' r where h: "handle_running x (re_running e) p = (p', r)" by fastforce
  from h have w: "r = Inr (Some DS_STOPPING)" "\<not> daemon_is_running (ap_daemon (pr_app p'))"
    using wait_ends [OF assms(6,7), of a] enter by (cases rule: running_cases; simp)+
  have handler: "get_state_handlers x e (current p) = Some (handle_running x (re_running e))"
    using assms(3) by (simp add: get_state_handlers_def)
  have "handled p p' r" by (rule handler_step [OF assms(1,2) handler h])
  then have "lifecycle_rank (current p') \<in> {3, 4}"
    using assms(3) by (auto simp: handled_def forward_def rank_current)
  with w(2) have c: "current p' = DS_STOPPING"
    by (cases "current p'") (auto simp: daemon_is_running_def current_def)
  have "run_loop (Suc 5) x e p = (p', Inr (InvalidTransition DS_RUNNING DS_STOPPING))"
    using run_loop_turn [OF _ handler h, of 5] assms(3) w(1) c by simp
  then have "run_loop 6 x e p = (p', Inr (InvalidTransition DS_RUNNING DS_STOPPING))"
    by (simp add: numeral_eq_Suc)
  from run_result [OF this] have "run x e p = (clean_up x p', Inr (InvalidTransition DS_RUNNING DS_STOPPING))"
    by simp
  with clean_up_stops [of x p'] clean_up_tasks [of p' x] c show ?thesis by simp
qed

section \<open>Witnesses\<close>

definition sample_connected :: connected_env where
  "sample_connected = \<lparr>cn_client = True, cn_edge = Inr [], cn_now = Fin 1000, cn_refresh = clock_at 1000,
     cn_dict_ts = Fin 1000\<rparr>"

definition sample_run :: "unit run_env" where
  "sample_run = \<lparr>re_idle = Inr (False, None), re_connected = sample_connected,
     re_running = \<lparr>rn_status = Inr (False, None), rn_dict_ts = Fin 1000, rn_client = True, rn_edge = Inr [],
       rn_turns = [Others id, Others stop, Others id]\<rparr>\<rparr>"

lemma sample_forward:
  "forward_helpers sample_ext" "forward_turns (rn_turns (re_running sample_run))"
proof -
  show "forward_helpers sample_ext"
    by (simp add: forward_helpers_def sample_ext_def forward.keeps_pure)
  show "forward_turns (rn_turns (re_running sample_run))"
    by (auto simp: forward_turns_def sample_run_def stop_forward)
qed

lemma run_always_stops_witness:
  "\<exists>q r. run sample_ext sample_run \<lparr>pr_app = sample_app T_BOOT, pr_tasks = []\<rparr> = (q, r)
     \<and> r \<noteq> Inr OutOfFuel"
proof -
  obtain q r where q: "run sample_ext sample_run \<lparr>pr_app = sample_app T_BOOT, pr_tasks = []\<rparr> = (q, r)" by fastforce
  from run_always_stops [OF sample_forward _ q] q show ?thesis by simp
qed

lemma stop_ends_a_running_daemon_witness:
  "\<exists>q. run sample_ext sample_run \<lparr>pr_app = running_app, pr_tasks = []\<rparr>
     = (q, Inr (InvalidTransition DS_RUNNING DS_STOPPING)) \<and> current q = DS_STOPPED"
proof -
  have "snd (enter_running sample_ext (re_running sample_run) running_app) = Inr ()" by code_simp
  then show ?thesis
    using stop_ends_a_running_daemon [OF sample_forward, of "\<lparr>pr_app = running_app, pr_tasks = []\<rparr>"]
    by (auto simp: current_def running_app_def sample_run_def)
qed

end
