(* ===== verification/Entry.thy ===== *)
theory Entry imports DaemonRun Lease begin

text \<open>
  The entry point, \<open>app/entry.py\<close> and \<open>scripts/run_daemon.py\<close>: settings taken from the database, the
  service that a leader runs, and the end of leadership. What the database answers is an argument.
\<close>

section \<open>Settings from the database\<close>

definition db_configured :: "pydict \<Rightarrow> bool" where
  "db_configured config \<longleftrightarrow>
     config \<noteq> [] \<and> (dget config ''sink'' VNone = VStr ''postgres'' \<or> truthy (dget config ''postgres'' VNone))"

text \<open>
  The answers: the id of the active row or \<open>None\<close>, and the row by id. A failing connection is a failing
  first answer; a failure of either is logged and the configuration used as it is.
\<close>

record db_answers =
  db_active :: "pyval res"
  db_row :: "pyval \<Rightarrow> pyval res"

definition inject_gates_from_db :: "db_answers \<Rightarrow> pydict \<Rightarrow> pydict" where
  "inject_gates_from_db db config =
     (if \<not> db_configured config then config
      else case db_active db of
             Inl _ \<Rightarrow> config
           | Inr gid \<Rightarrow>
               if gid = VNone then config
               else case db_row db gid of
                      Inl _ \<Rightarrow> config
                    | Inr gates \<Rightarrow> if truthy gates then dput config ''gates'' gates else config)"

definition inject_structure_from_db :: "db_answers \<Rightarrow> pydict \<Rightarrow> pydict" where
  "inject_structure_from_db db config =
     (if \<not> db_configured config then config
      else case db_active db of
             Inl _ \<Rightarrow> config
           | Inr sid \<Rightarrow>
               if sid = VNone then config
               else case db_row db sid of
                      Inl _ \<Rightarrow> config
                    | Inr row \<Rightarrow> if row = VNone then config
                                else dput config ''active_strategy_structure'' row)"

section \<open>The service\<close>

record entry_env =
  en_leading :: fl
  en_file :: "pydict res"
  en_gates :: db_answers
  en_structure :: db_answers
  en_pghost :: bool
  en_mono :: fl

definition service_config :: "entry_env \<Rightarrow> pydict \<Rightarrow> pydict" where
  "service_config e file = inject_structure_from_db (en_structure e) (inject_gates_from_db (en_gates e) file)"

definition service_app :: "('pos, 'leg) ext \<Rightarrow> entry_env \<Rightarrow> daemon_health \<Rightarrow> 'pos app res" where
  "service_app x e health =
     rbind (en_file e) (\<lambda>file.
       mk_app x (service_config e file) (en_pghost e) (en_mono e) (mark_leading (en_leading e) health))"

text \<open>\<open>_run_gs_trading\<close>: the run, and then the report of a graceful shutdown, also after an exception.\<close>

definition run_gs_trading :: "('pos, 'leg) ext \<Rightarrow> 'pos run_env \<Rightarrow> ('pos process, run_exit) act" where
  "run_gs_trading x e p =
     (case run x e p of
        (q, Inr StillRunning) \<Rightarrow> (q, Inr StillRunning)
      | (q, r) \<Rightarrow>
          (case in_app (act_bind (act_get ap_has_sink) (\<lambda>has_sink.
                  act_when (has_sink \<and> x_sink_can x ''write_daemon_graceful_shutdown'')
                    (sink_write x GracefulShutdown))) q of
             (q', Inl err) \<Rightarrow> (q', Inl err)
           | (q', Inr _) \<Rightarrow> (q', r)))"

definition service ::
  "('pos, 'leg) ext \<Rightarrow> entry_env \<Rightarrow> 'pos run_env \<Rightarrow> daemon_health \<Rightarrow> ('pos process \<times> run_exit res) res" where
  "service x e re health =
     rmap (\<lambda>a. run_gs_trading x re \<lparr>pr_app = a, pr_tasks = []\<rparr>) (service_app x e health)"

text \<open>\<open>_on_leadership_lost\<close>: the application exists once the service has built it.\<close>

definition on_leadership_lost :: "'pos app option \<Rightarrow> 'pos app option" where
  "on_leadership_lost holder = map_option stop holder"

section \<open>Properties\<close>

lemma mk_app_config: "mk_app x config pghost t0 health = Inr a \<Longrightarrow>
    ap_config a = config \<and> ap_guard a = guard_of_config (x_hedge x config) \<and> ap_last_config_mtime a = None"
  by (auto simp: mk_app_def Let_def rbind_Inr_iff)


lemma in_app_sink:
  "in_app (act_bind (act_get ap_has_sink) (\<lambda>h. act_when (h \<and> c) (sink_write x k))) q = (q', r) \<Longrightarrow>
     pr_tasks q' = pr_tasks q \<and> current q' = current q
     \<and> (ap_has_sink (pr_app q') \<and> c \<longrightarrow> ap_sink_calls (pr_app q') = ap_sink_calls (pr_app q) @ [k])"
  by (auto simp: in_app_def act_when_def sink_write_def current_def split: if_splits)

lemma run_gs_trading_ends:
  assumes "forward_helpers x" and "forward_turns (rn_turns (re_running re))"
    and "run_gs_trading x re \<lparr>pr_app = a, pr_tasks = []\<rparr> = (q, r)" and "r \<noteq> Inr StillRunning"
  shows "current q = DS_STOPPED" and "pr_tasks q = []"
    and "ap_has_sink (pr_app q) \<and> x_sink_can x ''write_daemon_graceful_shutdown'' \<longrightarrow>
      (\<exists>calls. ap_sink_calls (pr_app q) = calls @ [GracefulShutdown])"
proof -
  obtain m s where run: "run x re \<lparr>pr_app = a, pr_tasks = []\<rparr> = (m, s)" by fastforce
  have s: "s \<noteq> Inr StillRunning" using assms(3,4) run by (auto simp: run_gs_trading_def)
  then have m: "current m = DS_STOPPED" "pr_tasks m = []"
    using run_ends [OF assms(1,2) _ run] by simp_all
  obtain q' k where k: "in_app (act_bind (act_get ap_has_sink) (\<lambda>has_sink.
      act_when (has_sink \<and> x_sink_can x ''write_daemon_graceful_shutdown'') (sink_write x GracefulShutdown))) m = (q', k)"
    by fastforce
  have "run_gs_trading x re \<lparr>pr_app = a, pr_tasks = []\<rparr> = (q', case k of Inl err \<Rightarrow> Inl err | Inr _ \<Rightarrow> s)"
    using run s k by (auto simp: run_gs_trading_def split: sum.split run_exit.split)
  then have "q = q'" using assms(3) by simp
  with in_app_sink [OF k] m show "current q = DS_STOPPED" "pr_tasks q = []"
    "ap_has_sink (pr_app q) \<and> x_sink_can x ''write_daemon_graceful_shutdown'' \<longrightarrow>
      (\<exists>calls. ap_sink_calls (pr_app q) = calls @ [GracefulShutdown])" by simp_all
qed

text \<open>
  The service leaves a stopped daemon and says so: when the run of a service has returned or raised,
  the lifecycle is \<open>STOPPED\<close>, no background task is left, the health record says since when the pod leads,
  and the last call of a sink that can take it is the report of the graceful shutdown.
\<close>

theorem service_ends_stopped:
  assumes "service_app x e health = Inr a"
    and "forward_helpers x" and "forward_turns (rn_turns (re_running re))"
    and "service x e re health = Inr (q, r)" and "r \<noteq> Inr StillRunning"
  shows "current q = DS_STOPPED \<and> pr_tasks q = [] \<and> dh_leader_since (ap_health a) = Some (en_leading e)
    \<and> (ap_has_sink (pr_app q) \<and> x_sink_can x ''write_daemon_graceful_shutdown'' \<longrightarrow>
          (\<exists>calls. ap_sink_calls (pr_app q) = calls @ [GracefulShutdown]))"
proof -
  from assms(1,4) have r: "run_gs_trading x re \<lparr>pr_app = a, pr_tasks = []\<rparr> = (q, r)"
    by (simp add: service_def)
  have "dh_leader_since (ap_health a) = Some (en_leading e)"
    using assms(1) by (auto simp: service_app_def mk_app_def Let_def rbind_Inr_iff mark_leading_def)
  with run_gs_trading_ends [OF assms(2,3) r assms(5)] show ?thesis by simp
qed

section \<open>Witnesses\<close>

definition sample_db :: db_answers where
  "sample_db = \<lparr>db_active = Inr (VInt 7), db_row = (\<lambda>_. Inr (VDict [(''max_daily'', VInt 1)]))\<rparr>"

definition sample_settings :: pydict where
  "sample_settings = [(''postgres'', VDict [(''host'', VStr ''db'')])]"

definition sample_entry :: entry_env where
  "sample_entry = \<lparr>en_leading = Fin 1000, en_file = Inr sample_settings, en_gates = sample_db,
     en_structure = \<lparr>db_active = Inr VNone, db_row = (\<lambda>_. Inr VNone)\<rparr>, en_pghost = False, en_mono = Fin 1\<rparr>"

lemma sample_service:
  obtains a where "service_app sample_ext sample_entry health_init = Inr a" "ap_has_sink a"
    "d_current (ap_daemon a) = DS_IDLE"
  by (auto simp: service_app_def sample_entry_def sample_settings_def mk_app_def service_config_def sample_ext_def
      inject_structure_from_db_def inject_gates_from_db_def db_configured_def sample_db_def dget_def dput_def
      py_or_def vget_def rbind_def daemon_init_def Let_def)


lemma sample_service_run:
  obtains a q r where "service_app sample_ext sample_entry health_init = Inr a"
    and "service sample_ext sample_entry sample_run health_init = Inr (q, r)" and "r \<noteq> Inr StillRunning"
proof -
  obtain a where a: "service_app sample_ext sample_entry health_init = Inr a" by (rule sample_service)
  then obtain q r where qr: "service sample_ext sample_entry sample_run health_init = Inr (q, r)"
    by (auto simp: service_def intro: prod.exhaust [of "run_gs_trading sample_ext sample_run \<lparr>pr_app = a, pr_tasks = []\<rparr>"])
  have "case service sample_ext sample_entry sample_run health_init of
      Inl _ \<Rightarrow> False | Inr (q, Inr StillRunning) \<Rightarrow> False | Inr _ \<Rightarrow> True" by code_simp
  with qr have "r \<noteq> Inr StillRunning" by auto
  with that a qr show ?thesis by blast
qed

lemma service_ends_stopped_witness:
  "\<exists>q r. service sample_ext sample_entry sample_run health_init = Inr (q, r) \<and> current q = DS_STOPPED"
proof -
  obtain a q r where "service_app sample_ext sample_entry health_init = Inr a"
    and qr: "service sample_ext sample_entry sample_run health_init = Inr (q, r)" and "r \<noteq> Inr StillRunning"
    by (rule sample_service_run)
  from service_ends_stopped [OF this(1) sample_forward this(2,3)] qr show ?thesis by blast
qed

end
