(* ===== verification/LeaderRun.thy ===== *)
theory LeaderRun imports Entry begin

text \<open>
  The whole process: \<open>run_daemon_with_lease\<close> of \<open>lease.py\<close> over \<open>acquire\<close>, \<open>renew_until_lost\<close> and
  \<open>run_with_leadership\<close>, and \<open>run_daemon\<close> of \<open>app/entry.py\<close> with the service of this repository. The
  service is a function of whether its task is cancelled; the callback of a lost leadership, which stops
  the application just before, is one of the readings of the cancelled run.
\<close>

section \<open>The lease around a service\<close>

text \<open>
  The readings of the two loops of the elector, and after how many turns of the renew loop the service
  ends by itself, if it does.
\<close>

record 'b lead_env =
  ld_standby :: "'b lease_turn list"
  ld_renew :: "'b lease_turn list"
  ld_service_ends :: "nat option"

datatype 'q lead_outcome =
  StillWaiting
| NeverLed
| StillLeading
| Served 'q "pyexc option"

definition leadership_outcome ::
  "(bool \<Rightarrow> 'q \<times> pyexc option) \<Rightarrow> leadership_exit option \<Rightarrow> 'q lead_outcome" where
  "leadership_outcome svc ended =
     (case ended of None \<Rightarrow> NeverLed
      | Some x \<Rightarrow> Served (fst (svc (le_cancel_service x))) (le_raises x))"

definition renew_turns :: "'b lead_env \<Rightarrow> 'b lease_turn list" where
  "renew_turns e = (case ld_service_ends e of None \<Rightarrow> ld_renew e | Some k \<Rightarrow> take k (ld_renew e))"

text \<open>Both tasks run until the first of them is done; they do not end in the same turn of the event loop.\<close>

definition lead_and_serve ::
  "'b backend_ops \<Rightarrow> 'b lead_env \<Rightarrow> (bool \<Rightarrow> 'q \<times> pyexc option) \<Rightarrow> elector \<times> 'b
   \<Rightarrow> (elector \<times> 'b) \<times> 'q lead_outcome" where
  "lead_and_serve ops e svc s =
     (case renew_until_lost ops (renew_turns e) s of
        (s', Some _) \<Rightarrow> (s', leadership_outcome svc (run_with_leadership True None True))
      | (s', None) \<Rightarrow>
          (s', if ld_service_ends e = None then StillLeading
               else leadership_outcome svc (run_with_leadership True (Some (snd (svc False))) False)))"

definition run_leadership ::
  "'b backend_ops \<Rightarrow> 'b lead_env \<Rightarrow> (bool \<Rightarrow> 'q \<times> pyexc option) \<Rightarrow> elector \<times> 'b
   \<Rightarrow> (elector \<times> 'b) \<times> 'q lead_outcome" where
  "run_leadership ops e svc s =
     (case acquire ops (ld_standby e) s of
        (s', None) \<Rightarrow> (s', StillWaiting)
      | (s', Some acquired) \<Rightarrow>
          if \<not> acquired then (s', leadership_outcome svc (run_with_leadership acquired None False))
          else lead_and_serve ops e svc s')"

definition run_daemon_with_lease ::
  "daemon_lease_settings \<Rightarrow> 'b backend_ops \<Rightarrow> 'b lead_env \<Rightarrow> (bool \<Rightarrow> 'q \<times> pyexc option) \<Rightarrow> 'b
   \<Rightarrow> (elector \<times> 'b) \<times> 'q lead_outcome" where
  "run_daemon_with_lease st ops e svc b =
     (let s = (build_daemon_elector st, b)
      in if \<not> ls_enabled st then (s, Served (fst (svc False)) (snd (svc False)))
         else run_leadership ops e svc s)"

section \<open>The daemon as the service\<close>

text \<open>
  The readings of one process. The run of the service has readings of its own for the case that its task
  is cancelled, and the run that is never waited for to its end is \<open>StillRunning\<close>.
\<close>

record ('b, 'pos) process_env =
  pe_config :: "pydict res"
  pe_environment :: lease_environment
  pe_hostname :: string
  pe_lease :: "'b lead_env"
  pe_entry :: entry_env
  pe_run :: "bool \<Rightarrow> 'pos run_env"
  pe_health :: daemon_health

definition daemon_task ::
  "('pos, 'leg) ext \<Rightarrow> ('b, 'pos) process_env \<Rightarrow> bool \<Rightarrow> ('pos process \<times> run_exit res) res \<times> pyexc option" where
  "daemon_task x e cancelled =
     (let r = service x (pe_entry e) (pe_run e cancelled) (pe_health e)
      in (r, case r of Inl err \<Rightarrow> Some err | Inr (_, Inl err) \<Rightarrow> Some err | Inr (_, Inr _) \<Rightarrow> None))"

definition run_daemon ::
  "(pyval \<Rightarrow> string) \<Rightarrow> ('pos, 'leg) ext \<Rightarrow> 'b backend_ops \<Rightarrow> ('b, 'pos) process_env \<Rightarrow> 'b
   \<Rightarrow> ((elector \<times> 'b) \<times> ('pos process \<times> run_exit res) res lead_outcome) res" where
  "run_daemon rep x ops e b =
     rbind (pe_config e) (\<lambda>config.
     rbind (get_daemon_lease_settings rep (pe_environment e) (pe_hostname e) config) (\<lambda>st.
       Inr (run_daemon_with_lease st ops (pe_lease e) (daemon_task x e) b)))"

text \<open>The script \<open>scripts/run_daemon.py\<close> takes the path of the configuration from its command line.\<close>

definition script_config_path :: "string list \<Rightarrow> string option" where
  "script_config_path argv = (if 1 < length argv then Some (argv ! 1) else None)"

definition run_daemon_script ::
  "(pyval \<Rightarrow> string) \<Rightarrow> ('pos, 'leg) ext \<Rightarrow> 'b backend_ops \<Rightarrow> string list \<Rightarrow> (string option \<Rightarrow> ('b, 'pos) process_env)
   \<Rightarrow> 'b \<Rightarrow> ((elector \<times> 'b) \<times> ('pos process \<times> run_exit res) res lead_outcome) res" where
  "run_daemon_script rep x ops argv env b = run_daemon rep x ops (env (script_config_path argv)) b"

section \<open>Who serves\<close>

lemma leadership_outcome_simps [simp]:
  "leadership_outcome svc (run_with_leadership True None r) = Served (fst (svc True)) None"
  "leadership_outcome svc (run_with_leadership True (Some err) r) = Served (fst (svc False)) err"
  "leadership_outcome svc (run_with_leadership False d r) = NeverLed"
  by (simp_all add: leadership_outcome_def run_with_leadership_def split: option.split)

lemma lead_and_serve_Served:
  assumes "lead_and_serve ops e svc s = (s', Served q err)"
  obtains "q = fst (svc True)" "err = None" "snd (renew_until_lost ops (renew_turns e) s) \<noteq> None"
      "s' = fst (renew_until_lost ops (renew_turns e) s)"
  | "(q, err) = svc False" "ld_service_ends e \<noteq> None"
  using assms
  by (auto simp: lead_and_serve_def split: prod.splits option.splits if_splits)

lemma lease_Served:
  assumes "run_daemon_with_lease st ops e svc b = (s', Served q err)" and "ls_enabled st"
  obtains s where "acquire ops (ld_standby e) (build_daemon_elector st, b) = (s, Some True)"
    and "lead_and_serve ops e svc s = (s', Served q err)"
  using assms
  by (auto simp: run_daemon_with_lease_def run_leadership_def Let_def split: prod.splits option.splits if_splits)

lemma stop_was_read:
  "renew_until_lost ops ts s = (s', Some StoppedByRequest) \<Longrightarrow> \<exists>t\<in>set ts. lt_stop t \<or> lt_stop_after t"
  by (induction ops ts s rule: renew_until_lost.induct) (auto simp: Let_def split: if_splits prod.splits)

lemma renew_end_demotes:
  assumes "renew_until_lost mem_ops ts s = (s', Some r)" and "r \<noteq> StoppedByRequest"
  shows "\<not> el_is_leader (fst s')"
proof -
  have ts: "ts \<noteq> []" using assms(1) by auto
  have "\<not> el_is_leader e'" if "try_acquire_or_renew mem_ops now (e, b) = ((e', b'), HELD_BY_OTHER)" for now e b e' b'
    using mem_lease.tick_held [OF that] by simp
  moreover have "el_last_renew e' = now"
    if "try_acquire_or_renew mem_ops now (e, b) = ((e', b'), att)" "leads att" for now e b e' b' att
    using mem_lease.tick_leads [OF that] by auto
  ultimately show ?thesis using renew_loop [of mem_ops ts s s' "Some r", OF _ _ assms(1) ts] assms(2)
    by (cases r) auto
qed

lemma run_daemon_served:
  assumes "run_daemon rep x ops e b = Inr (s', Served q err)"
  obtains c where "q = fst (daemon_task x e c)"
proof -
  from assms obtain st where run: "run_daemon_with_lease st ops (pe_lease e) (daemon_task x e) b = (s', Served q err)"
    by (auto simp: run_daemon_def rbind_Inr_iff)
  show ?thesis
  proof (cases "ls_enabled st")
    case True
    with run obtain s where "lead_and_serve ops (pe_lease e) (daemon_task x e) s = (s', Served q err)"
      by (rule lease_Served)
    then show ?thesis by (rule lead_and_serve_Served) (use that in \<open>metis fst_conv\<close>)+
  next
    case False
    with run that show ?thesis by (auto simp: run_daemon_with_lease_def Let_def)
  qed
qed

section \<open>Properties\<close>



section \<open>Witnesses\<close>

definition sample_lease_settings :: daemon_lease_settings where
  "sample_lease_settings = \<lparr>ls_enabled = True, ls_namespace = ''default'', ls_name = ''bifrost-daemon'',
     ls_identity = ''pod-a'', ls_lease_duration = Fin 15, ls_renew_deadline = Fin 10, ls_retry_period = Fin 2\<rparr>"

definition sample_lead :: "mem_backend lead_env" where
  "sample_lead = \<lparr>ld_standby = [sample_turn 100],
     ld_renew = [sample_turn 102, (sample_turn 104)\<lparr>lt_others := other_holder\<rparr>], ld_service_ends = None\<rparr>"


definition sample_process :: "(mem_backend, unit) process_env" where
  "sample_process = \<lparr>pe_config = Inr [], pe_environment = sample_environment, pe_hostname = ''host'',
     pe_lease = sample_lead\<lparr>ld_service_ends := Some 1\<rparr>, pe_entry = sample_entry, pe_run = (\<lambda>_. sample_run),
     pe_health = health_init\<rparr>"

lemma sample_lease_served:
  "\<exists>st s'. get_daemon_lease_settings (\<lambda>_. ''?'') sample_environment ''host'' [] = Inr st
     \<and> run_daemon_with_lease st mem_ops (sample_lead\<lparr>ld_service_ends := Some 1\<rparr>) svc mem_init
        = (s', Served (fst (svc False)) (snd (svc False)))"
proof -
  let ?e = "sample_lead\<lparr>ld_service_ends := Some 1\<rparr>"
  let ?a = "acquire mem_ops (ld_standby ?e) (build_daemon_elector sample_lease_settings, mem_init)"
  have st: "get_daemon_lease_settings (\<lambda>_. ''?'') sample_environment ''host'' [] = Inr sample_lease_settings"
    by code_simp
  have a: "snd ?a = Some True" by code_simp
  have "snd (renew_until_lost mem_ops (renew_turns ?e) (fst ?a)) = None" by code_simp
  then obtain s' where r: "renew_until_lost mem_ops (renew_turns ?e) (fst ?a) = (s', None)" by (metis prod.collapse)
  have "ls_enabled sample_lease_settings" by (simp add: sample_lease_settings_def)
  moreover have "?a = (fst ?a, Some True)" using a by (metis prod.collapse)
  ultimately have "run_daemon_with_lease sample_lease_settings mem_ops ?e svc mem_init
      = lead_and_serve mem_ops ?e svc (fst ?a)"
    by (auto simp: run_daemon_with_lease_def run_leadership_def Let_def split: prod.split option.split)
  also have "\<dots> = (s', Served (fst (svc False)) (snd (svc False)))"
    unfolding lead_and_serve_def r by simp
  finally show ?thesis using st by blast
qed


end
