(* ===== verification/SyncLead.thy ===== *)
theory SyncLead imports LeaderRun begin

text \<open>
  \<open>run_with_leadership_sync\<close> of \<open>lease.py\<close>: the leadership around a service that runs in a thread. A task
  watches the stop event of the caller and passes it on to the event loop; losing the leadership, or the
  end of the orchestration, sets the stop event of the service.
\<close>

section \<open>The callback of a lost leadership\<close>

text \<open>A callback acts on the caller's state; what it raises is only logged.\<close>

definition safe_call :: "('c, unit) act option \<Rightarrow> 'c \<Rightarrow> 'c" where
  "safe_call cb c = (case cb of None \<Rightarrow> c | Some f \<Rightarrow> fst (f c))"

definition sync_stopped_leading :: "('c, unit) act option \<Rightarrow> bool \<times> 'c \<Rightarrow> bool \<times> 'c" where
  "sync_stopped_leading prev w = (True, safe_call prev (snd w))"

section \<open>The stop event\<close>

text \<open>
  A turn of a loop with the readings of the caller's stop event that the watcher took before the loop
  looked at its own event, and during the wait of the turn. In standby the loop looks once in a turn, so
  the readings of the wait belong to the next turn.
\<close>

record 'b sync_turn =
  st_turn :: "'b lease_turn"
  st_polls :: "bool list"
  st_polls_after :: "bool list"

fun watch_outer_stop :: "bool \<Rightarrow> bool list \<Rightarrow> bool" where
  "watch_outer_stop is_stopped [] = is_stopped"
| "watch_outer_stop is_stopped (p # ps) = (if is_stopped \<or> p then True else watch_outer_stop False ps)"

fun standby_turns :: "bool \<Rightarrow> 'b sync_turn list \<Rightarrow> 'b lease_turn list" where
  "standby_turns is_stopped [] = []"
| "standby_turns is_stopped (t # ts) =
     (let now = watch_outer_stop is_stopped (st_polls t)
      in (st_turn t)\<lparr>lt_stop := now\<rparr> # standby_turns now ts)"

fun leading_turns :: "bool \<Rightarrow> 'b sync_turn list \<Rightarrow> 'b lease_turn list" where
  "leading_turns is_stopped [] = []"
| "leading_turns is_stopped (t # ts) =
     (let now = watch_outer_stop is_stopped (st_polls t); after = watch_outer_stop now (st_polls_after t)
      in (st_turn t)\<lparr>lt_stop := now, lt_stop_after := after\<rparr> # leading_turns after ts)"

record 'b sync_env =
  sy_standby :: "'b sync_turn list"
  sy_renew :: "'b sync_turn list"
  sy_service_ends :: "nat option"

definition sync_lead_env :: "'b sync_env \<Rightarrow> 'b lead_env" where
  "sync_lead_env e =
     \<lparr>ld_standby = standby_turns False (sy_standby e), ld_renew = leading_turns False (sy_renew e),
      ld_service_ends = sy_service_ends e\<rparr>"

section \<open>The run\<close>

text \<open>
  The service is a function of whether its stop event is set while it runs. The result holds whether that
  event is set in the end, and the caller's state after the callbacks.
\<close>

definition run_with_leadership_sync ::
  "'b backend_ops \<Rightarrow> 'b sync_env \<Rightarrow> ('c, unit) act option \<Rightarrow> (bool \<Rightarrow> 'q \<times> pyexc option) \<Rightarrow> elector \<times> 'b \<Rightarrow> 'c
   \<Rightarrow> (elector \<times> 'b) \<times> 'q lead_outcome \<times> bool \<times> 'c" where
  "run_with_leadership_sync ops e prev run_service s c =
     (let (s', out) = run_leadership ops (sync_lead_env e) run_service s;
          stops = filter ((=) StoppedLeading) (drop (length (el_calls (fst s))) (el_calls (fst s')));
          (inner, c') = fold (\<lambda>_. sync_stopped_leading prev) stops (False, c)
      in (s', out, (case out of StillWaiting \<Rightarrow> inner | StillLeading \<Rightarrow> inner | _ \<Rightarrow> True), c'))"

section \<open>Properties\<close>

lemma watch_keeps [simp]: "watch_outer_stop True ps"
  by (cases ps) simp_all

lemma watch_sees: "True \<in> set ps \<Longrightarrow> watch_outer_stop b ps"
  by (induction b ps rule: watch_outer_stop.induct) auto

lemma standby_sees: "t \<in> set ts \<Longrightarrow> True \<in> set (st_polls t) \<Longrightarrow> \<exists>t'\<in>set (standby_turns b ts). lt_stop t'"
  by (induction b ts rule: standby_turns.induct) (auto simp: Let_def watch_sees)

lemma leading_sees:
  "t \<in> set ts \<Longrightarrow> True \<in> set (st_polls t) \<union> set (st_polls_after t)
   \<Longrightarrow> \<exists>t'\<in>set (leading_turns b ts). lt_stop t' \<or> lt_stop_after t'"
  by (induction b ts rule: leading_turns.induct) (auto simp: Let_def watch_sees)

lemma acquire_stops: "t \<in> set ts \<Longrightarrow> lt_stop t \<Longrightarrow> snd (acquire ops ts s) \<noteq> None"
  by (induction ops ts s rule: acquire.induct) (auto simp: Let_def split: prod.split)

lemma renew_stops: "t \<in> set ts \<Longrightarrow> lt_stop t \<or> lt_stop_after t \<Longrightarrow> snd (renew_until_lost ops ts s) \<noteq> None"
proof (induction ts arbitrary: s)
  case Nil
  then show ?case by simp
next
  case (Cons a ts)
  obtain s' att where "try_acquire_or_renew ops (lt_now a) (fst s, lt_others a (snd s)) = (s', att)" by fastforce
  moreover have "t \<in> set ts \<Longrightarrow> snd (renew_until_lost ops ts s') \<noteq> None" by (rule Cons.IH [OF _ Cons.prems(2)])
  ultimately show ?case using Cons.prems by (auto simp: Let_def)
qed

lemma sync_outcome:
  assumes "run_with_leadership_sync ops e prev svc s c = (s', out, inner, c')"
  shows "run_leadership ops (sync_lead_env e) svc s = (s', out)"
    and "out \<notin> {StillWaiting, StillLeading} \<Longrightarrow> inner"
  using assms
  by (cases "run_leadership ops (sync_lead_env e) svc s"; cases out;
      auto simp: run_with_leadership_sync_def Let_def case_prod_unfold)+

text \<open>
  A stop request of the caller ends the run: when the watcher sees it in a turn of the standby loop and of
  the renew loop, the process has either never led, or its service was told to stop, or the service
  had ended by itself; in every case the stop event of the service is set, and what is raised is what an
  unstopped service raised.
\<close>

theorem stop_request_ends_the_run:
  assumes "t \<in> set (sy_standby e)" and "True \<in> set (st_polls t)"
    and "t' \<in> set (sy_renew e)" and "True \<in> set (st_polls t') \<union> set (st_polls_after t')"
    and "run_with_leadership_sync ops e prev svc s c = (s', out, inner, c')"
  shows "inner \<and> (out = NeverLed \<or> out = Served (fst (svc True)) None
    \<or> sy_service_ends e \<noteq> None \<and> out = Served (fst (svc False)) (snd (svc False)))"
proof -
  have "snd (acquire ops (ld_standby (sync_lead_env e)) s) \<noteq> None"
    using standby_sees [OF assms(1,2), of False] acquire_stops unfolding sync_lead_env_def by (metis lead_env.select_convs(1))
  then obtain s1 acq where a: "acquire ops (ld_standby (sync_lead_env e)) s = (s1, Some acq)"
    by (metis not_Some_eq prod.collapse)
  have renew: "sy_service_ends e = None \<Longrightarrow> snd (renew_until_lost ops (renew_turns (sync_lead_env e)) s1) \<noteq> None"
    using leading_sees [OF assms(3,4)] renew_stops by (fastforce simp: renew_turns_def sync_lead_env_def)
  obtain s2 r where r: "renew_until_lost ops (renew_turns (sync_lead_env e)) s1 = (s2, r)" by fastforce
  have ends: "ld_service_ends (sync_lead_env e) = sy_service_ends e" by (simp add: sync_lead_env_def)
  have out: "out = NeverLed \<or> out = Served (fst (svc True)) None
      \<or> sy_service_ends e \<noteq> None \<and> out = Served (fst (svc False)) (snd (svc False))"
    using sync_outcome(1) [OF assms(5)] renew
    by (cases r) (auto simp: run_leadership_def lead_and_serve_def a r ends split: if_splits)
  then have "out \<notin> {StillWaiting, StillLeading}" by auto
  then have inner by (rule sync_outcome(2) [OF assms(5)])
  with out show ?thesis by blast
qed

section \<open>Witness\<close>

definition sample_sync :: "mem_backend sync_env" where
  "sample_sync =
     \<lparr>sy_standby = [\<lparr>st_turn = sample_turn 100, st_polls = [False], st_polls_after = []\<rparr>,
                    \<lparr>st_turn = sample_turn 102, st_polls = [True], st_polls_after = []\<rparr>],
      sy_renew = [\<lparr>st_turn = sample_turn 102, st_polls = [False], st_polls_after = [False]\<rparr>,
                  \<lparr>st_turn = sample_turn 104, st_polls = [False], st_polls_after = [False, True]\<rparr>],
      sy_service_ends = None\<rparr>"

lemma stop_request_ends_the_run_witness:
  "\<exists>s' c'. run_with_leadership_sync mem_ops sample_sync (None :: (unit, unit) act option) (\<lambda>stopped. (stopped, None))
       (build_daemon_elector sample_lease_settings, mem_init) () = (s', Served True None, True, c')"
proof -
  obtain s' out inner c' where r: "run_with_leadership_sync mem_ops sample_sync (None :: (unit, unit) act option)
      (\<lambda>stopped. (stopped, None)) (build_daemon_elector sample_lease_settings, mem_init) () = (s', out, inner, c')"
    by (metis prod.collapse)
  have "out \<noteq> NeverLed"
  proof -
    have "snd (run_leadership mem_ops (sync_lead_env sample_sync) (\<lambda>stopped. (stopped, None :: pyexc option))
      (build_daemon_elector sample_lease_settings, mem_init)) = Served True None" by code_simp
    with sync_outcome(1) [OF r] show ?thesis by simp
  qed
  with stop_request_ends_the_run [OF _ _ _ _ r, of "sy_standby sample_sync ! 1" "sy_renew sample_sync ! 1"] r
  show ?thesis by (simp add: sample_sync_def)
qed

end
