(* ===== verification/WaitForData.thy ===== *)
theory WaitForData imports PyValue begin

text \<open>
  Waiting for the data layer, \<open>scripts/wait_for_data.py\<close>: the endpoints named by the configuration and the
  loop that probes them. Whether a TCP connection succeeds and the monotonic clock are readings of each
  round; the configuration file is an argument.
\<close>

section \<open>Endpoints\<close>

type_synonym endpoint = "string \<times> string \<times> int"

definition config_path :: "string option \<Rightarrow> string option \<Rightarrow> string" where
  "config_path cfg_env env_env =
     (let cfg = strip (case cfg_env of None \<Rightarrow> [] | Some s \<Rightarrow> s) in
      if cfg \<noteq> [] then cfg
      else
        let env = lower (strip (case or_else (\<lambda>s. s \<noteq> []) env_env None of None \<Rightarrow> ''dev'' | Some s \<Rightarrow> s))
        in ''/app/config/config.'' @ env @ ''.yaml'')"

text \<open>The parsed file, when it can be read.\<close>

definition load_yaml :: "pyval res \<Rightarrow> pydict res" where
  "load_yaml file = rmap (\<lambda>v. case py_or v (VDict []) of VDict d \<Rightarrow> d | _ \<Rightarrow> []) file"

definition endpoint_of :: "(pyval \<Rightarrow> string) \<Rightarrow> string \<Rightarrow> int \<Rightarrow> pydict \<Rightarrow> endpoint list res" where
  "endpoint_of rep label port d =
     (let host = strip (py_str rep (py_or (dget d ''host'' VNone) (VStr []))) in
      if host = [] then Inr []
      else rmap (\<lambda>p. [(label, host, p)]) (py_int (py_or (dget d ''port'' VNone) (VInt port))))"

definition endpoints_from_config :: "(pyval \<Rightarrow> string) \<Rightarrow> bool \<Rightarrow> pydict \<Rightarrow> endpoint list res" where
  "endpoints_from_config rep include_pg cfg =
     rbind
       (if include_pg
        then case py_or (py_or (dget cfg ''postgres'' VNone) (dget cfg ''database'' VNone)) (VDict []) of
               VDict pg \<Rightarrow> endpoint_of rep ''postgres'' 5432 pg
             | _ \<Rightarrow> Inr []
        else Inr [])
       (\<lambda>pgs. rmap ((@) pgs)
         (case dget cfg ''redis'' VNone of
            VDict redis \<Rightarrow>
              if truthy (dget redis ''enabled'' (VBool True)) then endpoint_of rep ''redis'' 6379 redis
              else Inr []
          | _ \<Rightarrow> Inr []))"

section \<open>The loop\<close>

record probe_round =
  wr_connect :: "string \<Rightarrow> int \<Rightarrow> unit res"
  wr_now :: fl

text \<open>
  Only an \<open>OSError\<close> of the connection means that the endpoint is not ready; others, such as the one of a
  port beyond 65535, end the script.
\<close>

definition tcp_ok :: "unit res \<Rightarrow> bool res" where
  "tcp_ok conn =
     (case conn of Inr _ \<Rightarrow> Inr True | Inl e \<Rightarrow> if e = OSError then Inr False else Inl e)"

fun still_pending :: "probe_round \<Rightarrow> endpoint list \<Rightarrow> endpoint list res" where
  "still_pending w [] = Inr []"
| "still_pending w ((label, host, port) # pending) =
     rbind (tcp_ok (wr_connect w host port)) (\<lambda>ok.
     rmap (\<lambda>still. if ok then still else (label, host, port) # still) (still_pending w pending))"

text \<open>The exit code, \<open>None\<close> while the readings are used up and it still waits.\<close>

fun wait_loop :: "bool \<Rightarrow> fl option \<Rightarrow> probe_round list \<Rightarrow> endpoint list \<Rightarrow> int option res" where
  "wait_loop once deadline [] pending = Inr None"
| "wait_loop once deadline (w # ws) pending =
     (case still_pending w pending of
        Inl e \<Rightarrow> Inl e
      | Inr still \<Rightarrow>
          if still = [] then Inr (Some 0)
          else if once then Inr (Some 1)
          else case deadline of
                 Some d \<Rightarrow> if d \<le> wr_now w then Inr (Some 1) else wait_loop once deadline ws still
               | None \<Rightarrow> wait_loop once deadline ws still)"

record wait_args =
  wa_no_pg :: bool
  wa_once :: bool
  wa_timeout :: fl

definition wait_main ::
  "(pyval \<Rightarrow> string) \<Rightarrow> wait_args \<Rightarrow> pyval res \<Rightarrow> fl \<Rightarrow> probe_round list \<Rightarrow> int option res" where
  "wait_main rep args file start rounds =
     (case load_yaml file of
        Inl e \<Rightarrow> if e = OSError then Inr (Some 1) else Inl e
      | Inr cfg \<Rightarrow>
          rbind (endpoints_from_config rep (\<not> wa_no_pg args) cfg) (\<lambda>endpoints.
            if endpoints = [] then Inr (Some 0)
            else wait_loop (wa_once args)
                   (if wa_timeout args \<le> Fin 0 then None else Some (start + wa_timeout args))
                   rounds endpoints))"

section \<open>Properties\<close>

lemma still_pending_cases:
  "still_pending w pending = Inr still \<Longrightarrow> (l, host, port) \<in> set pending \<Longrightarrow>
     is_ok (wr_connect w host port) \<or> (l, host, port) \<in> set still"
  by (induction w pending arbitrary: still rule: still_pending.induct)
     (auto simp: tcp_ok_def rbind_Inr_iff rmap_Inr_iff split: sum.splits if_splits)

lemma wait_loop_ready:
  "wait_loop once deadline rounds pending = Inr (Some 0) \<Longrightarrow> (l, host, port) \<in> set pending \<Longrightarrow>
     \<exists>w\<in>set rounds. is_ok (wr_connect w host port)"
proof (induction once deadline rounds pending rule: wait_loop.induct)
  case (1 once deadline pending)
  then show ?case by simp
next
  case (2 once deadline w ws pending)
  from 2(3) obtain still where s: "still_pending w pending = Inr still" by (auto split: sum.splits)
  from still_pending_cases [OF s 2(4)] 2 s show ?case by (fastforce split: if_splits option.splits)
qed

lemma wait_loop_codes: "wait_loop once deadline rounds pending = Inr (Some c) \<Longrightarrow> c \<in> {0, 1}"
  by (induction once deadline rounds pending rule: wait_loop.induct)
     (auto split: sum.splits if_splits option.splits)

text \<open>
  Exit code 0 means that the data layer answered: every endpoint that the configuration names has
  accepted a connection in some round, and the wait ends with 0 or 1 only, unless it raises.
\<close>

theorem ready_means_all_answered:
  assumes "wait_main rep args file start rounds = Inr (Some code)"
    and "load_yaml file = Inr cfg" and "endpoints_from_config rep (\<not> wa_no_pg args) cfg = Inr endpoints"
  shows "code \<in> {0, 1} \<and> (code = 0 \<longrightarrow>
    (\<forall>(l, host, port)\<in>set endpoints. \<exists>w\<in>set rounds. is_ok (wr_connect w host port)))"
proof -
  have run: "if endpoints = [] then code = 0
      else wait_loop (wa_once args) (if wa_timeout args \<le> Fin 0 then None else Some (start + wa_timeout args))
        rounds endpoints = Inr (Some code)"
    using assms by (auto simp: wait_main_def split: if_splits)
  then have "code \<in> {0, 1}" using wait_loop_codes by (auto split: if_splits)
  moreover from run have "\<exists>w\<in>set rounds. is_ok (wr_connect w host port)"
    if "code = 0" "(l, host, port) \<in> set endpoints" for l host port
    using that wait_loop_ready by (cases "endpoints = []") auto
  ultimately show ?thesis by auto
qed

text \<open>
  The wait is bounded: a probe (\<open>--once\<close>) decides in its first round, and with a timeout the first
  round at or after the deadline decides, whatever the endpoints do; only without both can it wait on.
\<close>

theorem wait_is_bounded:
  assumes "w \<in> set rounds" and "once \<or> (\<exists>d. deadline = Some d \<and> d \<le> wr_now w)"
  shows "wait_loop once deadline rounds pending \<noteq> Inr None"
  using assms
  by (induction once deadline rounds pending rule: wait_loop.induct) (auto split: sum.split option.split)

section \<open>Witnesses\<close>

definition sample_round :: probe_round where
  "sample_round = \<lparr>wr_connect = (\<lambda>h p. Inr ()), wr_now = Fin 7\<rparr>"

definition sample_file :: "pyval" where
  "sample_file = VDict [(''redis'', VDict [(''host'', VStr ''redis'')])]"

lemma ready_means_all_answered_witness:
  "wait_main (\<lambda>_. ''?'') \<lparr>wa_no_pg = True, wa_once = True, wa_timeout = Fin 0\<rparr> (Inr sample_file) (Fin 0) [sample_round]
     = Inr (Some 0)
   \<and> (\<exists>w\<in>set [sample_round]. is_ok (wr_connect w ''redis'' 6379))"
proof -
  have m: "wait_main (\<lambda>_. ''?'') \<lparr>wa_no_pg = True, wa_once = True, wa_timeout = Fin 0\<rparr> (Inr sample_file) (Fin 0)
      [sample_round] = Inr (Some 0)" by code_simp
  have c: "load_yaml (Inr sample_file) = Inr [(''redis'', VDict [(''host'', VStr ''redis'')])]" by code_simp
  have e: "endpoints_from_config (\<lambda>_. ''?'') (\<not> wa_no_pg \<lparr>wa_no_pg = True, wa_once = True, wa_timeout = Fin 0\<rparr>)
      [(''redis'', VDict [(''host'', VStr ''redis'')])] = Inr [(''redis'', ''redis'', 6379)]" by code_simp
  from ready_means_all_answered [OF m c e] m show ?thesis by simp
qed

lemma wait_is_bounded_witness:
  "wait_loop False (Some (Fin 5)) [sample_round] [(''redis'', ''redis'', 6379)] \<noteq> Inr None"
  by (rule wait_is_bounded [of sample_round]) (simp_all add: sample_round_def)

end
