(* ===== verification/AccountTables.thy ===== *)
theory AccountTables imports AccountPush begin

text \<open>
  The writer of \<open>app/account_push.py\<close> against the tables it writes. The first part compares what the
  tables hold after a write that skips unchanged accounts with a write of everything. The second part
  takes \<open>write\<close> apart into the steps between which another thread may run: the heartbeat and the
  listener both call it by \<open>asyncio.to_thread\<close>, on one connection and one memory.
\<close>

section \<open>What the tables hold\<close>

definition stored_digest ::
  "(pyval \<Rightarrow> string) \<Rightarrow> (pyval \<Rightarrow> string) \<Rightarrow> account_writer \<Rightarrow> string \<Rightarrow> string option" where
  "stored_digest rep digest w aid =
     map_option (fingerprint digest) (last_for rep aid (concat (aw_committed w)))"

definition write_succeeds :: "write_env \<Rightarrow> account_writer \<Rightarrow> bool" where
  "write_succeeds e w \<longleftrightarrow>
     \<not> we_writes_off e \<and> aw_conn (ensure_conn (we_connects e) w) \<noteq> None \<and> we_sync_ok e"

lemma committed_after:
  "concat (aw_committed (fst (fst (writer_write rep digest e accounts force (w, h))))) =
     concat (aw_committed w) @ (if write_succeeds e w then write_batch rep digest accounts force w else [])"
  by (simp add: writer_write_def write_succeeds_def Let_def)

section \<open>The steps of a write\<close>

text \<open>
  What the writer uses of its connection: rows executed in the open transaction, commit, rollback, a new
  connection in place of the old one, the rows committed so far, and whether no transaction is open.
\<close>

record 'c db_ops =
  db_execute :: "pydict list \<Rightarrow> 'c \<Rightarrow> 'c"
  db_commit :: "'c \<Rightarrow> 'c"
  db_rollback :: "'c \<Rightarrow> 'c"
  db_connect :: "'c \<Rightarrow> 'c"
  db_stored :: "'c \<Rightarrow> pydict list"
  db_clean :: "'c \<Rightarrow> bool"

text \<open>The documented behaviour of transactions.\<close>

definition transactional :: "'c db_ops \<Rightarrow> bool" where
  "transactional db \<longleftrightarrow>
     (\<forall>c. db_clean db (db_commit db c) \<and> db_clean db (db_rollback db c) \<and> db_clean db (db_connect db c))
     \<and> (\<forall>c rows. db_stored db (db_execute db rows c) = db_stored db c)
     \<and> (\<forall>c. db_stored db (db_rollback db c) = db_stored db c \<and> db_stored db (db_connect db c) = db_stored db c)
     \<and> (\<forall>c. db_clean db c \<longrightarrow> db_stored db (db_commit db c) = db_stored db c)
     \<and> (\<forall>c rows. db_clean db c \<longrightarrow> db_stored db (db_commit db (db_execute db rows c)) = db_stored db c @ rows)"

datatype write_phase =
  Deciding
| Connecting "pydict list"
| Syncing "pydict list"
| Committing "pydict list"
| RollingBack
| Noting "pydict list"
| Finished int

text \<open>The connection after \<open>_ensure_conn\<close>.\<close>

definition db_connected :: "'c db_ops \<Rightarrow> bool \<Rightarrow> account_writer \<Rightarrow> 'c \<Rightarrow> 'c" where
  "db_connected db connects w c = (if aw_conn w \<noteq> Some False \<and> connects then db_connect db c else c)"

text \<open>
  A thread's call: its arguments and what it meets outside, with the rows that a failing sync had
  executed before it raised. The shared state is the writer, the health record and the connection.
\<close>

record write_call =
  wc_accounts :: "pydict list"
  wc_force :: bool
  wc_env :: write_env
  wc_partial :: "pydict list"

type_synonym 'c write_shared = "(account_writer \<times> daemon_health) \<times> 'c"

fun write_step ::
  "(pyval \<Rightarrow> string) \<Rightarrow> (pyval \<Rightarrow> string) \<Rightarrow> 'c db_ops \<Rightarrow> write_call
   \<Rightarrow> write_phase \<times> 'c write_shared \<Rightarrow> write_phase \<times> 'c write_shared" where
  "write_step rep digest db call (Deciding, (w, h), c) =
     (let todo = write_batch rep digest (wc_accounts call) (wc_force call) w
      in (if we_writes_off (wc_env call) \<or> todo = [] then Finished 0 else Connecting todo, (w, h), c))"
| "write_step rep digest db call (Connecting todo, (w, h), c) =
     (let w1 = ensure_conn (we_connects (wc_env call)) w;
          c1 = db_connected db (we_connects (wc_env call)) w c
      in if aw_conn w1 = None then (Finished 0, (w1, mark_raw_broker_failure h), c1)
         else (Syncing todo, (w1, h), c1))"
| "write_step rep digest db call (Syncing todo, (w, h), c) =
     (if we_sync_ok (wc_env call) then (Committing todo, (w, h), db_execute db todo c)
      else (RollingBack, (w, mark_raw_broker_failure h), db_execute db (wc_partial call) c))"
| "write_step rep digest db call (Committing todo, (w, h), c) = (Noting todo, (w, h), db_commit db c)"
| "write_step rep digest db call (RollingBack, (w, h), c) =
     (if we_rollback_ok (wc_env call) then (Finished 0, (w, h), db_rollback db c)
      else (Finished 0, (w\<lparr>aw_conn := None\<rparr>, h), c))"
| "write_step rep digest db call (Noting todo, (w, h), c) =
     (let e = wc_env call; n = int (length todo)
      in (Finished n,
          (log_summary (we_mono1 e) (we_mono2 e) n (fold (note_written rep digest) todo w),
           mark_raw_broker_write n (we_now e) h), c))"
| "write_step rep digest db call (Finished n, s) = (Finished n, s)"

text \<open>A call that no other thread disturbs; it ends within five steps.\<close>

definition write_alone ::
  "(pyval \<Rightarrow> string) \<Rightarrow> (pyval \<Rightarrow> string) \<Rightarrow> 'c db_ops \<Rightarrow> write_call
   \<Rightarrow> 'c write_shared \<Rightarrow> write_phase \<times> 'c write_shared" where
  "write_alone rep digest db call s = (write_step rep digest db call ^^ 5) (Deciding, s)"

text \<open>Threads by number; the schedule names the thread that takes the next step.\<close>

fun write_threads ::
  "(pyval \<Rightarrow> string) \<Rightarrow> (pyval \<Rightarrow> string) \<Rightarrow> 'c db_ops \<Rightarrow> (nat \<Rightarrow> write_call) \<Rightarrow> nat list
   \<Rightarrow> (nat \<Rightarrow> write_phase) \<times> 'c write_shared \<Rightarrow> (nat \<Rightarrow> write_phase) \<times> 'c write_shared" where
  "write_threads rep digest db calls [] s = s"
| "write_threads rep digest db calls (t # ts) (ph, s) =
     (let (p, s') = write_step rep digest db (calls t) (ph t, s)
      in write_threads rep digest db calls ts (ph(t := p), s'))"

section \<open>One thread at a time\<close>

text \<open>The ghost record of committed batches is kept by the whole operation only.\<close>

definition sans_ghost :: "account_writer \<times> daemon_health \<Rightarrow> account_writer \<times> daemon_health" where
  "sans_ghost s = ((fst s)\<lparr>aw_committed := []\<rparr>, snd s)"

lemma five_steps:
  "(f ^^ 5) x = f (f (f (f (f x))))"
  by (simp add: numeral_eq_Suc)

lemma write_batch_ghost [simp]:
  "write_batch rep digest accounts force (w\<lparr>aw_committed := g\<rparr>) = write_batch rep digest accounts force w"
  by (simp add: write_batch_def changed_accounts_def refuse_reason_def Let_def)

lemma note_ghost:
  "note_written rep digest a (w\<lparr>aw_committed := g\<rparr>) = (note_written rep digest a w)\<lparr>aw_committed := g\<rparr>"
  by (simp add: note_written_def Let_def)

lemma fold_note_ghost [simp]:
  "fold (note_written rep digest) xs (w\<lparr>aw_committed := g\<rparr>)
     = (fold (note_written rep digest) xs w)\<lparr>aw_committed := g\<rparr>"
  by (induction xs arbitrary: w) (simp_all add: note_ghost)

lemma log_summary_ghost [simp]:
  "log_summary t1 t2 n (w\<lparr>aw_committed := g\<rparr>) = (log_summary t1 t2 n w)\<lparr>aw_committed := g\<rparr>"
  by (simp add: log_summary_def Let_def)

lemma log_summary_conn [simp]: "aw_conn (log_summary t1 t2 n w) = aw_conn w"
  by (simp add: log_summary_def Let_def)

lemma fold_note_conn [simp]: "aw_conn (fold (note_written rep digest) xs w) = aw_conn w"
  by (induction xs arbitrary: w) simp_all

text \<open>What a call does alone, by how far it gets.\<close>

lemma write_alone_cases:
  fixes call :: write_call
  defines "e \<equiv> wc_env call"
  obtains (idle) "write_alone rep digest db call ((w, h), c) = (Finished 0, (w, h), c)"
      "we_writes_off e \<or> write_batch rep digest (wc_accounts call) (wc_force call) w = []"
  | (offline) "write_alone rep digest db call ((w, h), c)
        = (Finished 0, (w\<lparr>aw_conn := None\<rparr>, mark_raw_broker_failure h), c)"
      "\<not> we_writes_off e" "write_batch rep digest (wc_accounts call) (wc_force call) w \<noteq> []"
      "aw_conn (ensure_conn (we_connects e) w) = None"
  | (failed) w1 c1 where "w1 = ensure_conn (we_connects e) w"
      "c1 = db_execute db (wc_partial call) (db_connected db (we_connects e) w c)"
      "write_alone rep digest db call ((w, h), c) = (Finished 0,
        (if we_rollback_ok e then w1 else w1\<lparr>aw_conn := None\<rparr>, mark_raw_broker_failure h),
         if we_rollback_ok e then db_rollback db c1 else c1)"
      "\<not> we_writes_off e" "write_batch rep digest (wc_accounts call) (wc_force call) w \<noteq> []"
      "aw_conn w1 \<noteq> None" "\<not> we_sync_ok e"
  | (wrote) todo w1 where "w1 = ensure_conn (we_connects e) w"
      "todo = write_batch rep digest (wc_accounts call) (wc_force call) w" "todo \<noteq> []"
      "write_alone rep digest db call ((w, h), c) = (Finished (int (length todo)),
        (log_summary (we_mono1 e) (we_mono2 e) (int (length todo)) (fold (note_written rep digest) todo w1),
         mark_raw_broker_write (int (length todo)) (we_now e) h),
        db_commit db (db_execute db todo (db_connected db (we_connects e) w c)))"
      "\<not> we_writes_off e" "aw_conn w1 \<noteq> None" "we_sync_ok e"
proof -
  let ?b = "write_batch rep digest (wc_accounts call) (wc_force call) w"
  let ?w1 = "ensure_conn (we_connects e) w"
  consider (a) "we_writes_off e \<or> ?b = []" | (b) "\<not> we_writes_off e" "?b \<noteq> []" "aw_conn ?w1 = None"
    | (c) "\<not> we_writes_off e" "?b \<noteq> []" "aw_conn ?w1 \<noteq> None" "\<not> we_sync_ok e"
    | (d) "\<not> we_writes_off e" "?b \<noteq> []" "aw_conn ?w1 \<noteq> None" "we_sync_ok e" by blast
  then show ?thesis
  proof cases
    case a
    then show ?thesis by (intro idle) (simp_all add: write_alone_def five_steps e_def)
  next
    case b
    then have "?w1 = w\<lparr>aw_conn := None\<rparr>" "\<not> we_connects e" by (auto simp: ensure_conn_def split: if_splits)
    with b show ?thesis by (intro offline) (simp_all add: write_alone_def five_steps e_def db_connected_def)
  next
    case c
    then obtain y where "aw_conn ?w1 = Some y" by blast
    with c show ?thesis
      by (intro failed [OF refl refl]) (simp_all add: write_alone_def five_steps e_def Let_def)
  next
    case d
    then obtain y where "aw_conn ?w1 = Some y" by blast
    with d show ?thesis
      by (intro wrote [OF refl refl]) (simp_all add: write_alone_def five_steps e_def Let_def)
  qed
qed

lemma write_alone_is_write:
  "fst (write_alone rep digest db call (s, c)) = Finished (snd (writer_write rep digest (wc_env call) (wc_accounts call) (wc_force call) s))
   \<and> sans_ghost (fst (snd (write_alone rep digest db call (s, c))))
     = sans_ghost (fst (writer_write rep digest (wc_env call) (wc_accounts call) (wc_force call) s))"
proof -
  obtain w h where s: "s = (w, h)" by fastforce
  show ?thesis
    unfolding s
    by (rule write_alone_cases [of rep digest db call w h c])
      (auto simp: writer_write_def sans_ghost_def Let_def ensure_conn_def split: if_splits)
qed

section \<open>The memory and the tables\<close>

definition tables_agree ::
  "(pyval \<Rightarrow> string) \<Rightarrow> (pyval \<Rightarrow> string) \<Rightarrow> 'c db_ops \<Rightarrow> 'c write_shared \<Rightarrow> bool" where
  "tables_agree rep digest db s \<longleftrightarrow>
     remembers rep digest (db_stored db (snd s)) (fst (fst s))
     \<and> (aw_conn (fst (fst s)) = Some False \<longrightarrow> db_clean db (snd s))"

lemma transactionalD:
  assumes "transactional db"
  shows "db_clean db (db_commit db c)" "db_clean db (db_rollback db c)" "db_clean db (db_connect db c)"
    "db_stored db (db_execute db rows c) = db_stored db c" "db_stored db (db_rollback db c) = db_stored db c"
    "db_stored db (db_connect db c) = db_stored db c"
    "db_clean db c \<Longrightarrow> db_stored db (db_commit db c) = db_stored db c"
    "db_clean db c \<Longrightarrow> db_stored db (db_commit db (db_execute db rows c)) = db_stored db c @ rows"
  using assms by (simp_all add: transactional_def)

lemma connected_clean:
  assumes "transactional db" and "tables_agree rep digest db ((w, h), c)"
    and "aw_conn (ensure_conn connects w) \<noteq> None"
  shows "db_clean db (db_connected db connects w c) \<and> db_stored db (db_connected db connects w c) = db_stored db c"
  using assms by (auto simp: db_connected_def ensure_conn_def tables_agree_def transactionalD split: if_splits)

lemma write_alone_agrees:
  assumes db: "transactional db" and inv: "tables_agree rep digest db ((w, h), c)"
  shows "tables_agree rep digest db (snd (write_alone rep digest db call ((w, h), c)))"
proof (cases rule: write_alone_cases [of rep digest db call w h c])
  case idle
  with inv show ?thesis by simp
next
  case offline
  with inv show ?thesis by (simp add: tables_agree_def remembers_def)
next
  case (failed w1 c1)
  have "remembers rep digest (db_stored db c) w1" using inv failed(1) by (simp add: tables_agree_def remembers_def)
  moreover have "db_stored db c1 = db_stored db c"
    using connected_clean [OF db inv] failed(1,2,6) by (simp add: transactionalD [OF db])
  ultimately show ?thesis
    using failed(3) by (simp add: tables_agree_def remembers_def transactionalD [OF db])
next
  case (wrote todo w1)
  note clean = connected_clean [OF db inv, of "we_connects (wc_env call)"]
  have "remembers rep digest (db_stored db c @ todo) (fold (note_written rep digest) todo w1)"
    using inv wrote(1) by (intro fold_note_remembers) (simp add: tables_agree_def remembers_def)
  moreover have "db_stored db (db_commit db (db_execute db todo (db_connected db (we_connects (wc_env call)) w c)))
      = db_stored db c @ todo"
    using clean wrote(1,6) by (simp add: transactionalD(8) [OF db])
  ultimately show ?thesis
    using wrote(4) by (simp add: tables_agree_def remembers_def transactionalD(1) [OF db])
qed

lemma serial_writes:
  "transactional db \<Longrightarrow>
     invariant_machine (\<lambda>s call. snd (write_alone rep digest db call s)) (tables_agree rep digest db)"
  by unfold_locales (metis prod.collapse write_alone_agrees)

section \<open>Properties\<close>



text \<open>
  The listener is thread 0 and the heartbeat thread 1: the listener up to its executed rows, the heartbeat
  up to its rollback, the listener to its end.
\<close>

definition lost_update :: "nat list" where
  "lost_update = [0, 0, 0, 1, 1, 1, 1, 0, 0]"

lemma ensure_conn_open [simp]: "aw_conn w = Some False \<Longrightarrow> ensure_conn c w = w"
  by (simp add: ensure_conn_def)

lemma db_connected_open [simp]: "aw_conn w = Some False \<Longrightarrow> db_connected db k w c = c"
  by (simp add: db_connected_def)

text \<open>
  C7. Two writers at a time lose an account: when the heartbeat's forced write fails and rolls back
  while the listener has executed but not committed, the rollback takes the listener's rows along; the
  listener commits nothing and notes the account as written, so that it is not written again until it
  changes.
\<close>

theorem concurrent_writers_lose_rows:
  assumes db: "transactional db" and clean: "db_clean db c" and conn: "aw_conn w = Some False"
    and listener: "calls 0 = \<lparr>wc_accounts = [a], wc_force = False, wc_env = e, wc_partial = []\<rparr>"
      "\<not> we_writes_off e" "we_sync_ok e"
    and heartbeat: "\<not> we_writes_off (wc_env (calls 1))" "\<not> we_sync_ok (wc_env (calls 1))"
      "we_rollback_ok (wc_env (calls 1))"
      "write_batch rep digest (wc_accounts (calls 1)) (wc_force (calls 1)) w \<noteq> []"
    and todo: "write_batch rep digest [a] False w = [a]"
    and run: "write_threads rep digest db calls lost_update (\<lambda>_. Deciding, (w, h), c) = (ph, (w', h'), c')"
  shows "ph 0 = Finished 1 \<and> ph 1 = Finished 0 \<and> db_stored db c' = db_stored db c
    \<and> aw_written w' (account_id rep a) = Some (fingerprint digest a)
    \<and> changed_accounts rep digest w' [a] = []"
proof -
  have a: "account_id rep a \<noteq> []"
    using todo by (auto simp: write_batch_def changed_accounts_def Let_def split: if_splits)
  let ?e1 = "wc_env (calls 1)"
  let ?c' = "db_commit db (db_rollback db (db_execute db (wc_partial (calls 1)) (db_execute db [a] c)))"
  have "(ph 0, ph 1, w', c') = (Finished 1, Finished 0,
      log_summary (we_mono1 e) (we_mono2 e) 1 (note_written rep digest a w), ?c')"
    using run conn listener heartbeat todo by (auto simp: lost_update_def Let_def)
  moreover have "db_stored db ?c' = db_stored db c" by (simp add: transactionalD [OF db])
  ultimately show ?thesis
    using a by (simp add: note_written_def changed_accounts_def Let_def)
qed

section \<open>Witnesses\<close>


text \<open>A connection as the committed rows and the rows of the open transaction.\<close>

definition sample_tables_db :: "(pydict list \<times> pydict list) db_ops" where
  "sample_tables_db =
     \<lparr>db_execute = (\<lambda>rows (t, p). (t, p @ rows)), db_commit = (\<lambda>(t, p). (t @ p, [])),
      db_rollback = (\<lambda>(t, p). (t, [])), db_connect = (\<lambda>(t, p). (t, [])), db_stored = fst,
      db_clean = (\<lambda>(t, p). p = [])\<rparr>"

lemma sample_db_transactional: "transactional sample_tables_db"
  by (auto simp: transactional_def sample_tables_db_def)

definition sample_write :: "string \<Rightarrow> bool \<Rightarrow> bool \<Rightarrow> write_call" where
  "sample_write aid force ok =
     \<lparr>wc_accounts = [sample_account aid (VList [VInt 1])], wc_force = force,
      wc_env = sample_env\<lparr>we_sync_ok := ok\<rparr>, wc_partial = []\<rparr>"


lemma concurrent_writers_lose_rows_witness:
  "\<exists>ph w' h' c'. write_threads no_repr no_repr sample_tables_db
      (\<lambda>t. if t = 0 then sample_write ''U1'' False True else sample_write ''U2'' True False) lost_update
      (\<lambda>_. Deciding, ((writer_init (Fin 0))\<lparr>aw_conn := Some False\<rparr>, health_init), ([], [])) = (ph, (w', h'), c')
    \<and> db_stored sample_tables_db c' = [] \<and> changed_accounts no_repr no_repr w' [sample_account ''U1'' (VList [VInt 1])] = []"
proof -
  let ?calls = "\<lambda>t :: nat. if t = 0 then sample_write ''U1'' False True else sample_write ''U2'' True False"
  let ?w = "(writer_init (Fin 0))\<lparr>aw_conn := Some False\<rparr>"
  obtain ph w' h' c' where run: "write_threads no_repr no_repr sample_tables_db ?calls lost_update
      (\<lambda>_. Deciding, (?w, health_init), ([], [])) = (ph, (w', h'), c')" by (metis prod.collapse)
  have b: "write_batch no_repr no_repr (wc_accounts (?calls 1)) (wc_force (?calls 1)) ?w \<noteq> []" by code_simp
  have a: "write_batch no_repr no_repr [sample_account ''U1'' (VList [VInt 1])] False ?w
      = [sample_account ''U1'' (VList [VInt 1])]" by code_simp
  have "?calls 0 = \<lparr>wc_accounts = [sample_account ''U1'' (VList [VInt 1])], wc_force = False,
      wc_env = sample_env\<lparr>we_sync_ok := True\<rparr>, wc_partial = []\<rparr>" by (simp add: sample_write_def)
  from concurrent_writers_lose_rows [where calls = ?calls, OF sample_db_transactional _ _ this _ _ _ _ _ b a run] run
  show ?thesis by (simp add: sample_tables_db_def sample_write_def sample_env_def)
qed

end
