(* ===== verification/PushListener.thy ===== *)
theory PushListener imports DaemonRun AccountTables begin

text \<open>
  The listener of account notifications, \<open>run_push_listener\<close> of \<open>app/account_push.py\<close>: it subscribes,
  syncs once, syncs again for the notifications that come, and subscribes anew after an error. The task
  ends when it is cancelled, which reaches it where it waits: for the subscription, for a message, and in
  the pause after an error.
\<close>

section \<open>One subscription\<close>

text \<open>
  A round of \<open>sync_once\<close>: what the write meets, the clock and the snapshot read. A turn of the inner loop
  gets a message, none within the interval, or an exception, and reads the monotonic clock.
\<close>

record sync_round =
  sy_write :: write_env
  sy_now :: fl
  sy_snapshot :: "pyval res"

record listen_turn =
  lt_message :: "bool res"
  lt_mono1 :: fl
  lt_mono2 :: fl
  lt_sync :: sync_round

type_synonym sync_state = "account_writer option \<times> daemon_health"

text \<open>A sync is recorded with the reading that let it through and the one that was stored.\<close>

datatype listen_event = Opened | Synced fl fl | BackedOff | Closed

definition push_sync ::
  "(pyval \<Rightarrow> string) \<Rightarrow> (pyval \<Rightarrow> string) \<Rightarrow> sync_round \<Rightarrow> (sync_state, int) act" where
  "push_sync rep digest r = sync_once rep digest (sy_write r) (sy_now r) (sy_snapshot r) False"

text \<open>The inner loop: the state, what it did, and the exception that left it, if one did.\<close>

fun listen ::
  "(pyval \<Rightarrow> string) \<Rightarrow> (pyval \<Rightarrow> string) \<Rightarrow> listen_turn list \<Rightarrow> push_state \<times> sync_state
   \<Rightarrow> (push_state \<times> sync_state) \<times> listen_event list \<times> pyexc option" where
  "listen rep digest [] st = (st, [], None)"
| "listen rep digest (t # ts) st =
     (case lt_message t of
        Inl err \<Rightarrow> (st, [], Some err)
      | Inr msg \<Rightarrow>
          let (ps, due) = push_turn (fst st) (msg, lt_mono1 t, lt_mono2 t)
          in if \<not> due then listen rep digest ts (ps, snd st)
             else let ev = Synced (lt_mono1 t) (lt_mono2 t)
                  in case push_sync rep digest (lt_sync t) (snd st) of
                       (s, Inl err) \<Rightarrow> ((ps, s), [ev], Some err)
                     | (s, Inr _) \<Rightarrow>
                         let (st', evs, r) = listen rep digest ts (ps, s) in (st', ev # evs, r))"

text \<open>One attempt: the client, the subscription, the first round and the inner loop.\<close>

record push_attempt =
  pa_client :: "unit res"
  pa_subscribe :: "unit res"
  pa_first :: sync_round
  pa_last_sync :: fl
  pa_turns :: "listen_turn list"
  pa_backoff :: "unit res"

definition push_session ::
  "(pyval \<Rightarrow> string) \<Rightarrow> (pyval \<Rightarrow> string) \<Rightarrow> push_attempt \<Rightarrow> sync_state
   \<Rightarrow> sync_state \<times> listen_event list \<times> pyexc option" where
  "push_session rep digest a s =
     (case pa_client a of
        Inl err \<Rightarrow> (s, [], Some err)
      | Inr _ \<Rightarrow>
          case pa_subscribe a of
            Inl err \<Rightarrow> (s, [Opened], Some err)
          | Inr _ \<Rightarrow>
              case push_sync rep digest (pa_first a) s of
                (s', Inl err) \<Rightarrow> (s', [Opened, Synced (pa_last_sync a) (pa_last_sync a)], Some err)
              | (s', Inr _) \<Rightarrow>
                  let ((_, s''), evs, r) = listen rep digest (pa_turns a)
                        (\<lparr>ps_last_sync = pa_last_sync a, ps_pending = False\<rparr>, s')
                  in (s'', Opened # Synced (pa_last_sync a) (pa_last_sync a) # evs, r))"

section \<open>The listener\<close>

text \<open>
  The \<open>finally\<close> block closes the client, after the pause. The listener is still running when its readings
  are used up, and otherwise ends with an exception.
\<close>

definition closing :: "push_attempt \<Rightarrow> listen_event list" where
  "closing a = (case pa_client a of Inl _ \<Rightarrow> [] | Inr _ \<Rightarrow> [Closed])"

fun run_push_listener ::
  "(pyval \<Rightarrow> string) \<Rightarrow> (pyval \<Rightarrow> string) \<Rightarrow> push_attempt list \<Rightarrow> sync_state
   \<Rightarrow> sync_state \<times> listen_event list \<times> pyexc option" where
  "run_push_listener rep digest [] s = (s, [], None)"
| "run_push_listener rep digest (a # as) s =
     (case push_session rep digest a s of
        (s', evs, None) \<Rightarrow> (s', evs, None)
      | (s', evs, Some err) \<Rightarrow>
          if \<not> is_exception err then (s', evs @ closing a, Some err)
          else case pa_backoff a of
                 Inl err2 \<Rightarrow> (s', evs @ BackedOff # closing a, Some err2)
               | Inr _ \<Rightarrow>
                   let (s'', evs', r) = run_push_listener rep digest as s'
                   in (s'', evs @ BackedOff # closing a @ evs', r))"

section \<open>Connections\<close>

text \<open>Whether a client is open after a history, \<open>None\<close> for one that opens twice or closes none.\<close>

fun client_after :: "bool \<Rightarrow> listen_event list \<Rightarrow> bool option" where
  "client_after b [] = Some b"
| "client_after b (Opened # es) = (if b then None else client_after True es)"
| "client_after b (Closed # es) = (if b then client_after False es else None)"
| "client_after b (Synced t u # es) = (if b then client_after b es else None)"
| "client_after b (BackedOff # es) = client_after b es"

lemma client_after_append:
  "client_after b (xs @ ys) = Option.bind (client_after b xs) (\<lambda>c. client_after c ys)"
  by (induction b xs rule: client_after.induct) auto

lemma listen_Cons:
  assumes "listen rep digest (t # ts) st = (st', evs, r)"
  obtains (raised) err where "lt_message t = Inl err" "st' = st" "evs = []" "r = Some err"
  | (idle) msg ps where "lt_message t = Inr msg" "push_turn (fst st) (msg, lt_mono1 t, lt_mono2 t) = (ps, False)"
      "listen rep digest ts (ps, snd st) = (st', evs, r)"
  | (failed) msg ps s err where "lt_message t = Inr msg"
      "push_turn (fst st) (msg, lt_mono1 t, lt_mono2 t) = (ps, True)"
      "push_sync rep digest (lt_sync t) (snd st) = (s, Inl err)" "st' = (ps, s)"
      "evs = [Synced (lt_mono1 t) (lt_mono2 t)]" "r = Some err"
  | (synced) msg ps s n evs' where "lt_message t = Inr msg"
      "push_turn (fst st) (msg, lt_mono1 t, lt_mono2 t) = (ps, True)"
      "push_sync rep digest (lt_sync t) (snd st) = (s, Inr n)" "listen rep digest ts (ps, s) = (st', evs', r)"
      "evs = Synced (lt_mono1 t) (lt_mono2 t) # evs'"
  using assms by (auto simp: Let_def split: sum.splits prod.splits if_splits)

lemma push_turn_due:
  "push_turn ps (msg, t1, t2) = (ps', True) \<longleftrightarrow>
     (msg \<or> ps_pending ps) \<and> min_sync_interval \<le> t1 - ps_last_sync ps
     \<and> ps' = \<lparr>ps_last_sync = t2, ps_pending = False\<rparr>"
  "push_turn ps (msg, t1, t2) = (ps', False) \<longleftrightarrow>
     \<not> ((msg \<or> ps_pending ps) \<and> min_sync_interval \<le> t1 - ps_last_sync ps)
     \<and> ps' = \<lparr>ps_last_sync = ps_last_sync ps, ps_pending = msg \<or> ps_pending ps\<rparr>"
  by (auto simp: push_turn_def Let_def)

lemma listen_client: "listen rep digest ts st = (st', evs, r) \<Longrightarrow> client_after True evs = Some True"
  by (induction rep digest ts st arbitrary: st' evs r rule: listen.induct)
    (auto simp: Let_def split: sum.splits prod.splits if_splits)

lemma session_client:
  "push_session rep digest a s = (s', evs, r) \<Longrightarrow>
     client_after False evs = Some (is_ok (pa_client a)) \<and> (r = None \<longrightarrow> is_ok (pa_client a))"
  by (auto simp: push_session_def Let_def split: sum.splits prod.splits dest: listen_client)

lemma closing_client: "client_after (is_ok (pa_client a)) (closing a @ es) = client_after False es"
  by (auto simp: closing_def split: sum.split)

section \<open>Coalescing\<close>

fun last_sync :: "fl \<Rightarrow> listen_event list \<Rightarrow> fl" where
  "last_sync t [] = t"
| "last_sync t (Synced t1 t2 # es) = last_sync t2 es"
| "last_sync t (e # es) = last_sync t es"

text \<open>Each sync of a subscription was let through a full interval after the one before it.\<close>

fun spaced :: "fl \<Rightarrow> listen_event list \<Rightarrow> bool" where
  "spaced t [] = True"
| "spaced t (Synced t1 t2 # es) = (min_sync_interval \<le> t1 - t \<and> spaced t2 es)"
| "spaced t (e # es) = spaced t es"

lemma listen_spaced: "listen rep digest ts st = (st', evs, r) \<Longrightarrow> spaced (ps_last_sync (fst st)) evs"
proof (induction ts arbitrary: st evs)
  case (Cons t ts)
  from Cons.prems show ?case
    by (cases rule: listen_Cons) (auto simp: push_turn_due dest: Cons.IH)
qed simp

lemma listen_last: "listen rep digest ts st = (st', evs, r) \<Longrightarrow>
    ps_last_sync (fst st') = last_sync (ps_last_sync (fst st)) evs"
proof (induction ts arbitrary: st evs)
  case (Cons t ts)
  from Cons.prems show ?case
    by (cases rule: listen_Cons) (auto simp: push_turn_due dest: Cons.IH)
qed simp

lemma listen_append:
  "listen rep digest ts st = (st', evs, None) \<Longrightarrow>
     listen rep digest (ts @ us) st = (let (st'', evs', r) = listen rep digest us st' in (st'', evs @ evs', r))"
proof (induction ts arbitrary: st evs)
  case (Cons t ts)
  from Cons.prems show ?case
    by (cases rule: listen_Cons) (auto dest: Cons.IH simp: Let_def split: prod.split)
qed simp

lemma pending_waits:
  "listen rep digest ts st = (st', [], None) \<Longrightarrow> ps_pending (fst st) \<or> ts \<noteq> [] \<and> lt_message (hd ts) = Inr True
   \<Longrightarrow> \<forall>z\<in>set ts. \<not> min_sync_interval \<le> lt_mono1 z - ps_last_sync (fst st)"
proof (induction ts arbitrary: st)
  case (Cons t ts)
  from Cons.prems(1) show ?case
  proof (cases rule: listen_Cons)
    case (idle msg ps)
    with Cons.prems(2) have "msg \<or> ps_pending (fst st)" by auto
    with idle(2) Cons.IH [OF idle(3)] show ?thesis by (auto simp: push_turn_due)
  qed simp_all
qed simp

section \<open>Properties\<close>

text \<open>A pause can only be left by its end or by cancellation.\<close>

definition sleeps :: "push_attempt list \<Rightarrow> bool" where
  "sleeps as \<longleftrightarrow> (\<forall>a\<in>set as. \<forall>err. pa_backoff a = Inl err \<longrightarrow> err = cancelled_error)"

lemma listener_trace:
  "run_push_listener rep digest as s = (s', evs, r) \<Longrightarrow> sleeps as \<Longrightarrow>
     (case r of None \<Rightarrow> client_after False evs \<noteq> None
      | Some err \<Rightarrow> err = cancelled_error \<and> client_after False evs = Some False)"
proof (induction as arbitrary: s s' evs r)
  case Nil
  then show ?case by simp
next
  case (Cons a as)
  obtain s1 evs1 r1 where ses: "push_session rep digest a s = (s1, evs1, r1)" by (metis prod.collapse)
  note client = session_client [OF ses]
  have tail: "client_after False (evs1 @ BackedOff # closing a @ es) = client_after False es" for es
    using client closing_client [of a es] by (simp add: client_after_append [of _ evs1])
  show ?case
  proof (cases r1)
    case None
    with ses Cons.prems client show ?thesis by auto
  next
    case (Some err)
    show ?thesis
    proof (cases "is_exception err")
      case False
      have "client_after False (evs1 @ closing a) = Some False"
        using client closing_client [of a "[]"] by (simp add: client_after_append [of _ evs1])
      with ses Some False Cons.prems show ?thesis by (auto simp: is_exception_def)
    next
      case True
      show ?thesis
      proof (cases "pa_backoff a")
        case (Inl err2)
        with Cons.prems(2) have "err2 = cancelled_error" by (simp add: sleeps_def)
        with ses Some True Inl Cons.prems(1) tail [of "[]"] show ?thesis by auto
      next
        case (Inr u)
        obtain s2 evs2 r2 where rest: "run_push_listener rep digest as s1 = (s2, evs2, r2)"
          by (metis prod.collapse)
        with ses Some True Inr Cons.prems(1) have "evs = evs1 @ BackedOff # closing a @ evs2" "r = r2" by auto
        with Cons.IH [OF rest] Cons.prems(2) tail [of evs2] show ?thesis
          by (auto simp: sleeps_def split: option.splits)
      qed
    qed
  qed
qed


text \<open>
  C29. Notifications are coalesced and none is lost: two rounds of a subscription are let through at least
  the minimal interval apart, and when a notification has come and no round followed, no reading of the
  clock since then was a full interval after the last round.
\<close>

theorem notifications_coalesced:
  assumes "listen rep digest xs (ps, s) = (st1, evs, None)"
    and "listen rep digest (xs @ t # ys) (ps, s) = (st2, evs, None)" and "lt_message t = Inr True"
  shows "spaced (ps_last_sync ps) evs
    \<and> (\<forall>z\<in>set (t # ys). \<not> min_sync_interval \<le> lt_mono1 z - last_sync (ps_last_sync ps) evs)"
proof -
  obtain st3 evs3 r3 where rest: "listen rep digest (t # ys) st1 = (st3, evs3, r3)" by (metis prod.collapse)
  with assms(1,2) have "evs3 = []" "r3 = None" by (simp_all add: listen_append del: listen.simps)
  with rest have quiet: "listen rep digest (t # ys) st1 = (st3, [], None)" by simp
  from pending_waits [OF quiet] listen_last [OF assms(1)] listen_spaced [OF assms(1)] assms(3)
  show ?thesis by simp
qed

section \<open>Witnesses\<close>

lemma with_snd: "snd p = y \<Longrightarrow> p = (fst p, y)"
  by auto

definition sample_round :: sync_round where
  "sample_round = \<lparr>sy_write = sample_env, sy_now = Fin 1000, sy_snapshot = Inr VNone\<rparr>"

definition sample_listen :: "bool res \<Rightarrow> int \<Rightarrow> listen_turn" where
  "sample_listen msg t =
     \<lparr>lt_message = msg, lt_mono1 = Fin (of_int t), lt_mono2 = Fin (of_int t), lt_sync = sample_round\<rparr>"

definition sample_attempt :: "pyexc \<Rightarrow> push_attempt" where
  "sample_attempt err =
     \<lparr>pa_client = Inr (), pa_subscribe = Inr (), pa_first = sample_round, pa_last_sync = Fin 100,
      pa_turns = [sample_listen (Inr True) 102, sample_listen (Inl err) 103], pa_backoff = Inr ()\<rparr>"


lemma notifications_coalesced_witness:
  "\<exists>st. listen no_repr no_repr [sample_listen (Inr True) 102, sample_listen (Inr True) 102, sample_listen (Inr False) 102]
      (\<lparr>ps_last_sync = Fin 100, ps_pending = False\<rparr>, (None, health_init)) = (st, [Synced (Fin 102) (Fin 102)], None)
    \<and> spaced (Fin 100) [Synced (Fin 102) (Fin 102)]"
proof -
  let ?s = "(\<lparr>ps_last_sync = Fin 100, ps_pending = False\<rparr>, (None, health_init))"
  let ?run = "\<lambda>ts. listen no_repr no_repr ts ?s"
  let ?xs = "[sample_listen (Inr True) 102]"
  let ?ts = "?xs @ sample_listen (Inr True) 102 # [sample_listen (Inr False) 102]"
  have "snd (?run ?xs) = ([Synced (Fin 102) (Fin 102)], None)" by code_simp
  then have a: "?run ?xs = (fst (?run ?xs), [Synced (Fin 102) (Fin 102)], None)" by (rule with_snd)
  have "snd (?run ?ts) = ([Synced (Fin 102) (Fin 102)], None)" by code_simp
  then have b: "?run ?ts = (fst (?run ?ts), [Synced (Fin 102) (Fin 102)], None)" by (rule with_snd)
  have "lt_message (sample_listen (Inr True) 102) = Inr True" by (simp add: sample_listen_def)
  from notifications_coalesced [OF a b this] have "spaced (Fin 100) [Synced (Fin 102) (Fin 102)]" by simp
  with b [unfolded append.simps] show ?thesis by blast
qed

end
