(* ===== verification/Tasks.thy ===== *)
theory Tasks imports LeaderRun PushListener begin

text \<open>
  The daemon with its background tasks: what the heartbeat, the reload loop, the account listener, the HTTP
  endpoint and the signal handlers do while the running state sleeps, in any order, and what holds of the
  daemon over its whole run because each of them respects it.
\<close>

section \<open>The effects\<close>

definition push_effect ::
  "(pyval \<Rightarrow> string) \<Rightarrow> (pyval \<Rightarrow> string) \<Rightarrow> sync_round \<Rightarrow> 'pos app \<Rightarrow> 'pos app" where
  "push_effect rep digest r a =
     (let (w, h) = fst (push_sync rep digest r (ap_writer a, ap_health a))
      in a\<lparr>ap_writer := w, ap_health := h\<rparr>)"

definition answer_effect :: "(fl \<Rightarrow> string) \<Rightarrow> fl \<Rightarrow> string \<Rightarrow> 'pos app \<Rightarrow> 'pos app" where
  "answer_effect fl_repr now path a = a\<lparr>ap_health := fst (do_get fl_repr now path (ap_health a))\<rparr>"

text \<open>What happens to the object while the heartbeat sleeps for a slice.\<close>

inductive background_effect ::
  "('pos, 'leg) ext \<Rightarrow> ('pos app \<Rightarrow> 'pos app) \<Rightarrow> bool" for x where
  nothing: "background_effect x id"
| stopping: "background_effect x stop"
| reloading: "background_effect x (\<lambda>a. fst (reload_turn x mtime file a))"
| pushing: "background_effect x (push_effect (x_rep x) (x_digest x) r)"
| answering: "background_effect x (answer_effect fl_repr now path)"
| several: "background_effect x f \<Longrightarrow> background_effect x g \<Longrightarrow> background_effect x (\<lambda>a. g (f a))"

text \<open>What happens while the running state sleeps: that, or a pass of the heartbeat.\<close>

inductive task_effect ::
  "('pos, 'leg) ext \<Rightarrow> ('pos app \<Rightarrow> 'pos app) \<Rightarrow> bool" for x where
  background: "background_effect x f \<Longrightarrow> task_effect x f"
| beating: "\<forall>sl\<in>set (he_slices e). background_effect x (sl_others sl)
    \<Longrightarrow> task_effect x (\<lambda>a. fst (heartbeat x [e] a))"

definition task_turns :: "('pos, 'leg) ext \<Rightarrow> 'pos run_turn list \<Rightarrow> bool" where
  "task_turns x ts \<longleftrightarrow> (\<forall>t\<in>set ts. t = Cancelled \<or> (\<exists>f. t = Others f \<and> task_effect x f))"

text \<open>The helpers of the core library fetch and store; none of them moves a machine.\<close>

definition tame_ext :: "('pos, 'leg) ext \<Rightarrow> bool" where
  "tame_ext x \<longleftrightarrow> tame_helpers x \<and> act_keeps same_machines (x_refresh_edge x)"

section \<open>What every task respects\<close>

context task_keeps
begin

lemma background_R: "background_effect x f \<Longrightarrow> R a (f a)"
proof (induction f arbitrary: a rule: background_effect.induct)
  case stopping
  show ?case unfolding stop_def by (rule stop_R)
next
  case (reloading mtime content)
  have "R a ((reload_config x config a)\<lparr>ap_last_config_mtime := Some t\<rparr>)" for config t
    by (rule R_trans [OF reload_R [of a x config]]) (intro settings_R, simp add: same_trading_def)
  then show ?case
    by (auto simp: reload_turn_def settings_R same_trading_def split: sum.split option.split)
next
  case (pushing r)
  show ?case by (auto simp: push_effect_def settings_R same_trading_def split: prod.split)
next
  case (answering fl_repr now path)
  show ?case by (simp add: answer_effect_def settings_R same_trading_def)
next
  case (several f g)
  then show ?case by (auto intro: R_trans)
qed simp

lemma task_R:
  assumes "tame_helpers x" and "\<And>fe a. \<not> ap_mock_hedging a \<Longrightarrow> R a (fst (eval_hedge x fe a))"
  shows "task_effect x f \<Longrightarrow> R a (f a)"
proof (induction rule: task_effect.induct)
  case (background f)
  then show ?case by (rule background_R)
next
  case (beating e)
  then have "act_keeps R (heartbeat x [e])"
    using assms by (intro keeps_heartbeat) (auto intro: background_R)
  then show ?case by (rule act_keepsD)
qed

lemma waiting_R:
  assumes "tame_helpers x" and "\<And>fe a. \<not> ap_mock_hedging a \<Longrightarrow> R a (fst (eval_hedge x fe a))"
  shows "task_turns x ts \<Longrightarrow> R a (fst (wait_while_running ts a))"
proof (induction ts arbitrary: a)
  case Nil
  show ?case by (subst wait_while_running.simps) simp
next
  case (Cons t ts)
  have "R a (fst (wait_while_running ts (f a)))" if "t = Others f" for f
  proof (rule R_trans)
    show "R a (f a)" using Cons.prems that by (auto simp: task_turns_def intro: task_R [OF assms])
    show "R (f a) (fst (wait_while_running ts (f a)))"
      using Cons.prems by (intro Cons.IH) (simp add: task_turns_def)
  qed
  then show ?case by (subst wait_while_running.simps) (auto split: run_turn.split)
qed

lemma entering_R: "tame_ext x \<Longrightarrow> act_keeps R (enter_running x e)"
  unfolding enter_running_def tame_ext_def
  by (intro rules keeps_run_status keeps_minimal keeps_heartbeat_fields keeps_same) simp_all

end

text \<open>
  A relation that the loop respects too: it allows the moves of the lifecycle and of the trading machine.
\<close>

locale run_keeps = task_keeps R
  for R :: "'pos app \<Rightarrow> 'pos app \<Rightarrow> bool" +
  assumes moves_R: "R a (upd_daemon (\<lambda>m. daemon_transition m s) a)"
    and trading_R: "R a (a\<lparr>ap_trading := t\<rparr>)"
begin

lemma keeps_trading: "act_keeps R (app_trading x ev snap)"
  by (auto simp: act_keeps_def app_trading_def trading_R split: sum.split)

lemma keeps_connected:
  assumes "tame_ext x"
  shows "act_keeps R (handle_connected x e)"
  using assms
  unfolding handle_connected_def tame_ext_def
  by (auto split: option.split intro!: rules keeps_heartbeat_fields keeps_trading keeps_dict keeps_minimal
      keeps_stamp keeps_tame)

lemma moved_R: "R (pr_app p) (pr_app (move_daemon s p))"
  unfolding move_daemon_def by (simp del: upd_daemon_def add: moves_R)

lemma failure_R: "R (pr_app p) (pr_app (after_failure p))"
  by (simp add: after_failure_def moved_R del: daemon_can_transition_iff)

lemma stopping_R: "R (pr_app p) (pr_app (fst (handle_stopping x p)))"
  using stopping_result [of x p] by (auto simp: settings_R same_trading_def)

lemma clean_up_R: "R (pr_app p) (pr_app (clean_up x p))"
  unfolding clean_up_def Let_def
  by (auto intro: R_trans [OF R_trans [OF moved_R stopping_R] moved_R] R_trans [OF stopping_R moved_R])

lemma handler_R:
  assumes "tame_ext x" and hedge: "\<And>fe a. \<not> ap_mock_hedging a \<Longrightarrow> R a (fst (eval_hedge x fe a))"
    and "task_turns x (rn_turns (re_running e))"
    and "get_state_handlers x e (current p) = Some handler" and run: "handler p = (p', r)"
  shows "R (pr_app p) (pr_app p')"
proof (cases "current p")
  case DS_CONNECTED
  have "R (pr_app p) (fst (handle_connected x (re_connected e) (pr_app p)))"
    using keeps_connected [OF assms(1)] by (rule act_keepsD)
  with DS_CONNECTED assms(4) run show ?thesis
    by (auto simp: get_state_handlers_def in_app_def act_bind_def split: sum.splits prod.splits)
next
  case DS_RUNNING
  with assms(4) run have h: "handle_running x (re_running e) p = (p', r)"
    by (simp add: get_state_handlers_def)
  have enter: "R (pr_app p) (fst (enter_running x (re_running e) (pr_app p)))"
    using entering_R [OF assms(1)] by (rule act_keepsD)
  have wait: "R a (fst (wait_while_running (rn_turns (re_running e)) a))" for a
    using assms(1,3) hedge by (intro waiting_R) (simp_all add: tame_ext_def)
  from h enter show ?thesis
    by (cases rule: running_cases) (auto intro: R_trans [OF _ wait])
next
  case DS_STOPPING
  with assms(4) run stopping_R [of p x] show ?thesis
    by (auto simp: get_state_handlers_def act_bind_def split: sum.splits prod.splits)
qed (use assms(4) run in \<open>auto simp: get_state_handlers_def handle_idle_def handle_connecting_def in_app_def
      act_bind_def split: sum.splits\<close>)

lemma loop_R:
  assumes "tame_ext x" and hedge: "\<And>fe a. \<not> ap_mock_hedging a \<Longrightarrow> R a (fst (eval_hedge x fe a))"
    and "task_turns x (rn_turns (re_running e))"
  shows "R (pr_app p) (pr_app (fst (run_loop n x e p)))"
proof (induction n arbitrary: p)
  case 0
  show ?case by (subst run_loop.simps) simp
next
  case (Suc k)
  show ?case
  proof (cases "current p = DS_STOPPED \<or> get_state_handlers x e (current p) = None")
    case True
    then show ?thesis by (subst run_loop.simps) auto
  next
    case False
    then obtain handler p' r where h: "get_state_handlers x e (current p) = Some handler" "handler p = (p', r)"
      by (metis not_None_eq surj_pair)
    have step: "R (pr_app p) (pr_app p')" by (rule handler_R [OF assms h])
    have "R (pr_app p') (pr_app (fst (run_loop k x e (after_failure p'))))"
      "R (pr_app p') (pr_app (fst (run_loop k x e (move_daemon d p'))))" for d
      by (rule R_trans [OF failure_R Suc.IH], rule R_trans [OF moved_R Suc.IH])
    with step False h show ?thesis
      by (auto simp: run_loop_turn split: sum.split option.split intro: R_trans moved_R)
  qed
qed

lemma run_R:
  assumes "tame_ext x" and "\<And>fe a. \<not> ap_mock_hedging a \<Longrightarrow> R a (fst (eval_hedge x fe a))"
    and "task_turns x (rn_turns (re_running e))" and "run x e p = (q, r)"
  shows "R (pr_app p) (pr_app q)"
proof -
  obtain p' r' where l: "run_loop 6 x e p = (p', r')" by fastforce
  with loop_R [OF assms(1-3), of p 6] have "R (pr_app p) (pr_app p')" by simp
  with run_result [OF l] assms(4) show ?thesis by (auto split: if_splits intro: R_trans [OF _ clean_up_R])
qed

text \<open>The service's run around it, which reports the shutdown to the sink.\<close>

lemma run_gs_R:
  assumes "tame_ext x" and "\<And>fe a. \<not> ap_mock_hedging a \<Longrightarrow> R a (fst (eval_hedge x fe a))"
    and "task_turns x (rn_turns (re_running e))" and "run_gs_trading x e p = (q, r)"
  shows "R (pr_app p) (pr_app q)"
proof -
  obtain m s where m: "run x e p = (m, s)" by fastforce
  have "R (pr_app p) (pr_app m)" by (rule run_R [OF assms(1-3) m])
  moreover let ?report = "in_app (act_bind (act_get ap_has_sink) (\<lambda>has_sink.
      act_when (has_sink \<and> x_sink_can x ''write_daemon_graceful_shutdown'') (sink_write x GracefulShutdown))) m"
  have "R (pr_app m) (pr_app (fst ?report))"
    by (auto simp: in_app_def act_when_def sink_write_def settings_R same_trading_def)
  moreover have "q = m \<or> q = fst ?report"
    using assms(4) m by (auto simp: run_gs_trading_def split: sum.splits run_exit.splits prod.splits)
  ultimately show ?thesis by (auto intro: R_trans)
qed

end

section \<open>The lifecycle\<close>

lemma hedge_forward:
  assumes "tame_helpers x"
  shows "forward a (fst (eval_hedge x fe a))"
proof -
  have "flow_step a (fst (eval_hedge x fe a))"
    using eval_hedge_keeps assms by (metis act_keepsD tame_helpers_def)
  then show ?thesis by (simp add: flow_step_def forward_same)
qed

lemma tame_forward: "tame_ext x \<Longrightarrow> forward_helpers x"
  by (auto simp: tame_ext_def tame_helpers_def forward_helpers_def intro: forward.keeps_same)

lemma tasks_forward: "tame_ext x \<Longrightarrow> task_turns x ts \<Longrightarrow> forward_turns ts"
  unfolding forward_turns_def task_turns_def tame_ext_def
  by (metis forward.task_R hedge_forward run_turn.distinct(1) run_turn.inject)

text \<open>
  C5. The daemon and its tasks end together: whatever the heartbeat, the reload loop, the account listener,
  the HTTP endpoint and the signal handlers do while it runs, in any order, and whatever they raise, the
  loop never runs out of its six turns, and once \<open>run\<close> has returned the lifecycle is \<open>STOPPED\<close> and no task
  is left.
\<close>

theorem daemon_with_tasks_stops:
  assumes "tame_ext x" and "task_turns x (rn_turns (re_running e))" and "pr_tasks p = []"
    and "run x e p = (q, r)"
  shows "r \<noteq> Inr OutOfFuel \<and> (r \<noteq> Inr StillRunning \<longrightarrow> current q = DS_STOPPED \<and> pr_tasks q = [])"
  using tame_forward [OF assms(1)] tasks_forward [OF assms(1,2)] assms(3,4) by (rule run_ends)

section \<open>A daemon as it is built\<close>

text \<open>What a mocked daemon keeps, whatever its machine for trading does.\<close>

definition no_order :: "'pos app \<Rightarrow> 'pos app \<Rightarrow> bool" where
  "no_order a b \<longleftrightarrow>
     (ap_mock_hedging a \<longrightarrow>
        ap_mock_hedging b \<and> ap_hedge b = ap_hedge a
        \<and> mx_hedge_count (ap_metrics b) = mx_hedge_count (ap_metrics a)
        \<and> st_daily_hedge_count (ap_store b) = st_daily_hedge_count (ap_store a)
        \<and> eg_daily_hedge_count (ap_guard b) = eg_daily_hedge_count (ap_guard a))"

interpretation no_order: run_keeps no_order
  by unfold_locales (auto simp: no_order_def same_machines_def same_trading_def)

lemma service_app_fresh:
  "service_app x en health = Inr a \<Longrightarrow>
     ap_mock_hedging a \<and> ap_hedge a = hedge_init (hc_min_hedge_shares (ap_hedge_cfg a)) False
     \<and> mx_hedge_count (ap_metrics a) = 0 \<and> st_daily_hedge_count (ap_store a) = 0
     \<and> eg_daily_hedge_count (ap_guard a) = 0 \<and> eg_daily_hedge_date (ap_guard a) = None"
  by (auto simp: service_app_def mk_app_def Let_def rbind_Inr_iff metrics_init_def store_init_def
      guard_of_config_def mk_exec_guard_def)

text \<open>
  C13. The service as it is deployed sends no order: it is built with hedging mocked, and nothing in its run
  lifts that, neither the bootstrap nor a command, a run status, a reload, a notification or a request. At
  the end of the run, and at any time before, the hedge machine is as it was built and no order is counted
  by the metrics, the store or the order gate.
\<close>

theorem service_never_orders:
  assumes "tame_ext x" and "task_turns x (rn_turns (re_running re))"
    and "service_app x en health = Inr a" and "service x en re health = Inr (q, r)"
  shows "ap_hedge (pr_app q) = ap_hedge a \<and> ap_mock_hedging (pr_app q)
    \<and> mx_hedge_count (ap_metrics (pr_app q)) = 0 \<and> st_daily_hedge_count (ap_store (pr_app q)) = 0
    \<and> eg_daily_hedge_count (ap_guard (pr_app q)) = 0"
proof -
  have "run_gs_trading x re \<lparr>pr_app = a, pr_tasks = []\<rparr> = (q, r)"
    using assms(3,4) by (simp add: service_def)
  then have "no_order a (pr_app q)"
    using no_order.run_gs_R [OF assms(1) _ assms(2)] by (simp add: no_order_def)
  with service_app_fresh [OF assms(3)] show ?thesis by (simp add: no_order_def)
qed

section \<open>The counters\<close>

text \<open>
  The three counters of orders have grown by the same amount, the guard's as long as it carries no date,
  and a ready hedge machine is ready again.
\<close>

definition counted :: "'pos app \<Rightarrow> 'pos app \<Rightarrow> bool" where
  "counted a b \<longleftrightarrow>
     (can_place_order (ap_hedge a) \<longrightarrow> can_place_order (ap_hedge b))
     \<and> mx_hedge_count (ap_metrics a) \<le> mx_hedge_count (ap_metrics b)
     \<and> st_daily_hedge_count (ap_store b) - st_daily_hedge_count (ap_store a)
        = mx_hedge_count (ap_metrics b) - mx_hedge_count (ap_metrics a)
     \<and> (eg_daily_hedge_date (ap_guard a) = None \<longrightarrow>
          eg_daily_hedge_date (ap_guard b) = None
          \<and> eg_daily_hedge_count (ap_guard b) - eg_daily_hedge_count (ap_guard a)
             = mx_hedge_count (ap_metrics b) - mx_hedge_count (ap_metrics a))"

interpretation counted: run_keeps counted
  by unfold_locales (auto simp: counted_def same_machines_def same_trading_def)

text \<open>
  C9. The counters of orders agree over a whole run, hedging mocked or not: when the metrics, the store and
  the order gate agree before it and the hedge machine is ready, they agree after it and the machine is
  ready, whatever the tasks did; the configuration may have been reloaded any number of times.
\<close>

theorem counters_agree_over_a_run:
  assumes "tame_ext x" and "task_turns x (rn_turns (re_running e))" and "run x e p = (q, r)"
    and "can_place_order (ap_hedge (pr_app p))" and "eg_daily_hedge_date (ap_guard (pr_app p)) = None"
    and "eg_daily_hedge_count (ap_guard (pr_app p)) = mx_hedge_count (ap_metrics (pr_app p))"
    and "st_daily_hedge_count (ap_store (pr_app p)) = mx_hedge_count (ap_metrics (pr_app p))"
  shows "can_place_order (ap_hedge (pr_app q))
    \<and> eg_daily_hedge_count (ap_guard (pr_app q)) = mx_hedge_count (ap_metrics (pr_app q))
    \<and> st_daily_hedge_count (ap_store (pr_app q)) = mx_hedge_count (ap_metrics (pr_app q))"
proof -
  have "counted a (fst (eval_hedge x fe a))" for fe a
    using act_keepsD [OF eval_hedge_keeps, of x a fe] assms(1)
    by (auto simp: tame_ext_def tame_helpers_def flow_step_def counted_def)
  then have "counted (pr_app p) (pr_app q)"
    by (rule counted.run_R [OF assms(1) _ assms(2,3)])
  with assms(4-7) show ?thesis by (simp add: counted_def)
qed

section \<open>Witnesses\<close>

text \<open>A reload and a notification in a slice of the heartbeat, then a request and a signal.\<close>

definition sample_beat :: "unit pass_env" where
  "sample_beat = sample_pass\<lparr>he_slices := replicate 5 ((sample_slice None)\<lparr>sl_others :=
     (\<lambda>a. push_effect (x_rep sample_ext) (x_digest sample_ext) sample_round
        (fst (reload_turn sample_ext (Inr (Fin 20)) (Inr []) a)))\<rparr>)\<rparr>"

definition sample_tasks :: "unit run_env" where
  "sample_tasks = sample_run\<lparr>re_running := (re_running sample_run)\<lparr>rn_turns :=
     [Others (\<lambda>a. fst (heartbeat sample_ext [sample_beat] a)),
      Others (answer_effect (\<lambda>_. ''0'') (Fin 1) ''/metrics''), Others stop]\<rparr>\<rparr>"

lemma sample_task_turns: "tame_ext sample_ext" "task_turns sample_ext (rn_turns (re_running sample_tasks))"
proof -
  show "tame_ext sample_ext"
    by (simp add: tame_ext_def tame_helpers_def sample_ext_def same.keeps_pure)
  have "background_effect sample_ext (\<lambda>a. push_effect (x_rep sample_ext) (x_digest sample_ext) sample_round
      (fst (reload_turn sample_ext (Inr (Fin 20)) (Inr []) a)))"
    by (rule several [OF reloading pushing])
  then have "task_effect sample_ext (\<lambda>a. fst (heartbeat sample_ext [sample_beat] a))"
    by (intro beating) (simp add: sample_beat_def)
  moreover have "task_effect sample_ext (answer_effect (\<lambda>_. ''0'') (Fin 1) ''/metrics'')" "task_effect sample_ext stop"
    by (rule background [OF answering], rule background [OF stopping])
  ultimately show "task_turns sample_ext (rn_turns (re_running sample_tasks))"
    by (simp add: task_turns_def sample_tasks_def)
qed

lemma daemon_with_tasks_stops_witness:
  "\<exists>q r. run sample_ext sample_tasks \<lparr>pr_app = running_app, pr_tasks = []\<rparr> = (q, r)
     \<and> current q = DS_STOPPED \<and> pr_tasks q = []"
proof -
  let ?p = "\<lparr>pr_app = running_app, pr_tasks = []\<rparr> :: unit process"
  have "snd (enter_running sample_ext (re_running sample_tasks) running_app) = Inr ()" by code_simp
  then obtain q where q: "run sample_ext sample_tasks ?p = (q, Inr (InvalidTransition DS_RUNNING DS_STOPPING))"
    using stop_ends_a_running_daemon [of sample_ext sample_tasks ?p] sample_task_turns
      tame_forward [of sample_ext] tasks_forward [of sample_ext]
    by (auto simp: current_def running_app_def sample_tasks_def)
  from daemon_with_tasks_stops [OF sample_task_turns _ q] q show ?thesis by simp
qed

lemma service_never_orders_witness:
  "\<exists>q r. service sample_ext sample_entry sample_tasks health_init = Inr (q, r)
     \<and> mx_hedge_count (ap_metrics (pr_app q)) = 0"
proof -
  obtain a where a: "service_app sample_ext sample_entry health_init = Inr a" by (rule sample_service)
  obtain q r where q: "service sample_ext sample_entry sample_tasks health_init = Inr (q, r)"
    using a by (cases "run_gs_trading sample_ext sample_tasks \<lparr>pr_app = a, pr_tasks = []\<rparr>") (simp add: service_def)
  from service_never_orders [OF sample_task_turns a q] q show ?thesis by simp
qed

lemma counters_agree_over_a_run_witness:
  "\<exists>q r. run sample_ext sample_tasks \<lparr>pr_app = running_app\<lparr>ap_mock_hedging := False\<rparr>, pr_tasks = []\<rparr> = (q, r)
     \<and> eg_daily_hedge_count (ap_guard (pr_app q)) = mx_hedge_count (ap_metrics (pr_app q))"
proof -
  let ?p = "\<lparr>pr_app = running_app\<lparr>ap_mock_hedging := False\<rparr>, pr_tasks = []\<rparr> :: unit process"
  obtain q r where q: "run sample_ext sample_tasks ?p = (q, r)" by fastforce
  have "can_place_order (ap_hedge (pr_app ?p))" "eg_daily_hedge_date (ap_guard (pr_app ?p)) = None"
    "eg_daily_hedge_count (ap_guard (pr_app ?p)) = mx_hedge_count (ap_metrics (pr_app ?p))"
    "st_daily_hedge_count (ap_store (pr_app ?p)) = mx_hedge_count (ap_metrics (pr_app ?p))" by code_simp+
  from counters_agree_over_a_run [OF sample_task_turns q this] q show ?thesis by blast
qed

end
