(* ===== verification/PyFormat.thy ===== *)
theory PyFormat imports PyValue begin

text \<open>
  Texts of numbers: Python's fixed-point format \<open>f"{x:.nf}"\<close>, which rounds the exact value of the float
  to even, and the values that its texts name.
\<close>

section \<open>Fixed-point texts\<close>

definition pad_zeros :: "nat \<Rightarrow> string \<Rightarrow> string" where
  "pad_zeros n s = replicate (n - length s) (CHR ''0'') @ s"

definition fixed_digits :: "nat \<Rightarrow> nat \<Rightarrow> string" where
  "fixed_digits n k =
     (if n = 0 then show_nat k
      else show_nat (k div 10 ^ n) @ CHR ''.'' # pad_zeros n (show_nat (k mod 10 ^ n)))"

definition format_fixed :: "nat \<Rightarrow> fl \<Rightarrow> string" where
  "format_fixed n x =
     (case x of
        Fin r \<Rightarrow> (if r < 0 then ''-'' else []) @ fixed_digits n (nat (round_half_even (\<bar>r\<bar> * 10 ^ n)))
      | PInf \<Rightarrow> ''inf'' | NInf \<Rightarrow> ''-inf'' | NaN \<Rightarrow> ''nan'')"

section \<open>What the digits say\<close>

lemma digit_char_not [simp]:
  "d < 10 \<Longrightarrow> digit_char d \<noteq> CHR ''.''" "d < 10 \<Longrightarrow> digit_char d \<noteq> CHR ''e''"
  "d < 10 \<Longrightarrow> digit_char d \<noteq> CHR ''E''"
  by (auto dest: digit_of_char simp: digit_of_def dest!: arg_cong [where f = digit_of])

definition all_digits :: "string \<Rightarrow> bool" where
  "all_digits s \<longleftrightarrow> (\<forall>c\<in>set s. digit_of c \<noteq> None)"

lemma show_nat_digits: "all_digits (show_nat n)"
proof (induction n rule: show_nat.induct)
  case (1 n)
  then show ?case
    by (subst show_nat.simps) (auto simp: all_digits_def digit_of_char)
qed

lemma digit_run_digits:
  "all_digits s \<Longrightarrow> s \<noteq> [] \<or> prev \<Longrightarrow> digit_run prev s = Some (map (the \<circ> digit_of) s)"
  by (induction s arbitrary: prev) (auto simp: all_digits_def)

lemma digits_value_append: "digits_value (a @ b) = digits_value a * 10 ^ length b + digits_value b"
  by (induction b rule: rev_induct) (simp_all add: digits_value_def algebra_simps)

lemma digits_value_read: "digits_value (map (the \<circ> digit_of) s) = int (read_nat s)"
  by (induction s rule: rev_induct) (simp_all add: digits_value_def read_nat_def)

lemma read_pad: "read_nat (pad_zeros n s) = read_nat s"
proof -
  have "foldl (\<lambda>n c. 10 * n + the (digit_of c)) 0 (replicate k (CHR ''0'')) = 0" for k
    by (induction k) (simp_all add: digit_of_def)
  then show ?thesis by (simp add: pad_zeros_def read_nat_def)
qed

lemma show_nat_length: "n < 10 ^ m \<Longrightarrow> 0 < m \<Longrightarrow> length (show_nat n) \<le> m"
proof (induction n arbitrary: m rule: show_nat.induct)
  case (1 n)
  show ?case
  proof (cases "n < 10")
    case True
    with 1 show ?thesis by (subst show_nat.simps) simp
  next
    case False
    then obtain k where m: "m = Suc k" "0 < k" using 1(2,3) by (cases m; cases "m - 1") auto
    with 1(2) have "n div 10 < 10 ^ k" by (simp add: less_mult_imp_div_less mult.commute)
    with 1(1) False m have "length (show_nat (n div 10)) \<le> k" by simp
    with False m show ?thesis by (subst show_nat.simps) simp
  qed
qed

lemma pad_length: "length s \<le> n \<Longrightarrow> length (pad_zeros n s) = n"
  by (simp add: pad_zeros_def)

lemma pad_digits: "all_digits s \<Longrightarrow> all_digits (pad_zeros n s)"
  by (auto simp: all_digits_def pad_zeros_def digit_of_def)

lemma all_digits_no_mark:
  "all_digits s \<Longrightarrow> c \<in> set s \<Longrightarrow> c \<noteq> CHR ''.'' \<and> c \<noteq> CHR ''e'' \<and> c \<noteq> CHR ''E''"
  by (auto simp: all_digits_def digit_of_def)

lemma split_at_none: "(\<forall>c\<in>set s. \<not> p c) \<Longrightarrow> split_at p s = (s, None)"
proof -
  assume "\<forall>c\<in>set s. \<not> p c"
  then have t: "takeWhile (\<lambda>c. \<not> p c) s = s" and d: "dropWhile (\<lambda>c. \<not> p c) s = []" by simp_all
  show ?thesis unfolding split_at_def t d by simp
qed

lemma split_at_some: "(\<forall>c\<in>set s. \<not> p c) \<Longrightarrow> p d \<Longrightarrow> split_at p (s @ d # t) = (s, Some t)"
  by (simp add: split_at_def)

lemma parse_fixed_digits: "parse_decimal (fixed_digits n k) = Some (of_nat k / 10 ^ n)"
proof (cases "n = 0")
  case True
  have s: "split_at (\<lambda>c. c = CHR ''e'' \<or> c = CHR ''E'') (show_nat k) = (show_nat k, None)"
    "split_at (\<lambda>c. c = CHR ''.'') (show_nat k) = (show_nat k, None)"
    using all_digits_no_mark [OF show_nat_digits] by (auto intro!: split_at_none)
  show ?thesis
    by (simp add: True fixed_digits_def parse_decimal_def s opt_digits_def digit_run_digits [OF show_nat_digits]
        digits_value_read read_show_nat)
next
  case False
  let ?a = "show_nat (k div 10 ^ n)" and ?b = "pad_zeros n (show_nat (k mod 10 ^ n))"
  have b: "all_digits ?b" "length ?b = n"
    using False by (simp_all add: pad_digits show_nat_digits pad_length show_nat_length)
  then have nb: "?b \<noteq> []" using False by auto
  have marks: "\<forall>c\<in>set (?a @ CHR ''.'' # ?b). \<not> (c = CHR ''e'' \<or> c = CHR ''E'')" "\<forall>c\<in>set ?a. c \<noteq> CHR ''.''"
    using all_digits_no_mark [OF show_nat_digits] all_digits_no_mark [OF b(1)] by auto
  have "int (k div 10 ^ n * 10 ^ n + k mod 10 ^ n) = int k" by (simp only: div_mult_mod_eq)
  then have "int (k div 10 ^ n) * 10 ^ n + int (k mod 10 ^ n) = int k"
    by (simp only: of_nat_add of_nat_mult of_nat_power of_nat_numeral)
  then have "digits_value (map (the \<circ> digit_of) ?a @ map (the \<circ> digit_of) ?b) = int k"
    by (simp add: digits_value_append digits_value_read read_pad read_show_nat b(2))
  then show ?thesis
    using False nb
    by (simp add: fixed_digits_def parse_decimal_def split_at_none [OF marks(1)] split_at_some [OF marks(2)] opt_digits_def
        digit_run_digits [OF show_nat_digits] digit_run_digits [OF b(1)] b(2) power_int_minus field_simps)
qed

section \<open>Properties\<close>

text \<open>
  A fixed-point text is the nearest one: the text of a finite number is a decimal number, with a sign
  exactly when the number is negative, that differs from it by at most half a unit of the last digit.
\<close>

theorem fixed_text_is_nearest:
  assumes "0 \<le> r"
  shows "\<exists>q. parse_decimal (format_fixed n (Fin r)) = Some q \<and> \<bar>q - r\<bar> \<le> 1 / (2 * 10 ^ n)
    \<and> (0 < r \<longrightarrow> format_fixed n (Fin (- r)) = CHR ''-'' # format_fixed n (Fin r))"
proof -
  let ?k = "round_half_even (r * 10 ^ n)"
  have k: "0 \<le> ?k" using assms by (intro round_half_even_ge) simp
  have f: "format_fixed n (Fin r) = fixed_digits n (nat ?k)" using assms by (simp add: format_fixed_def)
  have "\<bar>of_int ?k / 10 ^ n - r\<bar> = \<bar>of_int ?k - r * 10 ^ n\<bar> / 10 ^ n"
  proof -
    have "of_int ?k / 10 ^ n - r = (of_int ?k - r * 10 ^ n) / 10 ^ n" by (simp add: field_simps)
    then show ?thesis by simp
  qed
  also have "\<dots> \<le> (1 / 2) / 10 ^ n"
    using round_half_even_near by (intro divide_right_mono) simp_all
  finally have "\<bar>of_int ?k / 10 ^ n - r\<bar> \<le> 1 / (2 * 10 ^ n)" by simp
  moreover have "format_fixed n (Fin (- r)) = CHR ''-'' # format_fixed n (Fin r)" if "0 < r"
    using that by (simp add: format_fixed_def)
  ultimately show ?thesis using k by (simp add: f parse_fixed_digits)
qed

section \<open>Witnesses\<close>

lemma fixed_text_is_nearest_witness:
  "format_fixed 2 (Fin (1 / 8)) = ''0.12''
   \<and> (\<exists>q. parse_decimal (format_fixed 2 (Fin (1 / 8))) = Some q \<and> \<bar>q - 1 / 8\<bar> \<le> 1 / 200)"
proof -
  have "format_fixed 2 (Fin (1 / 8)) = ''0.12''" by code_simp
  with fixed_text_is_nearest [of "1 / 8" 2] show ?thesis by auto
qed

end
