(* ===== verification/LogLines.thy ===== *)
theory LogLines
  imports PyFormat Composite RuntimeStore "HOL-Library.Multiset" "HOL-Library.Char_ord" "HOL-Library.List_Lexorder"
begin

text \<open>
  The structured log lines of \<open>core/logging_utils.py\<close> and the metrics line of \<open>core/metrics.py\<close>: a word
  for the kind and then \<open>key=value\<close> fields. The fresh part of a trace id, a version 4 UUID, is an argument.
\<close>

section \<open>The fields of a line\<close>

text \<open>
  The functions change the dictionary they are given, unless it is empty or missing; the model returns
  the fields as they are when the line is written.
\<close>

definition ensure_trace_id :: "string \<Rightarrow> pydict \<Rightarrow> pyval \<times> pydict" where
  "ensure_trace_id uuid extra =
     (let trace_id = dget extra ''trace_id'' VNone
      in if truthy trace_id then (trace_id, extra)
         else let fresh = VStr (take 8 uuid) in (fresh, dput extra ''trace_id'' fresh))"

definition put_text :: "string \<Rightarrow> string option \<Rightarrow> pydict \<Rightarrow> pydict" where
  "put_text k v d = (case v of None \<Rightarrow> d | Some s \<Rightarrow> if s = [] then d else dput d k (VStr s))"

definition put_int :: "string \<Rightarrow> int option \<Rightarrow> pydict \<Rightarrow> pydict" where
  "put_int k v d = (case v of None \<Rightarrow> d | Some i \<Rightarrow> dput d k (VInt i))"

definition given_extra :: "pydict option \<Rightarrow> pydict" where
  "given_extra extra = (case extra of None \<Rightarrow> [] | Some d \<Rightarrow> d)"

fun join_fields :: "string list \<Rightarrow> string" where
  "join_fields [] = []"
| "join_fields [f] = f"
| "join_fields (f # fs) = f @ CHR '' '' # join_fields fs"

definition log_field :: "(pyval \<Rightarrow> string) \<Rightarrow> string \<times> pyval \<Rightarrow> string" where
  "log_field rep kv = fst kv @ CHR ''='' # py_str rep (snd kv)"

definition log_line :: "(pyval \<Rightarrow> string) \<Rightarrow> string \<Rightarrow> pydict \<Rightarrow> string" where
  "log_line rep kind extra = kind @ CHR '' '' # join_fields (map (log_field rep) (sort_key fst extra))"

definition state_fields :: "composite_state \<Rightarrow> pydict \<Rightarrow> pydict" where
  "state_fields cs d =
     dput (dput (dput (dput (dput (dput d ''O'' (VStr (option_position_value (cs_O cs))))
       ''D'' (VStr (delta_deviation_value (cs_D cs)))) ''M'' (VStr (market_regime_value (cs_M cs))))
       ''L'' (VStr (liquidity_value (cs_L cs)))) ''E'' (VStr (execution_value (cs_E cs))))
       ''S'' (VStr (system_health_value (cs_S cs)))"

section \<open>The lines\<close>

definition log_composite_state ::
  "(pyval \<Rightarrow> string) \<Rightarrow> string \<Rightarrow> string option \<Rightarrow> string option \<Rightarrow> composite_state option \<Rightarrow> pydict option
   \<Rightarrow> pydict \<times> string" where
  "log_composite_state rep uuid trace_id event_id cs extra =
     (let e1 = put_text ''trace_id'' trace_id (given_extra extra);
          e2 = put_text ''event_id'' event_id (snd (ensure_trace_id uuid e1));
          e3 = (case cs of None \<Rightarrow> e2
                | Some c \<Rightarrow> dput (dput (dput (dput (dput (state_fields c e2)
                    ''net_delta'' (VFloat (cs_net_delta c))) ''option_delta'' (VFloat (cs_option_delta c)))
                    ''stock_pos'' (VInt (cs_stock_pos c))) ''greeks_valid'' (VBool (cs_greeks_valid c)))
                    ''ts'' (VFloat (cs_ts c)))
      in (e3, log_line rep ''composite_state'' e3))"

definition log_target_position ::
  "(pyval \<Rightarrow> string) \<Rightarrow> string \<Rightarrow> string option \<Rightarrow> string option \<Rightarrow> int option \<Rightarrow> composite_state option
   \<Rightarrow> pydict option \<Rightarrow> pydict \<times> string" where
  "log_target_position rep uuid trace_id event_id target_shares cs extra =
     (let e1 = snd (ensure_trace_id uuid (given_extra extra));
          e2 = put_int ''target_shares'' target_shares (put_text ''event_id'' event_id e1);
          e3 = (case cs of None \<Rightarrow> e2
                | Some c \<Rightarrow> dput (state_fields c e2) ''net_delta'' (VFloat (cs_net_delta c)))
      in (e3, log_line rep ''target_position'' e3))"

definition log_order_status ::
  "(pyval \<Rightarrow> string) \<Rightarrow> string \<Rightarrow> string option \<Rightarrow> string option \<Rightarrow> string option \<Rightarrow> string option \<Rightarrow> int option
   \<Rightarrow> pydict option \<Rightarrow> pydict \<times> string" where
  "log_order_status rep uuid trace_id event_id order_status side quantity extra =
     (let e1 = snd (ensure_trace_id uuid (given_extra extra));
          e2 = put_int ''quantity'' quantity (put_text ''side'' side
                 (put_text ''order_status'' order_status (put_text ''event_id'' event_id e1)))
      in (e2, log_line rep ''order_status'' e2))"

definition log_fsm_transition ::
  "(pyval \<Rightarrow> string) \<Rightarrow> string \<Rightarrow> string \<Rightarrow> string \<Rightarrow> string \<Rightarrow> string option \<Rightarrow> (string \<times> bool) list option
   \<Rightarrow> pydict option \<Rightarrow> pydict \<times> string" where
  "log_fsm_transition rep uuid from_state to_state event trace_id guards extra =
     (let e1 = snd (ensure_trace_id uuid (given_extra extra));
          e2 = dput (dput (dput e1 ''from_state'' (VStr from_state)) ''to_state'' (VStr to_state))
                 ''event'' (VStr event);
          e3 = (case guards of None \<Rightarrow> e2
                | Some gs \<Rightarrow> dput e2 ''guards_evaluated''
                    (VDict (map (\<lambda>(k, v). (k, VBool v)) (filter snd gs))))
      in (e3, log_line rep ''fsm_transition'' e3))"

section \<open>The metrics line\<close>

definition text_part :: "string \<Rightarrow> string option \<Rightarrow> string list" where
  "text_part name v = (case v of None \<Rightarrow> [] | Some s \<Rightarrow> if s = [] then [] else [name @ s])"

definition number_part :: "string \<Rightarrow> nat \<Rightarrow> fl option \<Rightarrow> string list" where
  "number_part name n v = (case v of None \<Rightarrow> [] | Some x \<Rightarrow> [name @ format_fixed n x])"

definition log_snapshot :: "metrics \<Rightarrow> string res" where
  "log_snapshot m =
     rmap (\<lambda>avg. ''metrics '' @ join_fields
       ([''hedge_count='' @ show_int (mx_hedge_count m)]
        @ number_part ''avg_slippage='' 4 avg
        @ number_part ''data_lag_ms='' 0 (mx_data_lag_ms m)
        @ text_part ''spread_bucket='' (mx_spread_bucket m)
        @ number_part ''delta_abs='' 1 (mx_delta_abs m)
        @ text_part ''current_state='' (mx_current_state m)
        @ number_part ''gamma='' 4 (mx_gamma m)
        @ [''reprice_count='' @ show_int (mx_reprice_count m),
           ''safe_mode_count='' @ show_int (mx_safe_mode_count m)])) (avg_slippage m)"

text \<open>The instance of the process, made by the first call.\<close>

definition get_metrics :: "metrics option \<Rightarrow> metrics \<times> metrics option" where
  "get_metrics g = (case g of None \<Rightarrow> (metrics_init, Some metrics_init) | Some m \<Rightarrow> (m, g))"

section \<open>Reading a line back\<close>

fun words_of :: "string \<Rightarrow> string list" where
  "words_of [] = [[]]"
| "words_of (c # cs) =
     (if c = CHR '' '' then [] # words_of cs
      else case words_of cs of [] \<Rightarrow> [[c]] | w # ws \<Rightarrow> (c # w) # ws)"

definition read_field :: "string \<Rightarrow> string \<times> string" where
  "read_field w = (let (k, v) = split_at (\<lambda>c. c = CHR ''='') w in (k, case v of None \<Rightarrow> [] | Some t \<Rightarrow> t))"

definition read_line :: "string \<Rightarrow> string \<times> (string \<times> string) list" where
  "read_line l = (hd (words_of l), map read_field (tl (words_of l)))"

text \<open>Fields whose keys and texts hold no blank, and whose keys hold no equals sign.\<close>

definition readable :: "(pyval \<Rightarrow> string) \<Rightarrow> pydict \<Rightarrow> bool" where
  "readable rep d \<longleftrightarrow> (\<forall>(k, v)\<in>set d. CHR '' '' \<notin> set k \<and> CHR ''='' \<notin> set k \<and> CHR '' '' \<notin> set (py_str rep v))"

lemma words_of_nonempty [simp]: "words_of s \<noteq> []"
  by (induction s) (auto split: list.split)

lemma words_of_word: "CHR '' '' \<notin> set w \<Longrightarrow> words_of w = [w]"
  by (induction w) auto

lemma words_of_append: "CHR '' '' \<notin> set w \<Longrightarrow> words_of (w @ CHR '' '' # s) = w # words_of s"
  by (induction w) auto

lemma words_of_join:
  "\<forall>f\<in>set fs. CHR '' '' \<notin> set f \<Longrightarrow> fs \<noteq> [] \<Longrightarrow> words_of (join_fields fs) = fs"
  by (induction fs rule: join_fields.induct) (simp_all add: words_of_word words_of_append)

lemma read_log_field: "CHR ''='' \<notin> set k \<Longrightarrow> read_field (log_field rep (k, v)) = (k, py_str rep v)"
proof -
  assume "CHR ''='' \<notin> set k"
  then have "split_at (\<lambda>c. c = CHR ''='') (k @ CHR ''='' # py_str rep v) = (k, Some (py_str rep v))"
    by (intro split_at_some) auto
  then show ?thesis by (simp add: read_field_def log_field_def)
qed

lemma map_of_sort_key: "distinct (map fst d) \<Longrightarrow> map_of (sort_key fst d) = map_of d"
proof -
  assume "distinct (map fst d)"
  moreover have "mset (map fst (sort_key fst d)) = mset (map fst d)" by simp
  then have "distinct (map fst (sort_key fst d)) = distinct (map fst d)" by (rule mset_eq_imp_distinct_iff)
  ultimately show ?thesis by (intro map_of_inject_set [THEN iffD2]) simp_all
qed

lemma keys_of_sort_key: "map fst (sort_key fst d) = sort (map fst d)"
  by (rule properties_for_sort [symmetric]) simp_all

lemma read_log_line:
  assumes "readable rep d" and "d \<noteq> []" and "CHR '' '' \<notin> set kind"
  shows "read_line (log_line rep kind d) = (kind, map (\<lambda>(k, v). (k, py_str rep v)) (sort_key fst d))"
proof -
  let ?fs = "map (log_field rep) (sort_key fst d)"
  have ok: "CHR '' '' \<notin> set k \<and> CHR ''='' \<notin> set k \<and> CHR '' '' \<notin> set (py_str rep v)"
    if "(k, v) \<in> set (sort_key fst d)" for k v
    using assms(1) that by (auto simp: readable_def)
  have "words_of (join_fields ?fs) = ?fs"
    using assms(2) ok by (intro words_of_join) (auto simp: log_field_def dest: arg_cong [where f = set])
  moreover have "map read_field ?fs = map (\<lambda>(k, v). (k, py_str rep v)) (sort_key fst d)"
    using ok by (auto simp: read_log_field)
  ultimately show ?thesis
    using assms(3) by (simp add: read_line_def log_line_def words_of_append)
qed

section \<open>Properties\<close>

text \<open>
  C32. A structured line can be read back: when no key or value holds a blank and no key an equals sign,
  splitting the line at blanks and each field at its first equals sign gives the kind and the text of every
  field, in the order of the keys, whatever the order in which the fields were put.
\<close>

theorem log_line_roundtrip:
  assumes "readable rep d" and "d \<noteq> []" and "distinct (map fst d)" and "CHR '' '' \<notin> set kind"
  shows "fst (read_line (log_line rep kind d)) = kind
    \<and> map fst (snd (read_line (log_line rep kind d))) = sort (map fst d)
    \<and> map_of (snd (read_line (log_line rep kind d))) = (\<lambda>k. map_option (py_str rep) (map_of d k))"
proof -
  have "map fst (map (\<lambda>(k, v). (k, py_str rep v)) (sort_key fst d)) = sort (map fst d)"
    by (simp add: keys_of_sort_key [symmetric] case_prod_unfold)
  moreover have "map_of (map (\<lambda>(k, v). (k, py_str rep v)) (sort_key fst d)) = (\<lambda>k. map_option (py_str rep) (map_of d k))"
    using assms(3) by (simp add: map_of_map map_of_sort_key fun_eq_iff)
  ultimately show ?thesis using read_log_line [OF assms(1,2,4)] by simp
qed

text \<open>
  The trace id that a caller passes correlates only the lines of \<open>log_composite_state\<close>: the other three
  functions never look at theirs and put a fresh one when the fields bring none.
\<close>

lemma given_trace_id_kept_by_one_line:
  assumes "t \<noteq> []" and "take 8 uuid \<noteq> []"
  shows "dget (fst (log_composite_state rep uuid (Some t) None None None)) ''trace_id'' VNone = VStr t
    \<and> dget (fst (log_target_position rep uuid (Some t) None None None None)) ''trace_id'' VNone = VStr (take 8 uuid)
    \<and> dget (fst (log_order_status rep uuid (Some t) None None None None None)) ''trace_id'' VNone = VStr (take 8 uuid)
    \<and> dget (fst (log_fsm_transition rep uuid a b ev (Some t) None None)) ''trace_id'' VNone = VStr (take 8 uuid)"
  using assms
  by (simp add: log_composite_state_def log_target_position_def log_order_status_def log_fsm_transition_def
      ensure_trace_id_def put_text_def put_int_def given_extra_def Let_def)

section \<open>Witnesses\<close>

lemma log_line_roundtrip_witness:
  "map_of (snd (read_line (snd (log_order_status (\<lambda>_. ''?'') ''0f8fad5b-d9cb'' None None (Some ''sent'') (Some ''BUY'')
     (Some 40) None)))) ''quantity'' = Some ''40''"
proof -
  let ?l = "log_order_status (\<lambda>_. ''?'') ''0f8fad5b-d9cb'' None None (Some ''sent'') (Some ''BUY'') (Some 40) None"
  have d: "fst ?l = [(''trace_id'', VStr ''0f8fad5b''), (''order_status'', VStr ''sent''), (''side'', VStr ''BUY''),
      (''quantity'', VInt 40)]" by code_simp
  have l: "snd ?l = log_line (\<lambda>_. ''?'') ''order_status'' (fst ?l)" by (simp add: log_order_status_def Let_def)
  have "show_int 40 = ''40''" by code_simp
  moreover from this have "readable (\<lambda>_. ''?'') (fst ?l)" unfolding d readable_def by simp
  ultimately show ?thesis
    using log_line_roundtrip [of "\<lambda>_. ''?''" "fst ?l" "''order_status''"] unfolding l d by simp
qed

end
