(* ===== verification/HttpServer.thy ===== *)
theory HttpServer imports PyFormat Observability begin

text \<open>
  The answers of the HTTP endpoint as they leave the handler, \<open>_Handler\<close> of \<open>app/observability.py\<close>: the text
  of each body, its headers and its bytes; and what a scraper reads from the metrics page.
\<close>

section \<open>Responses\<close>

fun reason_text :: "live_reason \<Rightarrow> string" where
  "reason_text Standby = ''standby''"
| "reason_text (NoHeartbeatFor beaten age) =
     ''no '' @ (if beaten then ''heartbeat'' else ''first heartbeat since leading'') @ '' for '' @ format_fixed 0 age
     @ ''s (limit '' @ format_fixed 0 heartbeat_max_age @ ''s)''"
| "reason_text (HeartbeatAgo age) = ''heartbeat '' @ format_fixed 0 age @ ''s ago''"

fun body_text :: "http_body \<Rightarrow> string" where
  "body_text (MetricsPage page) = page"
| "body_text (HealthReason reason) = reason_text reason @ [newline]"
| "body_text NotFound = ''not found'' @ [newline]"

fun content_type :: "http_body \<Rightarrow> string" where
  "content_type (MetricsPage page) = ''text/plain; version=0.0.4''"
| "content_type b = ''text/plain''"

text \<open>UTF-8, for the code points below 256 that a \<open>char\<close> can hold.\<close>

definition encode_char :: "char \<Rightarrow> nat list" where
  "encode_char c =
     (let n = of_char c in if n < 128 then [n] else [192 + n div 64, 128 + n mod 64])"

definition encode_text :: "string \<Rightarrow> nat list" where
  "encode_text s = concat (map encode_char s)"

record http_response =
  rs_status :: int
  rs_headers :: "(string \<times> string) list"
  rs_body :: "nat list"

definition send :: "int \<Rightarrow> string \<Rightarrow> string \<Rightarrow> http_response" where
  "send code body ctype =
     (let data = encode_text body
      in \<lparr>rs_status = code,
          rs_headers = [(''Content-Type'', ctype), (''Content-Length'', show_int (int (length data)))],
          rs_body = data\<rparr>)"

definition respond ::
  "(fl \<Rightarrow> string) \<Rightarrow> fl \<Rightarrow> string \<Rightarrow> daemon_health \<Rightarrow> daemon_health \<times> http_response res" where
  "respond fl_repr now request_path h =
     (let (h', r) = do_get fl_repr now request_path h
      in (h', rmap (\<lambda>(code, body). send code (body_text body) (content_type body)) r))"

section \<open>Reading the page\<close>

fun lines_of :: "string \<Rightarrow> string list" where
  "lines_of [] = [[]]"
| "lines_of (c # cs) =
     (if c = newline then [] # lines_of cs
      else case lines_of cs of [] \<Rightarrow> [[c]] | l # ls \<Rightarrow> (c # l) # ls)"

text \<open>A sample is a line that is neither empty nor a comment: the series, a blank, the value.\<close>

definition read_sample :: "string \<Rightarrow> string \<times> string" where
  "read_sample l =
     (let (series, v) = split_at (\<lambda>c. c = CHR '' '') l in (series, case v of None \<Rightarrow> [] | Some s \<Rightarrow> s))"

definition is_sample :: "string \<Rightarrow> bool" where
  "is_sample l \<longleftrightarrow> l \<noteq> [] \<and> hd l \<noteq> CHR ''#''"

definition read_page :: "string \<Rightarrow> (string \<times> string) list" where
  "read_page page = map read_sample (filter is_sample (lines_of page))"

definition series_of :: "request_key \<Rightarrow> string" where
  "series_of key =
     (let (handler, meth, status) = key
      in ''http_requests_total{handler='' @ [CHR 0x22] @ handler @ [CHR 0x22] @ '',method=''
         @ [CHR 0x22] @ meth @ [CHR 0x22] @ '',status='' @ [CHR 0x22] @ status @ [CHR 0x22] @ ''}'')"

definition gauge :: "(fl \<Rightarrow> string) \<Rightarrow> string \<Rightarrow> fl option \<Rightarrow> (string \<times> string) list" where
  "gauge fl_repr name v = (case v of None \<Rightarrow> [] | Some x \<Rightarrow> [(name, fl_repr x)])"

text \<open>A text that fits into a line and into a field of it.\<close>

definition plain :: "string \<Rightarrow> bool" where
  "plain s \<longleftrightarrow> newline \<notin> set s \<and> CHR '' '' \<notin> set s"

lemma lines_of_line: "newline \<notin> set l \<Longrightarrow> lines_of (l @ newline # s) = l # lines_of s"
  by (induction l) auto

lemma lines_of_join: "\<forall>l\<in>set ls. newline \<notin> set l \<Longrightarrow> lines_of (join_lines ls) = ls @ [[]]"
  by (induction ls) (simp_all add: join_lines_def lines_of_line)

lemma read_page_join:
  "\<forall>l\<in>set ls. newline \<notin> set l \<Longrightarrow> read_page (join_lines ls) = map read_sample (filter is_sample ls)"
  by (simp add: read_page_def lines_of_join is_sample_def)

lemma read_page_line:
  "newline \<notin> set l \<Longrightarrow>
     read_page (join_lines (l # ls)) = (if is_sample l then [read_sample l] else []) @ read_page (join_lines ls)"
  by (simp add: read_page_def join_lines_def lines_of_line)

lemma read_sample_line: "CHR '' '' \<notin> set a \<Longrightarrow> read_sample (a @ CHR '' '' # v) = (a, v)"
proof -
  assume "CHR '' '' \<notin> set a"
  then have "takeWhile (\<lambda>c. c \<noteq> CHR '' '') (a @ CHR '' '' # v) = a"
    "dropWhile (\<lambda>c. c \<noteq> CHR '' '') (a @ CHR '' '' # v) = CHR '' '' # v" by (induction a) auto
  then show ?thesis by (simp add: read_sample_def split_at_def)
qed

text \<open>What one metric contributes.\<close>

lemma read_metric:
  assumes "plain name" and "name \<noteq> []" and "hd name \<noteq> CHR ''#''"
    and "newline \<notin> set kind" and "newline \<notin> set help" and "\<And>x. plain (fl_repr x)"
  shows "read_page (join_lines (metric_lines fl_repr name kind help v @ ls))
    = gauge fl_repr name v @ read_page (join_lines ls)"
proof -
  have "newline \<notin> set (''# HELP '' @ name @ '' '' @ help)" "newline \<notin> set (''# TYPE '' @ name @ '' '' @ kind)"
    "newline \<notin> set (name @ CHR '' '' # fl_repr x)" for x
    using assms by (auto simp: plain_def newline_def)
  with assms read_sample_line [of name] show ?thesis
    by (auto simp: metric_lines_def gauge_def read_page_line is_sample_def plain_def split: option.split)
qed

lemma request_line_series:
  "request_line fl_repr (key, n) = rmap (\<lambda>x. series_of key @ CHR '' '' # fl_repr x) (fl_of_int n)"
  by (simp add: request_line_def series_of_def case_prod_unfold Let_def)

definition plain_key :: "request_key \<Rightarrow> bool" where
  "plain_key key \<longleftrightarrow> (let (handler, meth, status) = key in plain handler \<and> plain meth \<and> plain status)"

lemma series_plain: "plain_key key \<Longrightarrow> plain (series_of key)"
  by (auto simp: plain_key_def plain_def series_of_def newline_def split: prod.splits)

lemma map_ok_Inr: "map_ok f xs = Inr ys \<longleftrightarrow> list_all2 (\<lambda>x y. f x = Inr y) xs ys"
  by (induction xs arbitrary: ys) (auto simp: rbind_Inr_iff rmap_Inr_iff list_all2_Cons1)

lemma map_ok_ok: "\<forall>x\<in>set xs. is_ok (f x) \<Longrightarrow> is_ok (map_ok f xs)"
  by (induction xs) (auto simp: is_ok_iff)

text \<open>The page is there unless a counter is too large for a float.\<close>

lemma render_ok:
  assumes "is_ok (fl_of_int (dh_accounts_written h))" and "is_ok (fl_of_int (dh_write_failures h))"
    and "\<forall>(key, n)\<in>set (dh_requests h). is_ok (fl_of_int n)"
  shows "is_ok (render_metrics fl_repr h)"
proof -
  have "is_ok (map_ok (request_line fl_repr) (sort_key fst (dh_requests h)))"
    using assms(3) by (intro map_ok_ok) (auto simp: request_line_series is_ok_iff)
  then show ?thesis using assms(1,2) by (auto simp: render_metrics_def is_ok_iff)
qed

text \<open>The counted requests, with the numbers as the page prints them.\<close>

definition request_samples :: "(fl \<Rightarrow> string) \<Rightarrow> daemon_health \<Rightarrow> (string \<times> string) list res" where
  "request_samples fl_repr h =
     map_ok (\<lambda>(key, n). rmap (\<lambda>x. (series_of key, fl_repr x)) (fl_of_int n)) (sort_key fst (dh_requests h))"

lemma read_requests:
  assumes "map_ok (request_line fl_repr) rs = Inr ls" and "\<forall>(key, n)\<in>set rs. plain_key key"
    and "\<And>x. plain (fl_repr x)"
  shows "map_ok (\<lambda>(key, n). rmap (\<lambda>x. (series_of key, fl_repr x)) (fl_of_int n)) rs
      = Inr (map read_sample (filter is_sample ls)) \<and> (\<forall>l\<in>set ls. newline \<notin> set l)"
  using assms(1,2)
proof (induction rs arbitrary: ls)
  case Nil
  then show ?case by simp
next
  case (Cons r rs)
  obtain key n where r: "r = (key, n)" by fastforce
  with Cons.prems(1) obtain x ls' where x: "fl_of_int n = Inr x" "map_ok (request_line fl_repr) rs = Inr ls'"
    "ls = (series_of key @ CHR '' '' # fl_repr x) # ls'"
    by (auto simp: request_line_series rbind_Inr_iff rmap_Inr_iff)
  have p: "plain (series_of key)" using Cons.prems(2) r by (auto intro: series_plain)
  then have "read_sample (series_of key @ CHR '' '' # fl_repr x) = (series_of key, fl_repr x)"
    by (simp add: read_sample_line plain_def)
  moreover have "is_sample (series_of key @ CHR '' '' # fl_repr x)"
    by (simp add: is_sample_def series_of_def split: prod.split)
  moreover have "newline \<notin> set (series_of key @ CHR '' '' # fl_repr x)"
    using p assms(3) [of x] by (auto simp: plain_def newline_def)
  ultimately show ?case
    using Cons.IH [OF x(2)] Cons.prems(2) r x by (auto simp: rbind_def rmap_def)
qed

section \<open>The keys\<close>

text \<open>The requests that the endpoint itself has counted have plain keys.\<close>

definition plain_record :: "daemon_health \<Rightarrow> bool" where
  "plain_record h \<longleftrightarrow> (\<forall>(key, n)\<in>set (dh_requests h). plain_key key)"

lemma show_nat_plain: "plain (show_nat n)"
proof -
  have "c \<noteq> newline \<and> c \<noteq> CHR '' ''" if "digit_of c \<noteq> None" for c
    using that by (auto simp: digit_of_def newline_def)
  with show_nat_digits [of n] show ?thesis by (auto simp: plain_def all_digits_def)
qed

lemma plain_append: "plain (a @ b) \<longleftrightarrow> plain a \<and> plain b"
  by (auto simp: plain_def)

lemma set_update_subset: "set (AList.update k v l) \<subseteq> insert (k, v) (set l)"
  by (induction l) auto

lemma count_request_plain:
  assumes "plain_record h" and "plain path" and "0 \<le> code"
  shows "plain_record (count_request path ''GET'' code h)"
proof -
  have "plain (show_int (code div 100) @ ''xx'')"
    using assms(3) show_nat_plain by (simp add: plain_append show_int_def) (simp add: plain_def newline_def)
  with assms(2) have "plain_key (path, ''GET'', show_int (code div 100) @ ''xx'')"
    by (simp add: plain_key_def) (simp add: plain_def newline_def)
  with assms(1) show ?thesis
    unfolding plain_record_def count_request_def Let_def
    by (auto dest!: set_update_subset [THEN subsetD])
qed

interpretation served: invariant_machine "serve fl_repr" plain_record
proof
  fix h req
  assume h: "plain_record h"
  have "plain ''/health''" "plain ''none''" by (simp_all add: plain_def newline_def)
  then show "plain_record (serve fl_repr h req)"
    using h
    by (auto simp: serve_def do_get_def Let_def split: prod.split intro!: count_request_plain)
qed

lemma served_plain: "plain_record (run_events (serve fl_repr) health_init reqs)"
proof -
  have "plain_record health_init"
    by (simp add: plain_record_def health_init_def plain_key_def) (simp add: plain_def newline_def)
  then show ?thesis by (rule served.inv_run)
qed

section \<open>Properties\<close>

text \<open>
  The bytes of a response are announced: its \<open>Content-Length\<close> is the number of bytes of its body, and the
  code is one of the three that the handler knows.
\<close>

lemma response_framed:
  assumes "snd (respond fl_repr now path h) = Inr rs"
  shows "map_of (rs_headers rs) ''Content-Length'' = Some (show_int (int (length (rs_body rs))))
    \<and> rs_status rs \<in> {200, 404, 503}"
  using assms
  by (auto simp: respond_def do_get_def send_def Let_def rmap_Inr_iff split: prod.splits if_splits)

text \<open>
  C28. A scraper reads what the daemon recorded: split into lines, without the comments, and each line at its
  first blank, the page gives the leadership as one or zero, the times that have been set, both counters of
  the account writer, and one sample for every kind of request counted, in the order of their keys and
  with nothing else, whatever requests the endpoint has served.
\<close>

theorem page_read_back:
  assumes "render_metrics fl_repr h = Inr page" and "\<And>x. plain (fl_repr x)"
    and "dh_requests h = dh_requests (run_events (serve fl_repr) health_init reqs)"
  shows "\<exists>w f rs. fl_of_int (dh_accounts_written h) = Inr w \<and> fl_of_int (dh_write_failures h) = Inr f
    \<and> request_samples fl_repr h = Inr rs
    \<and> read_page page =
        (''bifrost_daemon_leader'', fl_repr (if dh_leader_since h \<noteq> None then Fin 1 else Fin 0))
        # gauge fl_repr ''bifrost_daemon_heartbeat_timestamp_seconds'' (dh_heartbeat_ts h)
        @ gauge fl_repr ''bifrost_daemon_raw_broker_last_write_timestamp_seconds'' (dh_write_ts h)
        @ [(''bifrost_daemon_raw_broker_accounts_written_total'', fl_repr w),
           (''bifrost_daemon_raw_broker_write_failures_total'', fl_repr f)] @ rs"
proof -
  have keys: "\<forall>(key, n)\<in>set (sort_key fst (dh_requests h)). plain_key key"
    using served_plain [of fl_repr reqs] assms(3) by (simp add: plain_record_def)
  from assms(1) obtain w f ls where w: "fl_of_int (dh_accounts_written h) = Inr w"
    and f: "fl_of_int (dh_write_failures h) = Inr f"
    and ls: "map_ok (request_line fl_repr) (sort_key fst (dh_requests h)) = Inr ls"
    by (auto simp: render_metrics_def rbind_Inr_iff)
  have rest: "read_page (join_lines (''# HELP http_requests_total Requests served by the daemon's HTTP endpoint.''
      # ''# TYPE http_requests_total counter'' # ls)) = map read_sample (filter is_sample ls)"
    using read_requests [OF ls keys assms(2)]
    by (simp add: read_page_line read_page_join is_sample_def newline_def)
  have names: "plain ''bifrost_daemon_leader''" "plain ''bifrost_daemon_heartbeat_timestamp_seconds''"
    "plain ''bifrost_daemon_raw_broker_last_write_timestamp_seconds''"
    "plain ''bifrost_daemon_raw_broker_accounts_written_total''"
    "plain ''bifrost_daemon_raw_broker_write_failures_total''"
    by (simp_all add: plain_def newline_def)
  have "rmap read_page (render_metrics fl_repr h) = Inr (
      (''bifrost_daemon_leader'', fl_repr (if dh_leader_since h \<noteq> None then Fin 1 else Fin 0))
      # gauge fl_repr ''bifrost_daemon_heartbeat_timestamp_seconds'' (dh_heartbeat_ts h)
      @ gauge fl_repr ''bifrost_daemon_raw_broker_last_write_timestamp_seconds'' (dh_write_ts h)
      @ [(''bifrost_daemon_raw_broker_accounts_written_total'', fl_repr w),
         (''bifrost_daemon_raw_broker_write_failures_total'', fl_repr f)]
      @ map read_sample (filter is_sample ls))"
    unfolding render_metrics_def w f ls
    by (simp add: read_metric names assms(2) rest newline_def) (simp add: gauge_def)
  with assms(1) read_requests [OF ls keys assms(2)] w f show ?thesis
    by (simp add: request_samples_def)
qed

section \<open>Witnesses\<close>

definition sample_requests :: "(fl \<times> string) list" where
  "sample_requests = [(Fin 1, ''/health''), (Fin 3, ''/x'')]"

lemma page_read_back_witness:
  "\<exists>page. render_metrics (\<lambda>x. if x = Fin 0 then ''0.0'' else ''1.0'')
       (run_events (serve (\<lambda>x. if x = Fin 0 then ''0.0'' else ''1.0'')) health_init sample_requests) = Inr page
   \<and> map_of (read_page page) ''bifrost_daemon_leader'' = Some ''0.0''"
proof -
  let ?f = "\<lambda>x. if x = Fin 0 then ''0.0'' else ''1.0''"
  let ?h = "run_events (serve ?f) health_init sample_requests"
  have plain: "plain (?f x)" for x by (simp add: plain_def newline_def)
  have h: "dh_leader_since ?h = None" "dh_accounts_written ?h = 0" "dh_write_failures ?h = 0"
    "dh_requests ?h = [((''/health'', ''GET'', ''2xx''), 1), ((''none'', ''GET'', ''4xx''), 1)]" by code_simp+
  have "is_ok (render_metrics ?f ?h)"
    by (intro render_ok) (simp_all only: h, simp_all add: fl_of_int_small)
  then obtain page where page: "render_metrics ?f ?h = Inr page" unfolding is_ok_iff by blast
  from page_read_back [OF page plain refl] obtain samples
    where "read_page page = (''bifrost_daemon_leader'', ?f (if dh_leader_since ?h \<noteq> None then Fin 1 else Fin 0)) # samples"
    by blast
  then have "map_of (read_page page) ''bifrost_daemon_leader'' = Some ''0.0''"
    unfolding h by simp
  with page show ?thesis by blast
qed

end
