(* ===== verification/StoreView.thy ===== *)
theory StoreView imports RuntimeStore OrderExec begin

text \<open>
  The reading side of the shared objects (\<open>core/store.py\<close>, \<open>core/metrics.py\<close>, \<open>market/market_data.py\<close>,
  \<open>execution/order_manager.py\<close>), and what a reader can rely on when several threads call the methods of
  the store, each of which holds the lock: it sees the last write, no count is lost, and the account
  dictionaries that it gets are its own.
\<close>

section \<open>Reading the store\<close>

definition get_positions :: "'pos store \<Rightarrow> 'pos list" where
  "get_positions s = st_positions s"

definition get_stock_position :: "'pos store \<Rightarrow> int" where
  "get_stock_position s = st_stock_position s"

definition get_underlying_price :: "'pos store \<Rightarrow> fl option" where
  "get_underlying_price s = st_price s"

definition get_bid :: "'pos store \<Rightarrow> fl option" where
  "get_bid s = st_bid s"

definition get_ask :: "'pos store \<Rightarrow> fl option" where
  "get_ask s = st_ask s"

definition get_last_hedge_time :: "'pos store \<Rightarrow> fl option" where
  "get_last_hedge_time s = st_last_hedge_time s"

definition get_last_hedge_price :: "'pos store \<Rightarrow> fl option" where
  "get_last_hedge_price s = st_last_hedge_price s"

definition get_daily_hedge_count :: "'pos store \<Rightarrow> int" where
  "get_daily_hedge_count s = st_daily_hedge_count s"

definition get_daily_pnl :: "'pos store \<Rightarrow> fl" where
  "get_daily_pnl s = st_daily_pnl s"

definition get_account_id :: "'pos store \<Rightarrow> string option" where
  "get_account_id s = st_account_id s"

definition get_accounts_data :: "'pos store \<Rightarrow> pydict list" where
  "get_accounts_data s = st_accounts_data s"

lemmas get_defs = get_positions_def get_stock_position_def get_underlying_price_def get_bid_def get_ask_def
  get_last_hedge_time_def get_last_hedge_price_def get_daily_hedge_count_def get_daily_pnl_def get_account_id_def
  get_accounts_data_def

section \<open>The market-data view and the order manager\<close>

definition md_bid :: "'pos store \<Rightarrow> fl option" where
  "md_bid s = get_bid s"

definition md_ask :: "'pos store \<Rightarrow> fl option" where
  "md_ask s = get_ask s"

definition md_mid :: "'pos store \<Rightarrow> fl option" where
  "md_mid s = get_underlying_price s"

definition om_get_execution_state :: "order_manager \<Rightarrow> execution_state" where
  "om_get_execution_state om = om_execution_state om"

definition om_get_connected :: "order_manager \<Rightarrow> bool" where
  "om_get_connected om = om_connected om"

definition om_get_broker_error :: "order_manager \<Rightarrow> string option" where
  "om_get_broker_error om = om_broker_error om"

section \<open>Reading the metrics\<close>

definition mx_get_hedge_count :: "metrics \<Rightarrow> int" where
  "mx_get_hedge_count m = mx_hedge_count m"

definition mx_get_data_lag_ms :: "metrics \<Rightarrow> fl option" where
  "mx_get_data_lag_ms m = mx_data_lag_ms m"

definition mx_get_current_state :: "metrics \<Rightarrow> string option" where
  "mx_get_current_state m = mx_current_state m"

definition mx_get_gamma :: "metrics \<Rightarrow> fl option" where
  "mx_get_gamma m = mx_gamma m"

definition mx_get_reprice_count :: "metrics \<Rightarrow> int" where
  "mx_get_reprice_count m = mx_reprice_count m"

definition mx_get_safe_mode_count :: "metrics \<Rightarrow> int" where
  "mx_get_safe_mode_count m = mx_safe_mode_count m"

section \<open>Cells\<close>

text \<open>A field with its two methods: reading gives the last write, and a write is all that a write does.\<close>

locale cell =
  fixes put :: "'s \<Rightarrow> 'v \<Rightarrow> 's"
    and get :: "'s \<Rightarrow> 'v"
  assumes get_put: "get (put s v) = v"
    and put_get: "put s (get s) = s"
    and put_put: "put (put s v) w = put s w"
begin

lemma get_puts: "vs \<noteq> [] \<Longrightarrow> get (foldl put s vs) = last vs"
  by (induction vs rule: rev_induct) (simp_all add: get_put)

lemma put_eq: "put s v = put s w \<longleftrightarrow> v = w"
  by (metis get_put)

end

interpretation last_time: cell set_last_hedge_time get_last_hedge_time
  by unfold_locales (simp_all add: set_last_hedge_time_def get_last_hedge_time_def)

interpretation last_price: cell set_last_hedge_price get_last_hedge_price
  by unfold_locales (simp_all add: set_last_hedge_price_def get_last_hedge_price_def)

interpretation price: cell set_underlying_price get_underlying_price
  by unfold_locales (simp_all add: set_underlying_price_def get_underlying_price_def)

interpretation pnl: cell set_daily_pnl get_daily_pnl
  by unfold_locales (simp_all add: set_daily_pnl_def get_daily_pnl_def)

interpretation accounts: cell set_accounts_data get_accounts_data
  by unfold_locales (simp_all add: set_accounts_data_def get_accounts_data_def)

interpretation lag: cell set_data_lag_ms mx_get_data_lag_ms
  by unfold_locales (simp_all add: set_data_lag_ms_def mx_get_data_lag_ms_def)

interpretation logged_state: cell set_current_state mx_get_current_state
  by unfold_locales (simp_all add: set_current_state_def mx_get_current_state_def)

interpretation gamma: cell set_gamma mx_get_gamma
  by unfold_locales (simp_all add: set_gamma_def mx_get_gamma_def)

interpretation held: cell "\<lambda>s (ps, n). set_positions s ps n" "\<lambda>s. (get_positions s, get_stock_position s)"
  by unfold_locales (auto simp: set_positions_def get_positions_def get_stock_position_def)

interpretation execution: cell om_set_execution_state om_get_execution_state
  by unfold_locales (simp_all add: om_set_execution_state_def om_get_execution_state_def)

interpretation broker_error: cell om_set_broker_error om_get_broker_error
  by unfold_locales (simp_all add: om_set_broker_error_def om_get_broker_error_def)

section \<open>Histories\<close>

text \<open>The methods that change the store, as the threads call them one after another.\<close>

datatype 'pos store_call =
  SetPositions "'pos list" int
| SetQuote "fl option" "fl option"
| SetPrice "fl option"
| SetLastHedgeTime "fl option"
| SetLastHedgePrice "fl option"
| SetDailyCount int "string option"
| IncDailyCount
| SetDailyPnl fl
| AddFillPnl fl
| SetAccountSummary "string option" "pydict option"
| SetAccountsData "pydict list"

fun store_step :: "'pos store \<Rightarrow> 'pos store_call \<Rightarrow> 'pos store" where
  "store_step s (SetPositions ps n) = set_positions s ps n"
| "store_step s (SetQuote b a) = set_underlying_quote s b a"
| "store_step s (SetPrice p) = set_underlying_price s p"
| "store_step s (SetLastHedgeTime t) = set_last_hedge_time s t"
| "store_step s (SetLastHedgePrice p) = set_last_hedge_price s p"
| "store_step s (SetDailyCount n d) = set_daily_hedge_count s n d"
| "store_step s IncDailyCount = snd (inc_daily_hedge_count s)"
| "store_step s (SetDailyPnl p) = set_daily_pnl s p"
| "store_step s (AddFillPnl d) = add_fill_pnl s d"
| "store_step s (SetAccountSummary i d) = set_account_summary s i d"
| "store_step s (SetAccountsData as) = set_accounts_data s as"

definition increments :: "'pos store_call list \<Rightarrow> int" where
  "increments cs = int (length (filter (\<lambda>c. c = IncDailyCount) cs))"

definition counts_daily :: "'pos store_call \<Rightarrow> bool" where
  "counts_daily c \<longleftrightarrow> (case c of SetDailyCount _ _ \<Rightarrow> True | _ \<Rightarrow> False)"

definition prices :: "'pos store_call \<Rightarrow> bool" where
  "prices c \<longleftrightarrow> (case c of SetPrice _ \<Rightarrow> True | SetQuote (Some _) (Some _) \<Rightarrow> True | _ \<Rightarrow> False)"

text \<open>The price that a call leaves.\<close>

fun priced :: "'pos store_call \<Rightarrow> fl option" where
  "priced (SetPrice p) = p"
| "priced (SetQuote (Some b) (Some a)) = Some (fl_mid b a)"
| "priced _ = None"

text \<open>
  No increment is lost: after any history of calls, the daily count is the value that was set last, or the
  one it started from, plus one for every increment since.
\<close>

lemma daily_count_exact:
  assumes "\<not> list_ex counts_daily cs"
  shows "get_daily_hedge_count (run_events store_step s cs) = get_daily_hedge_count s + increments cs"
    and "get_daily_hedge_count (run_events store_step s (bs @ SetDailyCount n d # cs)) = n + increments cs"
proof -
  have "get_daily_hedge_count (run_events store_step t cs) = get_daily_hedge_count t + increments cs" for t
    using assms
  proof (induction cs arbitrary: t)
    case Nil
    show ?case by (simp add: increments_def)
  next
    case (Cons c cs)
    have "get_daily_hedge_count (store_step t c) = get_daily_hedge_count t + increments [c]"
      using Cons.prems
      by (cases c) (auto simp: counts_daily_def increments_def store_defs get_daily_hedge_count_def Let_def
          split: option.split)
    with Cons show ?case by (simp add: increments_def)
  qed
  then show "get_daily_hedge_count (run_events store_step s cs) = get_daily_hedge_count s + increments cs"
    "get_daily_hedge_count (run_events store_step s (bs @ SetDailyCount n d # cs)) = n + increments cs"
    by (simp_all add: run_events_append) (simp add: get_daily_hedge_count_def set_daily_hedge_count_def)
qed

lemma price_step:
  "get_underlying_price (store_step s c) = (if prices c then priced c else get_underlying_price s)"
proof (cases c)
  case (SetQuote b a)
  then show ?thesis
    by (cases b; cases a) (simp_all add: prices_def store_defs get_underlying_price_def Let_def)
qed (simp_all add: prices_def store_defs get_underlying_price_def Let_def)

lemma price_run:
  "get_underlying_price (run_events store_step s cs) =
     (case filter prices cs of [] \<Rightarrow> get_underlying_price s | ps \<Rightarrow> priced (last ps))"
proof (induction cs rule: rev_induct)
  case Nil
  show ?case by simp
next
  case (snoc c cs)
  then show ?case by (cases "filter prices cs") (auto simp: run_events_append price_step)
qed

section \<open>The accounts on the heap\<close>

text \<open>
  Python's dictionaries are objects. The store copies those it is given and those it hands out, one level
  deep; \<open>known\<close> are the addresses that callers hold, \<open>kept\<close> those in the store. A caller makes a dictionary,
  writes into one that it knows, gives some to the store, or takes what the store gives.
\<close>

record account_heap =
  ah_dicts :: "pydict list"
  ah_known :: "nat list"
  ah_kept :: "nat list"

datatype account_act =
  NewDict pydict
| WriteDict nat string pyval
| GiveDicts "nat list"
| TakeDicts

definition copy_dicts :: "nat list \<Rightarrow> pydict list \<Rightarrow> nat list \<times> pydict list" where
  "copy_dicts as h = ([length h..<length h + length as], h @ map (\<lambda>a. h ! a) as)"

definition chosen :: "nat list \<Rightarrow> 'a list \<Rightarrow> 'a list" where
  "chosen js xs = map (\<lambda>i. xs ! i) (filter (\<lambda>i. i < length xs) js)"

fun account_act_step :: "account_heap \<Rightarrow> account_act \<Rightarrow> account_heap" where
  "account_act_step h (NewDict d) =
     h\<lparr>ah_dicts := ah_dicts h @ [d], ah_known := ah_known h @ [length (ah_dicts h)]\<rparr>"
| "account_act_step h (WriteDict i k v) =
     (if i < length (ah_known h)
      then let a = ah_known h ! i in h\<lparr>ah_dicts := (ah_dicts h)[a := dput (ah_dicts h ! a) k v]\<rparr> else h)"
| "account_act_step h (GiveDicts js) =
     (let (kept, ds) = copy_dicts (chosen js (ah_known h)) (ah_dicts h) in h\<lparr>ah_dicts := ds, ah_kept := kept\<rparr>)"
| "account_act_step h TakeDicts =
     (let (new, ds) = copy_dicts (ah_kept h) (ah_dicts h) in h\<lparr>ah_dicts := ds, ah_known := ah_known h @ new\<rparr>)"

text \<open>The same acts on values: the dictionaries of the callers, and the store of the model.\<close>

fun account_act_value :: "pydict list \<times> 'pos store \<Rightarrow> account_act \<Rightarrow> pydict list \<times> 'pos store" where
  "account_act_value (ds, s) (NewDict d) = (ds @ [d], s)"
| "account_act_value (ds, s) (WriteDict i k v) = (if i < length ds then ds[i := dput (ds ! i) k v] else ds, s)"
| "account_act_value (ds, s) (GiveDicts js) = (ds, set_accounts_data s (chosen js ds))"
| "account_act_value (ds, s) TakeDicts = (ds @ get_accounts_data s, s)"

definition read_dicts :: "account_heap \<Rightarrow> nat list \<Rightarrow> pydict list" where
  "read_dicts h as = map (\<lambda>a. ah_dicts h ! a) as"

text \<open>No address twice, and none outside the heap.\<close>

definition separated :: "account_heap \<Rightarrow> bool" where
  "separated h \<longleftrightarrow> distinct (ah_known h @ ah_kept h)
     \<and> (\<forall>a\<in>set (ah_known h). a < length (ah_dicts h)) \<and> (\<forall>a\<in>set (ah_kept h). a < length (ah_dicts h))"

interpretation separated: invariant_machine account_act_step separated
proof
  fix h act
  assume "separated h"
  then show "separated (account_act_step h act)"
    by (cases act) (auto simp: separated_def copy_dicts_def Let_def less_Suc_eq intro: trans_less_add1 dest: bspec)
qed

lemma chosen_map: "chosen js (map f xs) = map f (chosen js xs)"
  by (auto simp: chosen_def)

lemma set_chosen: "set (chosen js xs) \<subseteq> set xs"
  by (auto simp: chosen_def)

lemma read_copies:
  "\<forall>a\<in>set as. a < length h \<Longrightarrow>
     map (\<lambda>a. (h @ map (\<lambda>a. h ! a) as) ! a) [length h..<length h + length as] = map (\<lambda>a. h ! a) as"
  by (intro nth_equalityI) (simp_all add: nth_append)

lemma read_grown:
  "\<forall>a\<in>set bs. a < length h \<Longrightarrow> map (\<lambda>a. (h @ k) ! a) bs = map (\<lambda>a. h ! a) bs"
  by (simp add: nth_append)

lemma read_written:
  "distinct bs \<Longrightarrow> \<forall>a\<in>set bs. a < length h \<Longrightarrow> i < length bs \<Longrightarrow>
     map (\<lambda>a. h[bs ! i := d] ! a) bs = (map (\<lambda>a. h ! a) bs)[i := d]"
  by (auto simp: list_eq_iff_nth_eq nth_list_update nth_eq_iff_index_eq)

lemma read_elsewhere: "a \<notin> set bs \<Longrightarrow> map (\<lambda>b. h[a := d] ! b) bs = map (\<lambda>b. h ! b) bs"
  by (intro map_cong refl nth_list_update_neq) auto

lemma account_act_refines:
  assumes "separated h" and "ds = read_dicts h (ah_known h)" and "get_accounts_data s = read_dicts h (ah_kept h)"
    and "account_act_value (ds, s) act = (ds', s')"
  shows "ds' = read_dicts (account_act_step h act) (ah_known (account_act_step h act))
    \<and> get_accounts_data s' = read_dicts (account_act_step h act) (ah_kept (account_act_step h act))"
proof (cases act)
  case (NewDict d)
  with assms show ?thesis by (auto simp: separated_def read_dicts_def read_grown)
next
  case (WriteDict i k v)
  have "i < length (ah_known h) \<Longrightarrow> ah_known h ! i \<notin> set (ah_kept h)"
    using assms(1) by (auto simp: separated_def dest: nth_mem)
  with WriteDict assms show ?thesis
    by (auto simp: separated_def read_dicts_def read_written read_elsewhere Let_def)
next
  case (GiveDicts js)
  have "\<forall>a\<in>set (chosen js (ah_known h)). a < length (ah_dicts h)"
    using assms(1) set_chosen [of js "ah_known h"] by (auto simp: separated_def)
  with GiveDicts assms show ?thesis
    by (auto simp: separated_def read_dicts_def read_grown read_copies copy_dicts_def chosen_map accounts.get_put)
next
  case TakeDicts
  with assms show ?thesis by (auto simp: separated_def read_dicts_def read_grown read_copies copy_dicts_def)
qed

section \<open>Properties\<close>

text \<open>
  A reader sees the last write: after any history of calls by any threads, the price is the one of the
  last call that sets it, a quote with both sides counting as one with its middle, and the daily count is
  the value that was set last plus every increment since, none of them lost.
\<close>

theorem store_reads_last_write:
  "get_underlying_price (run_events store_step s cs) =
     (case filter prices cs of [] \<Rightarrow> get_underlying_price s | ps \<Rightarrow> priced (last ps))
   \<and> (\<not> list_ex counts_daily cs \<longrightarrow>
        get_daily_hedge_count (run_events store_step s cs) = get_daily_hedge_count s + increments cs
        \<and> get_daily_hedge_count (run_events store_step s (bs @ SetDailyCount n d # cs)) = n + increments cs)"
  using price_run daily_count_exact by blast


section \<open>Witnesses\<close>

lemma store_reads_last_write_witness:
  "get_daily_hedge_count (run_events store_step (store_init :: unit store)
     [IncDailyCount, SetDailyCount 3 None, IncDailyCount, SetPrice None, IncDailyCount]) = 5"
  using store_reads_last_write [of "store_init :: unit store" "[IncDailyCount, SetPrice None, IncDailyCount]"
      "[IncDailyCount]" 3 None]
  by (simp add: counts_daily_def increments_def)


end
