(* ===== verification/Payloads.thy ===== *)
theory Payloads imports Classifier begin

text \<open>
  The payload classes of \<open>fsm/events.py\<close>, each with the defaults of its optional fields, the accessors of
  \<open>Greeks\<close> and \<open>CompositeState.from_runtime\<close>.
\<close>

section \<open>Payloads\<close>

record tick_event =
  te_ts :: fl
  te_bid :: "fl option"
  te_ask :: "fl option"
  te_last :: "fl option"
  te_symbol :: string

record quote_event =
  qe_ts :: fl
  qe_bid :: fl
  qe_ask :: fl
  qe_symbol :: string

record 'pos position_event =
  pe_ts :: fl
  pe_stock_shares :: int
  pe_option_delta :: "fl option"
  pe_positions :: "'pos option"

record fill_event =
  fi_ts :: fl
  fi_side :: string
  fi_quantity :: int
  fi_price :: "fl option"
  fi_cumulative :: int
  fi_order_id :: "string option"

record ack_event =
  ak_ts :: fl
  ak_order_id :: "string option"
  ak_ok :: bool
  ak_reject_reason :: "string option"

definition mk_tick_event :: "fl \<Rightarrow> tick_event" where
  "mk_tick_event ts = \<lparr>te_ts = ts, te_bid = None, te_ask = None, te_last = None, te_symbol = []\<rparr>"

definition mk_quote_event :: "fl \<Rightarrow> fl \<Rightarrow> fl \<Rightarrow> quote_event" where
  "mk_quote_event ts bid ask = \<lparr>qe_ts = ts, qe_bid = bid, qe_ask = ask, qe_symbol = []\<rparr>"

definition mk_position_event :: "fl \<Rightarrow> int \<Rightarrow> 'pos position_event" where
  "mk_position_event ts shares =
     \<lparr>pe_ts = ts, pe_stock_shares = shares, pe_option_delta = None, pe_positions = None\<rparr>"

definition mk_fill_event :: "fl \<Rightarrow> string \<Rightarrow> int \<Rightarrow> fill_event" where
  "mk_fill_event ts side quantity =
     \<lparr>fi_ts = ts, fi_side = side, fi_quantity = quantity, fi_price = None, fi_cumulative = 0, fi_order_id = None\<rparr>"

definition mk_ack_event :: "fl \<Rightarrow> ack_event" where
  "mk_ack_event ts = \<lparr>ak_ts = ts, ak_order_id = None, ak_ok = True, ak_reject_reason = None\<rparr>"

section \<open>Greeks and the composite state\<close>

definition greeks_delta :: "'leg greeks \<Rightarrow> fl" where
  "greeks_delta g = gk_delta g"

definition greeks_gamma :: "'leg greeks \<Rightarrow> fl" where
  "greeks_gamma g = gk_gamma g"

definition greeks_valid :: "'leg greeks \<Rightarrow> bool" where
  "greeks_valid g = gk_valid g"

text \<open>\<open>from_runtime\<close> classifies without a history of prices and with an empty configuration for none.\<close>

definition from_runtime ::
  "(fl \<Rightarrow> fl res) \<Rightarrow> (fl \<Rightarrow> fl res) \<Rightarrow> classify_clock \<Rightarrow> int \<Rightarrow> 'pos store \<Rightarrow> market_data
   \<Rightarrow> 'leg greeks \<Rightarrow> order_manager \<Rightarrow> hedge_fsm \<Rightarrow> fl option \<Rightarrow> fl option \<Rightarrow> fl option \<Rightarrow> bool
   \<Rightarrow> pydict option \<Rightarrow> composite_state res" where
  "from_runtime sqrt_fn square_fn clk stock_pos st md g om hf last_hedge_price last_hedge_ts data_lag_ms
     risk_halt config =
     classify sqrt_fn square_fn clk stock_pos st md g om hf last_hedge_price last_hedge_ts data_lag_ms
       risk_halt (case config of None \<Rightarrow> [] | Some c \<Rightarrow> c) None"

text \<open>Whatever raises aside, the state that it builds shows the Greeks that it was given.\<close>

lemma from_runtime_greeks:
  assumes "from_runtime sq sqr clk n st md g om hf p t lag halt config = Inr cs"
  shows "cs_net_delta cs = greeks_delta g \<and> cs_greeks_valid cs = greeks_valid g
    \<and> (\<not> greeks_valid g \<longrightarrow> cs_D cs = D_INVALID \<and> cs_S cs \<noteq> S_OK)"
  using assms
  by (auto simp: from_runtime_def classify_def classify_d_def classify_s_def greeks_delta_def greeks_valid_def
      Let_def rbind_Inr_iff split: if_splits)

end
