(* ===== verification/Spec2Isabelle.thy ===== *)
theory Spec2Isabelle imports TickerRedis KubeLease SyncLead WaitForData Tasks LogLines HttpServer StoreView Payloads begin

text \<open>
  A model of the trading daemon \<open>bifrost_worker.daemon\<close> (Python, under \<open>src/src/bifrost_worker/daemon\<close>) and
  of its start-up script \<open>src/scripts/wait_for_data.py\<close>, with the properties that make the daemon correct.

  The program. One pod of several runs the daemon: the pods elect a leader over a Kubernetes Lease
  (\<open>lease.py\<close>), the leader builds the object \<open>GsTrading\<close> (\<open>app/gs_trading.py\<close>, \<open>app/entry.py\<close>) and runs its
  state loop (\<open>app/daemon_handlers.py\<close>). A heartbeat (\<open>app/control_heartbeat.py\<close>) polls commands and the run
  status, refreshes accounts, builds a snapshot (\<open>app/snapshot.py\<close>) from the store, the classifier and the
  Greeks, writes it to the status sink, and may evaluate a hedge (\<open>app/hedge_flow.py\<close>): the trading machine
  (\<open>fsm/trading_fsm.py\<close>, with the predicates of \<open>guards/trading_guard.py\<close>) decides whether a hedge is due,
  the scalper (\<open>strategy/gamma_scalper.py\<close>) sizes it, the gates (\<open>strategy/hedge_gate.py\<close> and
  \<open>guards/execution_guard.py\<close>) allow or refuse it, and the hedge machine (\<open>fsm/hedge_fsm.py\<close>) carries it
  out. A listener writes account snapshots to the database (\<open>app/account_push.py\<close>).

  The theories, in the order of their imports.
  \<^item> \<open>Prelude\<close>: results of code that may raise, actions on a mutable state (\<open>act\<close>), runs of machines with
    an invariant. \<open>PyFloat\<close>: binary64 numbers as rationals with infinities and NaN, rounded to even after
    each operation. \<open>PyValue\<close>: dynamic values, dictionaries, truth, conversions, the text of integers.
    \<open>PyFormat\<close>: the fixed-point texts of floats.
  \<^item> \<open>StateEnums\<close>, \<open>DaemonFsm\<close>, \<open>HedgeFsm\<close>: the enumerations of \<open>core/state/enums.py\<close> and \<open>fsm/events.py\<close>,
    the lifecycle and the hedge machine, each by its transition table and its operations.
  \<^item> \<open>RuntimeStore\<close>, \<open>OrderExec\<close>, \<open>Composite\<close>, \<open>Classifier\<close>, \<open>Snapshot\<close>: the data the decisions read
    (\<open>core/store.py\<close>, \<open>core/metrics.py\<close>, \<open>market/market_data.py\<close>, \<open>execution/order_manager.py\<close>,
    \<open>pricing/greeks.py\<close>, \<open>core/state/\<close>). \<open>StoreView\<close>: the reading side, histories of calls, and the copies of
    the account records on a heap. \<open>Payloads\<close>: the event classes, \<open>from_runtime\<close>. \<open>LogLines\<close>: the structured
    lines of \<open>core/logging_utils.py\<close> and the metrics line.
  \<^item> \<open>ExecGuard\<close>, \<open>TradingGuard\<close>, \<open>TradingFsm\<close>, \<open>Strategy\<close>: the decisions.
  \<^item> \<open>Observability\<close>, \<open>HttpServer\<close>: health record, metrics page, the HTTP answers down to their bytes.
    \<open>AccountPush\<close>: the writer of the account tables. \<open>AccountTables\<close>: the writer against its tables, and
    its steps when two threads write. \<open>PushListener\<close>: the listener with its subscriptions.
  \<^item> \<open>App\<close>, \<open>AppSnapshot\<close>, \<open>TickerRedis\<close>, \<open>HedgeFlow\<close>, \<open>Control\<close>, \<open>DaemonRun\<close>, \<open>Entry\<close>: the daemon object
    and everything that acts on it, up to the entry point. \<open>Tasks\<close>: the daemon run with its background tasks,
    and what holds over a whole run.
  \<^item> \<open>Lease\<close>, \<open>LeaseProtocol\<close>: one elector and its backends, and any number of pods over one Lease.
    \<open>KubeLease\<close>: the same over Kubernetes, where the API server is a parameter with its documented
    behaviour (\<open>optimistic\<close>). \<open>LeaderRun\<close>: the process, the daemon run as the service of the elector.
    \<open>SyncLead\<close>: the leadership around a service in a thread.
  \<^item> \<open>WaitForData\<close>: the endpoints of the configuration and the loop that waits for them.

  How the state is represented. A class is a record, a method that changes it a function from state to
  state, a method that may raise an \<open>act\<close>: it returns the changed state together with the exception or
  the value. Python numbers of type \<open>int\<close> are \<open>int\<close>; floats are \<open>fl\<close>, so the comparisons of ages and limits
  are the rounded ones. Readings of clocks, sockets, Redis, Postgres and of the Kubernetes API are arguments
  (the records named \<open>_env\<close>); the functions of \<open>bifrost_core\<close> are the fields of the record \<open>ext\<close>. Plain log
  lines are left out. Locks make methods atomic, and so do the tasks of one event loop between two awaits; where
  other tasks matter (the sleeps of the heartbeat and of the running state) what they do is an argument.

  Interfaces. \<open>invariant_machine\<close> and \<open>monotone_machine\<close> (Prelude) are interpreted by the lifecycle, the
  order gate, the breaker, the daily counter, the trading machine in \<open>SAFE\<close>, the writer of the account tables
  and the elector's callbacks; \<open>table_machine\<close> (StateEnums) by the lifecycle and the hedge machine;
  \<open>lease_store\<close> and \<open>versioned_store\<close> (LeaseProtocol), from whose laws the election follows, by the in-memory
  backend, and the latter by the Kubernetes backend over any server with the documented behaviour
  (\<open>kube_versioned_store\<close>); \<open>keeps_order\<close> (Prelude) and its extension \<open>app_keeps\<close>
  (AppSnapshot) by every relation that says what a part of the daemon may change: the machines, the quote,
  the hedge flow, the daily limit; its extension \<open>task_keeps\<close> (Control), for what the tasks of a running daemon
  respect, by the lifecycle and by a mocked heartbeat, and \<open>run_keeps\<close> (Tasks), for what a whole run respects,
  by the order counters and by a daemon that sends no order; \<open>cell\<close> (StoreView) by the pairs of methods that
  set and get a field. \<open>TradingFsm\<close> states the
  documented transition table as the inductive relation \<open>trading_edge\<close>, which the machine refines;
  \<open>LeaseProtocol\<close> states the reachable worlds of the election inductively.

  What the properties show. The election: at most one pod leads within its lease duration, under any
  interleaving, lost answers and restarts, over Kubernetes up to the 50 microseconds that the timestamps of
  the Lease lose; a tick has one of four outcomes; the renew loop gives up in time;
  the callbacks alternate. The lifecycle: the run loop ends stopped with no task left, a stop request ends
  it, the sleep of the heartbeat ends and sees a stop within one slice. The process: only a leader serves, and
  whatever ends the service leaves a stopped daemon that has reported its shutdown.
  The decision: the machine refines its table, a hedge is asked for only on good ground, an approved hedge
  passed every gate, a sized hedge never overshoots, the position and the number of orders stay within
  their limits, the breaker holds, the cooldown separates orders, the counters agree.
  The whole run: the daemon ends stopped whatever its tasks do, the service as it is built never sends an
  order, the three counters of orders agree after any run. The data: a degraded read never overwrites a
  stored book, skipping unchanged accounts cannot be seen in the tables, one writer at a time keeps memory
  and tables together (two do not), notifications are coalesced and none is lost, the account records in
  the store are copies, updates commute with snapshots, and a log line and the metrics page can be read back. Some properties state what
  the code does where it is not what its authors want: \<open>SAFE\<close> is final, the daily count never resets, the
  spot is read once, a failing sink or a missed bootstrap strands the trading machine, a reload forgets
  injected gates, a mocked daemon never hedges.

  Bounds and fuel. Loops run over the list of their readings and say when these are used up: 120 readings
  are enough for any sleep of the heartbeat (\<open>sleep_terminates\<close>). The run loop has fuel for six turns, and
  \<open>run_always_stops\<close> proves that it never runs out: every turn moves the lifecycle on, which has six ranks.

  Not modelled. The sockets and threads of the metrics server and of the Redis client, which are library
  code; the methods of \<open>GsTrading\<close> that only forward to the modules of \<open>app\<close>; log lines other than the structured ones; the pricing
  functions, position book and configuration readers of \<open>bifrost_core\<close>, which are parameters.
\<close>

end
